(* ===== verification/Prelude.thy ===== *)
theory Prelude
  imports Main "HOL-Library.Word" "HOL-Library.Sublist"
begin

text \<open>
  What every component shares: the reading of Go's basic types, the parts of Go's standard
  library the code calls (\<^verbatim>\<open>strings.Contains\<close>, \<^verbatim>\<open>strings.ToLower\<close>, the \<^verbatim>\<open>%q\<close> verb of
  \<^verbatim>\<open>fmt\<close>), the development's collections of facts and generic lemmas on them.

  Conventions. A Go string is a \<open>string\<close> (a list of bytes). A pointer that is only read is an
  \<open>option\<close>, \<open>None\<close> being nil. A \<^verbatim>\<open>map[string]string\<close> is an association list: the list is
  the order in which one \<^verbatim>\<open>range\<close> over the map visits it, and \<open>map_of\<close> is indexing; a theorem
  for every list is a theorem for every iteration order. A nil map is \<open>None\<close>. An instant
  (\<^verbatim>\<open>time.Time\<close>) is the number of nanoseconds since Go's zero time, so \<^verbatim>\<open>IsZero\<close> is equality
  with 0. A function that returns \<open>(T, error)\<close> returns \<open>error + T\<close>.
\<close>

named_theorems consts_def
  \<open>definitions of the source's string constants\<close>
named_theorems op_defs
  \<open>definitions of the operations, unfolded when an operation is evaluated\<close>

type_synonym labels = "(string \<times> string) list"
type_synonym gotime = int
type_synonym duration = int
type_synonym int32 = "32 word"
type_synonym uint64 = "64 word"

section \<open>Strings\<close>

definition hex_digit :: "nat \<Rightarrow> char" where
  "hex_digit n = ''0123456789abcdef'' ! (n mod 16)"

text \<open>
  \<^verbatim>\<open>strconv.Quote\<close> one byte at a time. Bytes from 128 on belong to multi-byte runes and are
  copied, as Go does for printable runes; the escapes of non-printable runes beyond ASCII are
  not modelled.
\<close>

definition go_escape :: "char \<Rightarrow> string" where
  "go_escape c =
     (let n = of_char c :: nat; bs = CHR 0x5C in
      if n = 0x22 \<or> n = 0x5C then [bs, c]
      else if 0x20 \<le> n \<and> n < 0x7F then [c]
      else if n = 7 then [bs, CHR ''a'']
      else if n = 8 then [bs, CHR ''b'']
      else if n = 12 then [bs, CHR ''f'']
      else if n = 10 then [bs, CHR ''n'']
      else if n = 13 then [bs, CHR ''r'']
      else if n = 9 then [bs, CHR ''t'']
      else if n = 11 then [bs, CHR ''v'']
      else if n < 0x20 \<or> n = 0x7F then [bs, CHR ''x'', hex_digit (n div 16), hex_digit n]
      else [c])"

definition go_quote :: "string \<Rightarrow> string" where
  "go_quote s = [CHR 0x22] @ concat (map go_escape s) @ [CHR 0x22]"

fun contains :: "string \<Rightarrow> string \<Rightarrow> bool" where
  "contains [] sub = (sub = [])"
| "contains (c # cs) sub = (prefix sub (c # cs) \<or> contains cs sub)"

definition lower_char :: "char \<Rightarrow> char" where
  "lower_char c = (let n = of_char c :: nat in if 65 \<le> n \<and> n \<le> 90 then char_of (n + 32) else c)"

definition to_lower :: "string \<Rightarrow> string" where
  "to_lower s = map lower_char s"

lemma contains_sublist: "contains s sub \<longleftrightarrow> sublist sub s"
proof (induction s)
  case Nil
  then show ?case by simp
next
  case (Cons c s)
  then show ?case by (simp add: sublist_Cons_right)
qed

text \<open>The \<^verbatim>\<open>%d\<close> verb.\<close>

fun show_nat :: "nat \<Rightarrow> string" where
  "show_nat n = (if n < 10 then [hex_digit n] else show_nat (n div 10) @ [hex_digit (n mod 10)])"

declare show_nat.simps [simp del]

definition show_int :: "int \<Rightarrow> string" where
  "show_int i = (if i < 0 then ''-'' @ show_nat (nat (- i)) else show_nat (nat i))"

text \<open>
  Reading decimal digits, and \<^verbatim>\<open>strconv.ParseInt\<close> without its bounds.
\<close>

definition is_digit :: "char \<Rightarrow> bool" where
  "is_digit c \<longleftrightarrow> c \<in> set ''0123456789''"

definition digit_val :: "char \<Rightarrow> nat" where
  "digit_val c = of_char c - 48"

definition digits_val :: "string \<Rightarrow> nat" where
  "digits_val s = foldl (\<lambda>x c. 10 * x + digit_val c) 0 s"

lemma hex_digit_decimal:
  assumes "n < 10"
  shows "is_digit (hex_digit n)" and "digit_val (hex_digit n) = n"
proof -
  have "n = 0 \<or> n = 1 \<or> n = 2 \<or> n = 3 \<or> n = 4 \<or> n = 5 \<or> n = 6 \<or> n = 7 \<or> n = 8 \<or> n = 9"
    using assms by arith
  then show "is_digit (hex_digit n)" "digit_val (hex_digit n) = n"
    by (auto simp: hex_digit_def is_digit_def digit_val_def)
qed

lemma digits_val_snoc: "digits_val (s @ [c]) = 10 * digits_val s + digit_val c"
  by (simp add: digits_val_def)

definition parse_int :: "string \<Rightarrow> int option" where
  "parse_int s =
     (case s of
        [] \<Rightarrow> None
      | c # ds \<Rightarrow>
          if c = CHR ''-'' then (if ds \<noteq> [] \<and> list_all is_digit ds then Some (- int (digits_val ds)) else None)
          else if list_all is_digit s then Some (int (digits_val s)) else None)"

lemma show_nat_digits: "show_nat n \<noteq> [] \<and> list_all is_digit (show_nat n) \<and> digits_val (show_nat n) = n"
proof (induction n rule: show_nat.induct)
  case (1 n)
  show ?case
  proof (cases "n < 10")
    case True
    then show ?thesis
      using digits_val_snoc [of "[]" "hex_digit n"]
      by (subst (1 2 3) show_nat.simps) (simp add: hex_digit_decimal digits_val_def)
  next
    case False
    then show ?thesis using 1
      by (subst (1 2 3) show_nat.simps) (simp add: hex_digit_decimal digits_val_snoc)
  qed
qed

lemma parse_show_int: "parse_int (show_int i) = Some i"
proof (cases "i < 0")
  case True
  then show ?thesis using show_nat_digits [of "nat (- i)"] by (simp add: parse_int_def show_int_def)
next
  case False
  obtain c ds where s: "show_nat (nat i) = c # ds" using show_nat_digits [of "nat i"] by (cases "show_nat (nat i)") auto
  with show_nat_digits [of "nat i"] have "is_digit c" by simp
  then have "c \<noteq> CHR ''-''" by (auto simp: is_digit_def)
  then show ?thesis using False s show_nat_digits [of "nat i"] by (auto simp: parse_int_def show_int_def)
qed

section \<open>Maps from strings to strings\<close>

text \<open>
  Indexing a Go map: a missing key, and any key of a nil map, reads as the zero value.
\<close>

definition go_index :: "labels option \<Rightarrow> string \<Rightarrow> string" where
  "go_index m k =
     (case m of None \<Rightarrow> '''' | Some xs \<Rightarrow> (case map_of xs k of None \<Rightarrow> '''' | Some v \<Rightarrow> v))"

lemma go_index_nil [simp]: "go_index None k = ''''"
  by (simp add: go_index_def)

lemma go_index_eq_nonempty:
  "v \<noteq> '''' \<Longrightarrow> go_index (Some xs) k = v \<longleftrightarrow> map_of xs k = Some v"
  by (auto simp: go_index_def split: option.splits)

lemma map_of_filter_keys:
  "map_of (filter (\<lambda>(k, v). P k) xs) = (\<lambda>k. if P k then map_of xs k else None)"
  by (induction xs) (auto simp: fun_eq_iff)

section \<open>Durations\<close>

text \<open>
  \<^verbatim>\<open>time.Duration\<close> is an int64 count of nanoseconds. Its arithmetic wraps around, written out
  as the sign-extension of the low 64 bits.
\<close>

definition wrap64 :: "int \<Rightarrow> int" where
  "wrap64 n = (n + 2 ^ 63) mod 2 ^ 64 - 2 ^ 63"

definition Millisecond :: duration where
  "Millisecond = 1000000"

definition Second :: duration where
  "Second = 1000 * Millisecond"

lemma wrap64_id: "- (2 ^ 63) \<le> n \<Longrightarrow> n < 2 ^ 63 \<Longrightarrow> wrap64 n = n"
  by (simp add: wrap64_def)

lemma wrap64_range: "- (2 ^ 63) \<le> wrap64 n \<and> wrap64 n < 2 ^ 63"
  using pos_mod_sign [of "2 ^ 64" "n + 2 ^ 63"] pos_mod_bound [of "2 ^ 64" "n + 2 ^ 63"]
  unfolding wrap64_def by simp

lemma wrap64_mod: "wrap64 a mod 2 ^ 64 = a mod 2 ^ 64"
  by (simp add: wrap64_def mod_diff_left_eq)

lemma wrap64_cong: "a mod 2 ^ 64 = b mod 2 ^ 64 \<Longrightarrow> wrap64 a = wrap64 b"
  unfolding wrap64_def by (metis mod_add_left_eq)

lemma wrap64_mult [simp]: "wrap64 (wrap64 a * b) = wrap64 (a * b)"
  by (rule wrap64_cong) (metis mod_mult_left_eq wrap64_mod)

section \<open>Results\<close>

lemma sum_bind_cases:
  "(case r of Inl e \<Rightarrow> Inl e | Inr x \<Rightarrow> f x) = Inr y \<longleftrightarrow> (\<exists>x. r = Inr x \<and> f x = Inr y)"
  by (cases r) simp_all

end
