(* ===== verification/Api_Types.thy ===== *)
theory Api_Types
  imports Prelude
begin

text \<open>
  The API's data types, from \<^verbatim>\<open>api/v1alpha1/types.gen.go\<close>: Go string types are strings with the
  source's constants and \<^verbatim>\<open>Valid\<close> functions, structs are records with the source's fields
  (prefixed by the struct), pointer fields are options. JSON values that the code keeps opaque
  (\<^verbatim>\<open>interface{}\<close>) are \<open>json_value\<close>.
\<close>

section \<open>Enumerations\<close>

type_synonym ErrorType = string
type_synonym StorageSpecServiceType = string
type_synonym StorageStatus = string
type_synonym VolumeAccessMode = string
type_synonym VolumeMode = string

definition ALREADYEXISTS :: ErrorType where
  [consts_def]: "ALREADYEXISTS = ''ALREADY_EXISTS''"
definition FAILEDPRECONDITION :: ErrorType where
  [consts_def]: "FAILEDPRECONDITION = ''FAILED_PRECONDITION''"
definition INTERNAL :: ErrorType where
  [consts_def]: "INTERNAL = ''INTERNAL''"
definition INVALIDARGUMENT :: ErrorType where
  [consts_def]: "INVALIDARGUMENT = ''INVALID_ARGUMENT''"
definition NOTFOUND :: ErrorType where
  [consts_def]: "NOTFOUND = ''NOT_FOUND''"
definition PERMISSIONDENIED :: ErrorType where
  [consts_def]: "PERMISSIONDENIED = ''PERMISSION_DENIED''"
definition UNAUTHENTICATED :: ErrorType where
  [consts_def]: "UNAUTHENTICATED = ''UNAUTHENTICATED''"
definition UNAVAILABLE :: ErrorType where
  [consts_def]: "UNAVAILABLE = ''UNAVAILABLE''"

definition ErrorType_Valid :: "ErrorType \<Rightarrow> bool" where
  "ErrorType_Valid e \<longleftrightarrow> e \<in> set [ALREADYEXISTS, FAILEDPRECONDITION, INTERNAL, INVALIDARGUMENT,
     NOTFOUND, PERMISSIONDENIED, UNAUTHENTICATED, UNAVAILABLE]"

definition Storage :: StorageSpecServiceType where
  [consts_def]: "Storage = ''storage''"

definition StorageSpecServiceType_Valid :: "StorageSpecServiceType \<Rightarrow> bool" where
  "StorageSpecServiceType_Valid e \<longleftrightarrow> e = Storage"

definition DELETED :: StorageStatus where
  [consts_def]: "DELETED = ''DELETED''"
definition DELETING :: StorageStatus where
  [consts_def]: "DELETING = ''DELETING''"
definition FAILED :: StorageStatus where
  [consts_def]: "FAILED = ''FAILED''"
definition PROVISIONING :: StorageStatus where
  [consts_def]: "PROVISIONING = ''PROVISIONING''"
definition RUNNING :: StorageStatus where
  [consts_def]: "RUNNING = ''RUNNING''"

definition StorageStatus_Valid :: "StorageStatus \<Rightarrow> bool" where
  "StorageStatus_Valid e \<longleftrightarrow> e \<in> set [DELETED, DELETING, FAILED, PROVISIONING, RUNNING]"

definition ReadOnlyMany :: VolumeAccessMode where
  [consts_def]: "ReadOnlyMany = ''ReadOnlyMany''"
definition ReadWriteMany :: VolumeAccessMode where
  [consts_def]: "ReadWriteMany = ''ReadWriteMany''"
definition ReadWriteOnce :: VolumeAccessMode where
  [consts_def]: "ReadWriteOnce = ''ReadWriteOnce''"

definition VolumeAccessMode_Valid :: "VolumeAccessMode \<Rightarrow> bool" where
  "VolumeAccessMode_Valid e \<longleftrightarrow> e \<in> set [ReadOnlyMany, ReadWriteMany, ReadWriteOnce]"

definition Block :: VolumeMode where
  [consts_def]: "Block = ''Block''"
definition Filesystem :: VolumeMode where
  [consts_def]: "Filesystem = ''Filesystem''"

definition VolumeMode_Valid :: "VolumeMode \<Rightarrow> bool" where
  "VolumeMode_Valid e \<longleftrightarrow> e \<in> set [Block, Filesystem]"

lemma status_distinct [simp]:
  "DELETED \<noteq> DELETING" "DELETED \<noteq> FAILED" "DELETED \<noteq> PROVISIONING" "DELETED \<noteq> RUNNING"
  "DELETING \<noteq> DELETED" "DELETING \<noteq> FAILED" "DELETING \<noteq> PROVISIONING" "DELETING \<noteq> RUNNING"
  "FAILED \<noteq> DELETED" "FAILED \<noteq> DELETING" "FAILED \<noteq> PROVISIONING" "FAILED \<noteq> RUNNING"
  "PROVISIONING \<noteq> DELETED" "PROVISIONING \<noteq> DELETING" "PROVISIONING \<noteq> FAILED"
  "PROVISIONING \<noteq> RUNNING" "RUNNING \<noteq> DELETED" "RUNNING \<noteq> DELETING" "RUNNING \<noteq> FAILED"
  "RUNNING \<noteq> PROVISIONING"
  by (simp_all add: consts_def)

section \<open>Resources\<close>

datatype json_value =
    JNull
  | JBool bool
  | JNumber string
  | JString string
  | JArray "json_value list"
  | JObject "(string \<times> json_value) list"

record Error =
  err_Detail :: "string option"
  err_Instance :: "string option"
  err_Status :: "int32 option"
  err_Title :: string
  err_Type :: ErrorType

record Health =
  hl_Path :: "string option"
  hl_Status :: string
  hl_Type :: "string option"
  hl_Uptime :: "int option"
  hl_Version :: "string option"

record KubernetesProviderHints =
  kh_AccessMode :: "VolumeAccessMode option"
  kh_StorageClass :: "string option"
  kh_VolumeMode :: "VolumeMode option"

record ProviderHints =
  ph_Kubernetes :: "KubernetesProviderHints option"
  ph_AdditionalProperties :: "(string \<times> json_value) list option"

record VolumeMetadata =
  md_Labels :: "labels option"
  md_Name :: string
  md_Namespace :: "string option"
  md_StorageClass :: "string option"
  md_VolumeName :: "string option"

record StorageSpec =
  spec_Capacity :: string
  spec_Metadata :: VolumeMetadata
  spec_ProviderHints :: "ProviderHints option"
  spec_ServiceType :: StorageSpecServiceType

record Volume =
  vol_CreateTime :: "gotime option"
  vol_Id :: "string option"
  vol_Path :: "string option"
  vol_Spec :: StorageSpec
  vol_Status :: "StorageStatus option"
  vol_UpdateTime :: "gotime option"

record VolumeList =
  vl_NextPageToken :: "string option"
  vl_Volumes :: "Volume list option"

record ListVolumesParams =
  lp_MaxPageSize :: "int32 option"
  lp_PageToken :: "string option"

record CreateVolumeParams =
  cp_Id :: "string option"

text \<open>Accessors the code writes as chains of nil checks.\<close>

definition k8s_hints :: "StorageSpec \<Rightarrow> KubernetesProviderHints option" where
  "k8s_hints s = Option.bind (spec_ProviderHints s) ph_Kubernetes"

definition set_name :: "string \<Rightarrow> StorageSpec \<Rightarrow> StorageSpec" where
  "set_name n s = s\<lparr>spec_Metadata := (spec_Metadata s)\<lparr>md_Name := n\<rparr>\<rparr>"

lemma set_name_simps [simp]:
  "spec_Capacity (set_name n s) = spec_Capacity s"
  "spec_ProviderHints (set_name n s) = spec_ProviderHints s"
  "spec_ServiceType (set_name n s) = spec_ServiceType s"
  "md_Name (spec_Metadata (set_name n s)) = n"
  "md_Labels (spec_Metadata (set_name n s)) = md_Labels (spec_Metadata s)"
  "k8s_hints (set_name n s) = k8s_hints s"
  "set_name n (set_name m s) = set_name n s"
  by (simp_all add: set_name_def k8s_hints_def)

end
