(* ===== verification/Store_Errors.thy ===== *)
theory Store_Errors
  imports Api_Types
begin

text \<open>
  The package \<^verbatim>\<open>internal/store\<close>: the typed errors of the storage layer with their messages, and
  the \<^verbatim>\<open>VolumeRepository\<close> interface the handlers call. A Go interface value is a record of
  functions. \<open>'w\<close> is the state of the backing cluster, \<open>'e\<close> an error of the Kubernetes client
  that the store passes on as it is.
\<close>

datatype 'e store_error =
    NotFoundError string
  | ConflictError string
  | InvalidArgumentError string
  | FailedPreconditionError string
  | OtherError 'e

text \<open>
  \<^verbatim>\<open>Error()\<close> of the typed errors; \<open>msg\<close> is the text of an error the package does not define.
\<close>

fun store_error_Error :: "('e \<Rightarrow> string) \<Rightarrow> 'e store_error \<Rightarrow> string" where
  "store_error_Error msg (NotFoundError i) = ''volume '' @ go_quote i @ '' not found''"
| "store_error_Error msg (ConflictError m) = m"
| "store_error_Error msg (InvalidArgumentError m) = m"
| "store_error_Error msg (FailedPreconditionError m) = m"
| "store_error_Error msg (OtherError e) = msg e"

record ('w, 'e) VolumeRepository =
  repo_Create :: "StorageSpec \<Rightarrow> string \<Rightarrow> 'w \<Rightarrow> ('e store_error + Volume) \<times> 'w"
  repo_Get :: "string \<Rightarrow> 'w \<Rightarrow> 'e store_error + Volume"
  repo_List :: "int32 \<Rightarrow> string \<Rightarrow> 'w \<Rightarrow> 'e store_error + VolumeList"
  repo_Delete :: "string \<Rightarrow> 'w \<Rightarrow> 'e store_error option \<times> 'w"
  repo_CheckHealth :: "'w \<Rightarrow> 'e store_error option"

text \<open>
  The contract the handlers rely on, over an abstract view of the cluster: \<open>vols w i\<close> is the
  volume a client may read under the id \<open>i\<close>, \<open>ready w\<close> says that the cluster answers. A
  volume that is deleted either disappears or is reported as terminating.
\<close>

locale volume_repository =
  fixes R :: "('w, 'e) VolumeRepository"
    and vols :: "'w \<Rightarrow> string \<Rightarrow> Volume option"
    and ready :: "'w \<Rightarrow> bool"
  assumes get_found: "ready w \<Longrightarrow> vols w i = Some v \<Longrightarrow> repo_Get R i w = Inr v"
    and get_missing: "ready w \<Longrightarrow> vols w i = None \<Longrightarrow> repo_Get R i w = Inl (NotFoundError i)"
    and create_ok: "ready w \<Longrightarrow> repo_Create R s i w = (Inr v, w') \<Longrightarrow>
      ready w' \<and> vols w i = None \<and> vols w' = (vols w)(i := Some v) \<and> vol_Id v = Some i"
    and create_err: "ready w \<Longrightarrow> repo_Create R s i w = (Inl e, w') \<Longrightarrow>
      ready w' \<and> vols w' = vols w"
    and delete_missing: "ready w \<Longrightarrow> vols w i = None \<Longrightarrow>
      repo_Delete R i w = (Some (NotFoundError i), w)"
    and delete_found: "ready w \<Longrightarrow> vols w i = Some v \<Longrightarrow>
      \<exists>w' x. repo_Delete R i w = (None, w') \<and> ready w' \<and> vols w' = (vols w)(i := x) \<and>
        (\<forall>v'. x = Some v' \<longrightarrow> vol_Status v' = Some DELETING)"
begin

lemma get_cases:
  assumes "ready w"
  obtains v where "vols w i = Some v" and "repo_Get R i w = Inr v"
  | "vols w i = None" and "repo_Get R i w = Inl (NotFoundError i)"
  using assms get_found get_missing by (cases "vols w i") auto

lemma create_then_get:
  assumes "ready w" and "repo_Create R s i w = (Inr v, w')"
  shows "repo_Get R i w' = Inr v"
  using create_ok [OF assms] by (auto intro: get_found)

lemma create_frame:
  assumes "ready w" and "repo_Create R s i w = (r, w')" and "j \<noteq> i"
  shows "repo_Get R j w' = repo_Get R j w"
proof -
  have "ready w' \<and> vols w' j = vols w j"
    using assms create_ok [of w s i _ w'] create_err [of w s i _ w'] by (cases r) auto
  then show ?thesis
    using assms(1) get_found get_missing by (cases "vols w j") auto
qed

lemma create_twice:
  assumes "ready w" and "repo_Create R s i w = (Inr v, w')"
  shows "\<exists>e. fst (repo_Create R s' i w') = Inl e"
proof (cases "repo_Create R s' i w'")
  case (Pair r w'')
  then show ?thesis
    using create_ok [OF assms] create_ok [of w' s' i _ w''] by (cases r) auto
qed

lemma delete_then_get:
  assumes "ready w" and "vols w i = Some v"
  obtains w' where "repo_Delete R i w = (None, w')"
    and "repo_Get R i w' = Inl (NotFoundError i) \<or>
      (\<exists>v'. repo_Get R i w' = Inr v' \<and> vol_Status v' = Some DELETING)"
    and "\<And>j. j \<noteq> i \<Longrightarrow> repo_Get R j w' = repo_Get R j w"
proof -
  from delete_found [OF assms] obtain w' x where
    d: "repo_Delete R i w = (None, w')" and r: "ready w'" and v: "vols w' = (vols w)(i := x)"
    and x: "\<forall>v'. x = Some v' \<longrightarrow> vol_Status v' = Some DELETING"
    by blast
  have "repo_Get R i w' = Inl (NotFoundError i) \<or>
      (\<exists>v'. repo_Get R i w' = Inr v' \<and> vol_Status v' = Some DELETING)"
    using r v x get_found [of w' i] get_missing [of w' i] by (cases x) auto
  moreover have "repo_Get R j w' = repo_Get R j w" if "j \<noteq> i" for j
  proof -
    have "vols w' j = vols w j" using that v by simp
    then show ?thesis using r assms(1) get_found get_missing by (cases "vols w j") auto
  qed
  ultimately show thesis using d that by blast
qed

end

end
