(* ===== verification/Kube_Types.thy ===== *)
theory Kube_Types
  imports Api_Types
begin

text \<open>
  The Kubernetes side of the program that is not in the repository: the PVC object as the code
  reads and writes it, and the third-party functions the code calls, which are parameters
  (fields of the records \<open>klib\<close> and \<open>kube\<close>). \<open>'q\<close> is the type of resource quantities, \<open>'e\<close> that
  of client errors, \<open>'w\<close> the state of the cluster.
\<close>

section \<open>PersistentVolumeClaims\<close>

record pvc_condition =
  cond_Type :: string
  cond_Status :: string
  cond_LastTransitionTime :: gotime

record 'q pvc =
  pvc_Name :: string
  pvc_Namespace :: string
  pvc_Labels :: "labels option"
  pvc_CreationTimestamp :: gotime
  pvc_DeletionTimestamp :: "gotime option"
  pvc_AccessModes :: "string list"
  pvc_StorageRequest :: "'q option"
  pvc_StorageClassName :: "string option"
  pvc_VolumeMode :: "string option"
  pvc_VolumeName :: string
  pvc_Phase :: string
  pvc_Conditions :: "pvc_condition list"

text \<open>The constants of \<^verbatim>\<open>k8s.io/api/core/v1\<close> the code compares with (documented API values).\<close>

abbreviation ClaimPending :: string where "ClaimPending \<equiv> ''Pending''"
abbreviation ClaimBound :: string where "ClaimBound \<equiv> ''Bound''"
abbreviation ClaimLost :: string where "ClaimLost \<equiv> ''Lost''"
abbreviation ConditionTrue :: string where "ConditionTrue \<equiv> ''True''"
abbreviation PVC_Resizing :: string where "PVC_Resizing \<equiv> ''Resizing''"
abbreviation PVC_FSResizePending :: string where "PVC_FSResizePending \<equiv> ''FileSystemResizePending''"

section \<open>Library functions\<close>

record 'q klib =
  labels_Merge :: "labels \<Rightarrow> labels \<Rightarrow> labels"
  labels_Set_String :: "labels \<Rightarrow> string"
  ParseQuantity :: "string \<Rightarrow> string + 'q"
  Quantity_String :: "'q \<Rightarrow> string"
  ResourceList_Storage :: "'q option \<Rightarrow> 'q"

text \<open>
  What their documentation says of them: \<^verbatim>\<open>labels.Merge\<close> lets the second map win, \<^verbatim>\<open>Storage\<close>
  returns the entry of the resource list, and a quantity parses back from its canonical form.
\<close>

locale apimachinery =
  fixes L :: "'q klib"
  assumes merge: "map_of (labels_Merge L a b) = map_of a ++ map_of b"
    and storage: "ResourceList_Storage L (Some q) = q"
    and reparse: "ParseQuantity L s = Inr q \<Longrightarrow> ParseQuantity L (Quantity_String L q) = Inr q"

section \<open>The API client\<close>

record list_options =
  lo_LabelSelector :: string
  lo_Limit :: int
  lo_Continue :: string

record 'q pvc_list =
  pl_Items :: "'q pvc list"
  pl_Continue :: string

text \<open>
  One call of the client is one step on the state of the cluster. \<open>Interleave\<close> is what other
  clients and controllers do between two successive calls of one store operation.
\<close>

record ('w, 'e, 'q) kube =
  PVC_Get :: "string \<Rightarrow> string \<Rightarrow> 'w \<Rightarrow> 'e + 'q pvc"
  PVC_Create :: "string \<Rightarrow> 'q pvc \<Rightarrow> 'w \<Rightarrow> ('e + 'q pvc) \<times> 'w"
  PVC_Delete :: "string \<Rightarrow> string \<Rightarrow> 'w \<Rightarrow> 'e option \<times> 'w"
  PVC_List :: "string \<Rightarrow> list_options \<Rightarrow> 'w \<Rightarrow> 'e + 'q pvc_list"
  StorageClass_Get :: "string \<Rightarrow> 'w \<Rightarrow> 'e option"
  ServerVersion :: "'w \<Rightarrow> 'e option"
  IsNotFound :: "'e \<Rightarrow> bool"
  IsAlreadyExists :: "'e \<Rightarrow> bool"
  AsAPIStatus :: "'e \<Rightarrow> (int \<times> string) option"
  Interleave :: "'w \<Rightarrow> 'w"

text \<open>
  An object the API server stores for a create request keeps what the request fixed, and is not
  being deleted. Defaults the server adds (a storage class, a volume mode, timestamps, the phase) are left open.
\<close>

definition persisted :: "string \<Rightarrow> 'q pvc \<Rightarrow> 'q pvc \<Rightarrow> bool" where
  "persisted ns p p' \<longleftrightarrow>
     pvc_Name p' = pvc_Name p \<and> pvc_Namespace p' = ns \<and>
     pvc_Labels p' = pvc_Labels p \<and>
     (pvc_DeletionTimestamp p = None \<longrightarrow> pvc_DeletionTimestamp p' = None) \<and>
     pvc_AccessModes p' = pvc_AccessModes p \<and>
     pvc_StorageRequest p' = pvc_StorageRequest p \<and>
     (pvc_StorageClassName p \<noteq> None \<longrightarrow> pvc_StorageClassName p' = pvc_StorageClassName p) \<and>
     (pvc_VolumeMode p \<noteq> None \<longrightarrow> pvc_VolumeMode p' = pvc_VolumeMode p)"

text \<open>
  The documented behaviour of the API server that the store relies on. \<open>objs w ns n\<close> is the PVC
  stored under a namespace and a name, \<open>classes w\<close> the storage classes, \<open>up w\<close> says that the
  server is reachable and authorises the calls.
\<close>

locale kube_api =
  fixes K :: "('w, 'e, 'q) kube"
    and objs :: "'w \<Rightarrow> string \<Rightarrow> string \<Rightarrow> 'q pvc option"
    and classes :: "'w \<Rightarrow> string set"
    and up :: "'w \<Rightarrow> bool"
  assumes get_present: "up w \<Longrightarrow> objs w ns n = Some p \<Longrightarrow> PVC_Get K ns n w = Inr p"
    and get_absent: "up w \<Longrightarrow> objs w ns n = None \<Longrightarrow>
      \<exists>e. PVC_Get K ns n w = Inl e \<and> IsNotFound K e"
    and stored_key: "objs w ns n = Some p \<Longrightarrow> pvc_Name p = n \<and> pvc_Namespace p = ns"
    and create_taken: "up w \<Longrightarrow> objs w ns (pvc_Name p) = Some q \<Longrightarrow>
      \<exists>e. PVC_Create K ns p w = (Inl e, w) \<and> IsAlreadyExists K e"
    and create_done: "up w \<Longrightarrow> PVC_Create K ns p w = (Inr p', w') \<Longrightarrow>
      up w' \<and> classes w' = classes w \<and> persisted ns p p' \<and>
      objs w' = (objs w)(ns := (objs w ns)(pvc_Name p := Some p'))"
    and create_failed: "up w \<Longrightarrow> PVC_Create K ns p w = (Inl e, w') \<Longrightarrow>
      up w' \<and> classes w' = classes w \<and> objs w' = objs w"
    and delete_absent: "up w \<Longrightarrow> objs w ns n = None \<Longrightarrow>
      \<exists>e. PVC_Delete K ns n w = (Some e, w) \<and> IsNotFound K e"
    and delete_present: "up w \<Longrightarrow> objs w ns n = Some p \<Longrightarrow>
      \<exists>w' x. PVC_Delete K ns n w = (None, w') \<and> up w' \<and> classes w' = classes w \<and>
        objs w' = (objs w)(ns := (objs w ns)(n := x)) \<and>
        (\<forall>p'. x = Some p' \<longrightarrow> pvc_DeletionTimestamp p' \<noteq> None)"
    and class_present: "up w \<Longrightarrow> c \<in> classes w \<Longrightarrow> StorageClass_Get K c w = None"
    and class_absent: "up w \<Longrightarrow> c \<notin> classes w \<Longrightarrow>
      \<exists>e. StorageClass_Get K c w = Some e \<and> IsNotFound K e"
    and version: "ServerVersion K w = None \<longleftrightarrow> up w"

text \<open>A cluster nobody else touches between two calls of one operation.\<close>

locale quiet_kube_api = kube_api +
  assumes quiet: "Interleave K w = w"

end
