(* ===== verification/Dcm_Labels.thy ===== *)
theory Dcm_Labels
  imports Kube_Types
begin

text \<open>
  The DCM labels (\<^verbatim>\<open>internal/dcm/labels.go\<close>, \<^verbatim>\<open>internal/kubernetes/labels.go\<close>,
  \<^verbatim>\<open>internal/monitoring/indexer.go\<close>): the reserved keys, the label map and selectors of an
  instance, and the test whether a PVC is a managed volume of a given id.
\<close>

definition LabelManagedBy :: string where
  [consts_def]: "LabelManagedBy = ''dcm.project/managed-by''"
definition LabelInstanceID :: string where
  [consts_def]: "LabelInstanceID = ''dcm.project/dcm-instance-id''"
definition LabelServiceType :: string where
  [consts_def]: "LabelServiceType = ''dcm.project/dcm-service-type''"
definition ValueManagedByDCM :: string where
  [consts_def]: "ValueManagedByDCM = ''dcm''"
definition ValueServiceType :: string where
  [consts_def]: "ValueServiceType = ''storage''"

definition ReservedLabelKeys :: "string \<Rightarrow> bool" where
  "ReservedLabelKeys k \<longleftrightarrow> k \<in> set [LabelManagedBy, LabelInstanceID, LabelServiceType]"

definition Labels :: "string \<Rightarrow> labels" where
  "Labels instanceID =
     [(LabelManagedBy, ValueManagedByDCM),
      (LabelInstanceID, instanceID),
      (LabelServiceType, ValueServiceType)]"

definition InstanceSelector :: "'q klib \<Rightarrow> string \<Rightarrow> string" where
  "InstanceSelector L instanceID = labels_Set_String L
     [(LabelInstanceID, instanceID),
      (LabelManagedBy, ValueManagedByDCM),
      (LabelServiceType, ValueServiceType)]"

definition Selector :: "'q klib \<Rightarrow> string" where
  "Selector L = labels_Set_String L
     [(LabelManagedBy, ValueManagedByDCM),
      (LabelServiceType, ValueServiceType)]"

definition isDCMManagedPVC :: "'q pvc option \<Rightarrow> string \<Rightarrow> bool" where
  "isDCMManagedPVC pvc volumeID =
     (case pvc of None \<Rightarrow> False
      | Some p \<Rightarrow>
          (if pvc_Labels p = None then False
           else go_index (pvc_Labels p) LabelManagedBy = ValueManagedByDCM \<and>
                go_index (pvc_Labels p) LabelServiceType = ValueServiceType \<and>
                go_index (pvc_Labels p) LabelInstanceID = volumeID))"

definition mergeLabels :: "'q klib \<Rightarrow> labels \<Rightarrow> labels \<Rightarrow> labels" where
  "mergeLabels L base user = labels_Merge L user base"

definition ExtractInstanceID :: "labels option \<Rightarrow> string" where
  "ExtractInstanceID ls = go_index ls LabelInstanceID"

lemma label_keys_distinct [simp]:
  "LabelManagedBy \<noteq> LabelInstanceID" "LabelManagedBy \<noteq> LabelServiceType"
  "LabelInstanceID \<noteq> LabelServiceType" "LabelInstanceID \<noteq> LabelManagedBy"
  "LabelServiceType \<noteq> LabelManagedBy" "LabelServiceType \<noteq> LabelInstanceID"
  by (simp_all add: consts_def)

lemma label_values_nonempty [simp]: "ValueManagedByDCM \<noteq> ''''" "ValueServiceType \<noteq> ''''"
  by (simp_all add: consts_def)

lemma reserved_keys_iff:
  "ReservedLabelKeys k \<longleftrightarrow> k = LabelManagedBy \<or> k = LabelInstanceID \<or> k = LabelServiceType"
  by (simp add: ReservedLabelKeys_def)

lemma map_of_Labels: "map_of (Labels i) k \<noteq> None \<longleftrightarrow> ReservedLabelKeys k"
  by (auto simp: Labels_def reserved_keys_iff)

lemma isDCMManagedPVC_iff:
  "isDCMManagedPVC (Some p) i \<longleftrightarrow>
     (\<exists>ls. pvc_Labels p = Some ls \<and>
       map_of ls LabelManagedBy = Some ValueManagedByDCM \<and>
       map_of ls LabelServiceType = Some ValueServiceType \<and>
       go_index (Some ls) LabelInstanceID = i)"
  by (cases "pvc_Labels p") (auto simp: isDCMManagedPVC_def go_index_eq_nonempty)

lemma isDCMManagedPVC_unique:
  "isDCMManagedPVC (Some p) i \<Longrightarrow> isDCMManagedPVC (Some p) j \<Longrightarrow> i = j"
  by (auto simp: isDCMManagedPVC_iff)

context apimachinery
begin

lemma mergeLabels_lookup:
  "map_of (mergeLabels L base user) = map_of user ++ map_of base"
  by (simp add: mergeLabels_def merge)

lemma merged_managed:
  "pvc_Labels p = Some (mergeLabels L (Labels i) user) \<Longrightarrow> isDCMManagedPVC (Some p) i"
  by (simp add: isDCMManagedPVC_iff mergeLabels_lookup Labels_def map_add_def go_index_def)

end

lemma plain_managed: "pvc_Labels p = Some (Labels i) \<Longrightarrow> isDCMManagedPVC (Some p) i"
  by (simp add: isDCMManagedPVC_iff Labels_def go_index_def)

end
