(* ===== verification/Convert.thy ===== *)
theory Convert
  imports Store_Errors Dcm_Labels
begin

text \<open>
  The conversion layer \<^verbatim>\<open>internal/kubernetes/convert.go\<close>: a PVC's DCM status, the volume a PVC
  is reported as, and the PVC a storage specification asks for, with the resolution of access
  mode, storage class and volume mode.
\<close>

section \<open>Configuration of the store\<close>

record K8sConfig =
  kc_Namespace :: string
  kc_DefaultStorageClass :: string
  kc_DefaultAccessMode :: string

section \<open>Status of a PVC\<close>

fun pvcResizeStatus :: "pvc_condition list \<Rightarrow> bool \<times> string" where
  "pvcResizeStatus [] = (False, '''')"
| "pvcResizeStatus (c # cs) =
     (if cond_Status c \<noteq> ConditionTrue then pvcResizeStatus cs
      else if cond_Type c = PVC_Resizing then (True, ''volume expansion in progress'')
      else if cond_Type c = PVC_FSResizePending then (True, ''filesystem resize pending'')
      else pvcResizeStatus cs)"

definition MapPVCToStatus :: "'q pvc option \<Rightarrow> StorageStatus \<times> string" where
  "MapPVCToStatus pvc =
     (case pvc of
        None \<Rightarrow> (DELETED, ''resource no longer exists'')
      | Some p \<Rightarrow>
          if pvc_DeletionTimestamp p \<noteq> None then (DELETING, ''PVC is terminating'')
          else if pvc_Phase p = ClaimPending then (PROVISIONING, ''PVC is pending binding'')
          else if pvc_Phase p = ClaimLost then (FAILED, ''PVC is lost'')
          else if pvc_Phase p = ClaimBound then
            (case pvcResizeStatus (pvc_Conditions p) of
               (True, msg) \<Rightarrow> (PROVISIONING, msg)
             | (False, _) \<Rightarrow>
                 (RUNNING,
                  if pvc_VolumeName p \<noteq> '''' then ''PVC is bound to volume '' @ pvc_VolumeName p
                  else ''PVC is bound''))
          else (PROVISIONING, pvc_Phase p))"

text \<open>The status table of the specification, read off the object.\<close>

definition active_resize :: "'q pvc \<Rightarrow> bool" where
  "active_resize p \<longleftrightarrow> (\<exists>c \<in> set (pvc_Conditions p). cond_Status c = ConditionTrue \<and>
     (cond_Type c = PVC_Resizing \<or> cond_Type c = PVC_FSResizePending))"

lemma pvcResizeStatus_iff:
  "fst (pvcResizeStatus cs) \<longleftrightarrow> (\<exists>c \<in> set cs. cond_Status c = ConditionTrue \<and>
     (cond_Type c = PVC_Resizing \<or> cond_Type c = PVC_FSResizePending))"
  by (induction cs) auto

lemma MapPVCToStatus_fst:
  "fst (MapPVCToStatus (Some p)) =
     (if pvc_DeletionTimestamp p \<noteq> None then DELETING
      else if pvc_Phase p = ClaimLost then FAILED
      else if pvc_Phase p = ClaimBound \<and> \<not> active_resize p then RUNNING
      else PROVISIONING)"
  using pvcResizeStatus_iff [of "pvc_Conditions p"]
  by (cases "pvcResizeStatus (pvc_Conditions p)")
    (auto simp: MapPVCToStatus_def active_resize_def split: bool.splits)

section \<open>From a PVC to a volume\<close>

definition storageClassFromPVC :: "'q pvc \<Rightarrow> string" where
  "storageClassFromPVC pvc = (case pvc_StorageClassName pvc of Some sc \<Rightarrow> sc | None \<Rightarrow> '''')"

definition providerHintsFromPVC :: "'q pvc \<Rightarrow> ProviderHints option" where
  "providerHintsFromPVC pvc =
     (let sc = storageClassFromPVC pvc;
          hint_sc = (if sc \<noteq> '''' then Some sc else None);
          hint_vm = pvc_VolumeMode pvc;
          hint_am = (if length (pvc_AccessModes pvc) > 0 then Some (pvc_AccessModes pvc ! 0) else None);
          hasHints = (sc \<noteq> '''' \<or> pvc_VolumeMode pvc \<noteq> None \<or> length (pvc_AccessModes pvc) > 0)
      in if \<not> hasHints then None
         else Some \<lparr>ph_Kubernetes = Some \<lparr>kh_AccessMode = hint_am, kh_StorageClass = hint_sc,
                                         kh_VolumeMode = hint_vm\<rparr>,
                    ph_AdditionalProperties = None\<rparr>)"

definition userLabelsFromPVC :: "'q pvc \<Rightarrow> labels" where
  "userLabelsFromPVC pvc =
     (case pvc_Labels pvc of None \<Rightarrow> []
      | Some ls \<Rightarrow> filter (\<lambda>(k, v). \<not> ReservedLabelKeys k) ls)"

definition later :: "gotime option \<Rightarrow> gotime \<Rightarrow> gotime option" where
  "later latest t =
     (if t = 0 then latest
      else (case latest of None \<Rightarrow> Some t | Some l \<Rightarrow> if t > l then Some t else latest))"

definition latestPVCConditionTime :: "'q pvc \<Rightarrow> gotime option" where
  "latestPVCConditionTime pvc =
     foldl later None (map cond_LastTransitionTime (pvc_Conditions pvc))"

definition volumeFromPVC :: "'q klib \<Rightarrow> 'q pvc \<Rightarrow> string \<Rightarrow> Volume" where
  "volumeFromPVC L pvc instanceID =
     (let createTime = pvc_CreationTimestamp pvc;
          updateTime = (case latestPVCConditionTime pvc of Some t \<Rightarrow> t | None \<Rightarrow> createTime);
          capacity = Quantity_String L (ResourceList_Storage L (pvc_StorageRequest pvc));
          sc = storageClassFromPVC pvc;
          userLabels = userLabelsFromPVC pvc
      in \<lparr>vol_CreateTime = Some createTime,
          vol_Id = Some instanceID,
          vol_Path = Some (''volumes/'' @ instanceID),
          vol_Spec =
            \<lparr>spec_Capacity = capacity,
             spec_Metadata =
               \<lparr>md_Labels = (if length userLabels > 0 then Some userLabels else None),
                md_Name = pvc_Name pvc,
                md_Namespace = Some (pvc_Namespace pvc),
                md_StorageClass = (if sc \<noteq> '''' then Some sc else None),
                md_VolumeName = (if pvc_VolumeName pvc \<noteq> '''' then Some (pvc_VolumeName pvc) else None)\<rparr>,
             spec_ProviderHints = providerHintsFromPVC pvc,
             spec_ServiceType = Storage\<rparr>,
          vol_Status = Some (fst (MapPVCToStatus (Some pvc))),
          vol_UpdateTime = Some updateTime\<rparr>)"

section \<open>From a specification to a PVC\<close>

definition resolveVolumeMode :: "VolumeMode \<Rightarrow> 'e store_error + string" where
  "resolveVolumeMode vm =
     (if vm = ''Filesystem'' \<or> vm = ''Block'' then Inr vm
      else Inl (InvalidArgumentError (''unsupported volume mode '' @ go_quote vm)))"

definition resolveAccessMode :: "StorageSpec \<Rightarrow> string \<Rightarrow> 'e store_error + string" where
  "resolveAccessMode spec defaultMode =
     (case Option.bind (k8s_hints spec) kh_AccessMode of
        Some mode \<Rightarrow>
          if mode = ''ReadWriteOnce'' \<or> mode = ''ReadOnlyMany'' \<or> mode = ''ReadWriteMany'' then Inr mode
          else Inl (InvalidArgumentError (''unsupported access mode '' @ go_quote mode))
      | None \<Rightarrow>
          if defaultMode \<noteq> '''' then
            (if defaultMode = ''ReadWriteOnce'' \<or> defaultMode = ''ReadOnlyMany'' \<or>
                defaultMode = ''ReadWriteMany'' then Inr defaultMode
             else Inl (InvalidArgumentError
                    (''unsupported default access mode '' @ go_quote defaultMode)))
          else Inr ''ReadWriteOnce'')"

definition resolveStorageClass :: "StorageSpec \<Rightarrow> string \<Rightarrow> string" where
  "resolveStorageClass spec defaultClass =
     (case Option.bind (k8s_hints spec) kh_StorageClass of
        Some sc \<Rightarrow> sc
      | None \<Rightarrow> defaultClass)"

definition buildPVC ::
  "'q klib \<Rightarrow> StorageSpec \<Rightarrow> K8sConfig \<Rightarrow> labels \<Rightarrow> 'e store_error + 'q pvc" where
  "buildPVC L spec cfg labels =
     (case ParseQuantity L (spec_Capacity spec) of
        Inl err \<Rightarrow> Inl (InvalidArgumentError
          (''invalid capacity '' @ go_quote (spec_Capacity spec) @ '': '' @ err))
      | Inr qty \<Rightarrow>
     (case resolveAccessMode spec (kc_DefaultAccessMode cfg) of
        Inl err \<Rightarrow> Inl err
      | Inr accessMode \<Rightarrow>
          (let storageClass = resolveStorageClass spec (kc_DefaultStorageClass cfg);
               pvc = \<lparr>pvc_Name = md_Name (spec_Metadata spec),
                      pvc_Namespace = kc_Namespace cfg,
                      pvc_Labels = Some labels,
                      pvc_CreationTimestamp = 0,
                      pvc_DeletionTimestamp = None,
                      pvc_AccessModes = [accessMode],
                      pvc_StorageRequest = Some qty,
                      pvc_StorageClassName = (if storageClass \<noteq> '''' then Some storageClass else None),
                      pvc_VolumeMode = None,
                      pvc_VolumeName = '''',
                      pvc_Phase = '''',
                      pvc_Conditions = []\<rparr>
           in case Option.bind (k8s_hints spec) kh_VolumeMode of
                None \<Rightarrow> Inr pvc
              | Some vm \<Rightarrow>
                  (case resolveVolumeMode vm of
                     Inl err \<Rightarrow> Inl err
                   | Inr mode \<Rightarrow> Inr (pvc\<lparr>pvc_VolumeMode := Some mode\<rparr>)))))"

section \<open>Facts about the resolution functions\<close>

abbreviation supported_mode :: "string \<Rightarrow> bool" where
  "supported_mode m \<equiv> VolumeAccessMode_Valid m"

lemma supported_mode_iff:
  "supported_mode m \<longleftrightarrow> m = ''ReadWriteOnce'' \<or> m = ''ReadOnlyMany'' \<or> m = ''ReadWriteMany''"
  by (auto simp: VolumeAccessMode_Valid_def consts_def)

lemma resolveAccessMode_Inr:
  "resolveAccessMode s d = Inr m \<Longrightarrow> supported_mode m"
  by (auto simp: resolveAccessMode_def supported_mode_iff split: option.splits if_splits)

lemma resolveAccessMode_Inl:
  "resolveAccessMode s d = Inl e \<Longrightarrow> \<exists>m. e = InvalidArgumentError m"
  by (auto simp: resolveAccessMode_def split: option.splits if_splits)

lemma resolveVolumeMode_Inr: "resolveVolumeMode v = Inr m \<longleftrightarrow> m = v \<and> VolumeMode_Valid v"
  by (auto simp: resolveVolumeMode_def VolumeMode_Valid_def consts_def)

lemma resolve_set_name [simp]:
  "resolveAccessMode (set_name n s) d = resolveAccessMode s d"
  "resolveStorageClass (set_name n s) c = resolveStorageClass s c"
  by (simp_all add: resolveAccessMode_def resolveStorageClass_def)

lemma buildPVC_Inl: "buildPVC L s cfg ls = Inl e \<Longrightarrow> \<exists>m. e = InvalidArgumentError m"
  by (auto simp: buildPVC_def resolveVolumeMode_def Let_def dest: resolveAccessMode_Inl
      split: sum.splits option.splits if_splits)

text \<open>What a PVC that \<^verbatim>\<open>buildPVC\<close> returns carries.\<close>

lemma buildPVC_Inr:
  assumes "buildPVC L s cfg ls = (Inr p :: 'e store_error + 'q pvc)"
  shows "pvc_Name p = md_Name (spec_Metadata s)" and "pvc_Namespace p = kc_Namespace cfg"
    and "pvc_Labels p = Some ls" and "pvc_DeletionTimestamp p = None"
    and "\<exists>q. ParseQuantity L (spec_Capacity s) = Inr q \<and> pvc_StorageRequest p = Some q"
    and "\<exists>m. resolveAccessMode s (kc_DefaultAccessMode cfg) = (Inr m :: 'e store_error + string) \<and>
           pvc_AccessModes p = [m]"
    and "pvc_StorageClassName p =
           (let c = resolveStorageClass s (kc_DefaultStorageClass cfg)
            in if c = '''' then None else Some c)"
    and "pvc_VolumeMode p = Option.bind (k8s_hints s) kh_VolumeMode"
  using assms
  by (auto simp: buildPVC_def Let_def resolveVolumeMode_Inr
      split: sum.splits option.splits if_splits)

section \<open>Facts about the report of a PVC\<close>

lemma later_foldl_Some:
  "foldl later (Some l) ts = Some (Max (insert l (set ts - {0})))" if "l \<noteq> 0"
  using that
proof (induction ts arbitrary: l)
  case Nil
  then show ?case by simp
next
  case (Cons t ts)
  show ?case
  proof (cases "t = 0 \<or> t \<le> l")
    case True
    have "Max (insert l (set (t # ts) - {0})) = Max (insert l (set ts - {0}))"
    proof (cases "t = 0")
      case False
      with True have "t \<le> l" by simp
      have "insert l (set (t # ts) - {0}) = insert t (insert l (set ts - {0}))"
        using False by auto
      also have "Max \<dots> = max t (Max (insert l (set ts - {0})))" by (rule Max_insert) auto
      also have "\<dots> = Max (insert l (set ts - {0}))"
        using \<open>t \<le> l\<close> by (intro max_absorb2) (meson Max_ge finite_Diff finite_insert finite_set insertI1 order_trans)
      finally show ?thesis .
    qed simp
    moreover have "later (Some l) t = Some l" using True by (auto simp: later_def)
    ultimately show ?thesis using Cons by simp
  next
    case False
    then have l: "later (Some l) t = Some t" and "t \<noteq> 0" by (simp_all add: later_def)
    have "Max (insert l (set (t # ts) - {0})) = Max (insert l (insert t (set ts - {0})))"
      using \<open>t \<noteq> 0\<close> by (simp add: insert_Diff_if)
    also have "\<dots> = max l (Max (insert t (set ts - {0})))" by (rule Max_insert) auto
    also have "\<dots> = Max (insert t (set ts - {0}))"
      using False by (intro max_absorb2) (meson Max_ge finite_Diff finite_insert finite_set insertI1 linorder_not_le order_trans less_imp_le)
    finally show ?thesis using Cons.IH [OF \<open>t \<noteq> 0\<close>] l by simp
  qed
qed

lemma later_foldl_None:
  "foldl later None ts = (if set ts - {0} = {} then None else Some (Max (set ts - {0})))"
proof (induction ts)
  case Nil
  then show ?case by simp
next
  case (Cons t ts)
  show ?case
  proof (cases "t = 0")
    case True
    then show ?thesis using Cons by (simp add: later_def)
  next
    case False
    then have "foldl later None (t # ts) = Some (Max (insert t (set ts - {0})))"
      using later_foldl_Some [of t ts] by (simp add: later_def)
    then show ?thesis using False by (simp add: insert_Diff_if)
  qed
qed

lemma map_of_userLabels:
  "map_of (userLabelsFromPVC p) k =
     (if ReservedLabelKeys k then None
      else Option.bind (pvc_Labels p) (\<lambda>ls. map_of ls k))"
  by (auto simp: userLabelsFromPVC_def map_of_filter_keys [where P = "\<lambda>k. \<not> ReservedLabelKeys k"]
      split: option.splits)

text \<open>The fields of a reported volume that come from the object's specification.\<close>

abbreviation spec_label :: "StorageSpec \<Rightarrow> string \<Rightarrow> string option" where
  "spec_label s k \<equiv> Option.bind (md_Labels (spec_Metadata s)) (\<lambda>ls. map_of ls k)"

lemma volumeFromPVC_spec:
  "spec_Capacity (vol_Spec (volumeFromPVC L p i)) =
     Quantity_String L (ResourceList_Storage L (pvc_StorageRequest p))"
  "Option.bind (k8s_hints (vol_Spec (volumeFromPVC L p i))) kh_AccessMode =
     (case pvc_AccessModes p of [] \<Rightarrow> None | m # _ \<Rightarrow> Some m)"
  "Option.bind (k8s_hints (vol_Spec (volumeFromPVC L p i))) kh_StorageClass =
     (if storageClassFromPVC p = '''' then None else Some (storageClassFromPVC p))"
  "Option.bind (k8s_hints (vol_Spec (volumeFromPVC L p i))) kh_VolumeMode = pvc_VolumeMode p"
  "spec_label (vol_Spec (volumeFromPVC L p i)) k =
     (if ReservedLabelKeys k then None else Option.bind (pvc_Labels p) (\<lambda>ls. map_of ls k))"
  by (auto simp: volumeFromPVC_def providerHintsFromPVC_def k8s_hints_def Let_def map_of_userLabels [symmetric]
      split: list.splits)

text \<open>The access mode a specification gets: the requested one, else the configured one, else the default.\<close>

definition wanted_mode :: "StorageSpec \<Rightarrow> K8sConfig \<Rightarrow> string" where
  "wanted_mode s cfg =
     (case Option.bind (k8s_hints s) kh_AccessMode of
        Some m \<Rightarrow> m
      | None \<Rightarrow> if kc_DefaultAccessMode cfg = '''' then ''ReadWriteOnce'' else kc_DefaultAccessMode cfg)"

lemma resolveAccessMode_wanted:
  "resolveAccessMode s (kc_DefaultAccessMode cfg) = Inr m \<longleftrightarrow>
     supported_mode (wanted_mode s cfg) \<and> m = wanted_mode s cfg"
  by (auto simp: resolveAccessMode_def wanted_mode_def supported_mode_iff split: option.splits)

text \<open>\<^verbatim>\<open>buildPVC\<close> succeeds exactly on a parsable capacity and supported modes.\<close>

lemma buildPVC_succeeds:
  fixes L :: "'q klib"
  shows "(\<exists>p. buildPVC L s cfg ls = (Inr p :: 'e store_error + 'q pvc)) \<longleftrightarrow>
     (\<exists>q. ParseQuantity L (spec_Capacity s) = Inr q) \<and> supported_mode (wanted_mode s cfg) \<and>
     (\<forall>vm. Option.bind (k8s_hints s) kh_VolumeMode = Some vm \<longrightarrow> VolumeMode_Valid vm)"
proof (cases "ParseQuantity L (spec_Capacity s)")
  case (Inl e)
  then show ?thesis by (simp add: buildPVC_def)
next
  case (Inr q)
  show ?thesis
  proof (cases "resolveAccessMode s (kc_DefaultAccessMode cfg) :: 'e store_error + string")
    case (Inl e)
    have "\<not> supported_mode (wanted_mode s cfg)"
    proof
      assume "supported_mode (wanted_mode s cfg)"
      then have "resolveAccessMode s (kc_DefaultAccessMode cfg) =
          (Inr (wanted_mode s cfg) :: 'e store_error + string)" by (simp add: resolveAccessMode_wanted)
      with Inl show False by simp
    qed
    with Inl Inr show ?thesis by (simp add: buildPVC_def)
  next
    case r: (Inr m)
    then have "supported_mode (wanted_mode s cfg)" by (simp add: resolveAccessMode_wanted)
    then show ?thesis using Inr r
      by (auto simp: buildPVC_def Let_def resolveVolumeMode_Inr
          VolumeMode_Valid_def resolveVolumeMode_def consts_def split: option.splits sum.splits if_splits)
  qed
qed

end
