(* ===== verification/K8s_Store.thy ===== *)
theory K8s_Store
  imports Convert
begin

text \<open>
  The Kubernetes-backed store: \<^verbatim>\<open>store.go\<close>, \<^verbatim>\<open>store_create.go\<close>, \<^verbatim>\<open>store_get.go\<close>,
  \<^verbatim>\<open>store_list.go\<close> and \<^verbatim>\<open>store_delete.go\<close> of \<^verbatim>\<open>internal/kubernetes\<close>. Every operation threads the
  state of the cluster through the client calls it makes, in the order it makes them. The
  request context and the logger are left out: a cancelled context is a client error.
\<close>

section \<open>Operations\<close>

definition CheckHealth :: "('w, 'e, 'q) kube \<Rightarrow> 'w \<Rightarrow> 'e store_error option" where
  [op_defs]: "CheckHealth K w = map_option OtherError (ServerVersion K w)"

definition findPVC ::
  "('w, 'e, 'q) kube \<Rightarrow> K8sConfig \<Rightarrow> string \<Rightarrow> 'w \<Rightarrow> 'e store_error + 'q pvc" where
  [op_defs]: "findPVC K cfg volumeID w =
     (case PVC_Get K (kc_Namespace cfg) volumeID w of
        Inl err \<Rightarrow> if IsNotFound K err then Inl (NotFoundError volumeID) else Inl (OtherError err)
      | Inr pvc \<Rightarrow> if \<not> isDCMManagedPVC (Some pvc) volumeID then Inl (NotFoundError volumeID)
                   else Inr pvc)"

definition buildVolume :: "'q klib \<Rightarrow> 'q pvc \<Rightarrow> string \<Rightarrow> Volume" where
  [op_defs]: "buildVolume L pvc instanceID = volumeFromPVC L pvc instanceID"

definition validateStorageClass ::
  "('w, 'e, 'q) kube \<Rightarrow> string \<Rightarrow> 'w \<Rightarrow> 'e store_error option" where
  [op_defs]: "validateStorageClass K name w =
     (case StorageClass_Get K name w of
        None \<Rightarrow> None
      | Some err \<Rightarrow>
          if IsNotFound K err
          then Some (FailedPreconditionError (''StorageClass '' @ go_quote name @ '' does not exist''))
          else Some (OtherError err))"

definition K8s_Create ::
  "'q klib \<Rightarrow> ('w, 'e, 'q) kube \<Rightarrow> K8sConfig \<Rightarrow> StorageSpec \<Rightarrow> string \<Rightarrow> 'w \<Rightarrow>
     ('e store_error + Volume) \<times> 'w" where
  [op_defs]: "K8s_Create L K cfg spec0 id0 w =
     (let spec = set_name id0 spec0;
          name = id0;
          labels = (case md_Labels (spec_Metadata spec) of
                      None \<Rightarrow> Labels name
                    | Some user \<Rightarrow> mergeLabels L (Labels name) user);
          storageClass = resolveStorageClass spec (kc_DefaultStorageClass cfg);
          checked = (if storageClass \<noteq> '''' then validateStorageClass K storageClass w else None);
          w1 = (if storageClass \<noteq> '''' then Interleave K w else w)
      in case checked of
           Some err \<Rightarrow> (Inl err, w)
         | None \<Rightarrow>
             (case buildPVC L spec cfg labels of
                Inl err \<Rightarrow> (Inl err, w1)
              | Inr pvc \<Rightarrow>
                  (case PVC_Create K (kc_Namespace cfg) pvc w1 of
                     (Inl err, w2) \<Rightarrow>
                       if IsAlreadyExists K err
                       then (Inl (ConflictError (''volume '' @ go_quote name @ '' already exists'')), w2)
                       else (Inl (OtherError err), w2)
                   | (Inr created, w2) \<Rightarrow> (Inr (buildVolume L created name), w2))))"

definition K8s_Get ::
  "'q klib \<Rightarrow> ('w, 'e, 'q) kube \<Rightarrow> K8sConfig \<Rightarrow> string \<Rightarrow> 'w \<Rightarrow> 'e store_error + Volume" where
  [op_defs]: "K8s_Get L K cfg volumeID w =
     (case findPVC K cfg volumeID w of
        Inl err \<Rightarrow> Inl err
      | Inr pvc \<Rightarrow> Inr (buildVolume L pvc volumeID))"

definition K8s_Delete ::
  "('w, 'e, 'q) kube \<Rightarrow> K8sConfig \<Rightarrow> string \<Rightarrow> 'w \<Rightarrow> 'e store_error option \<times> 'w" where
  [op_defs]: "K8s_Delete K cfg volumeID w =
     (case findPVC K cfg volumeID w of
        Inl err \<Rightarrow> (Some err, w)
      | Inr pvc \<Rightarrow>
          (case PVC_Delete K (kc_Namespace cfg) (pvc_Name pvc) (Interleave K w) of
             (None, w') \<Rightarrow> (None, w')
           | (Some err, w') \<Rightarrow>
               if IsNotFound K err then (None, w') else (Some (OtherError err), w')))"

definition normalizePageSize :: "int32 \<Rightarrow> int32" where
  "normalizePageSize maxPageSize =
     (if sint maxPageSize \<le> 0 then 50
      else if sint maxPageSize > 1000 then 1000
      else maxPageSize)"

definition mapListError :: "('w, 'e, 'q) kube \<Rightarrow> 'e \<Rightarrow> 'e store_error" where
  "mapListError K err =
     (case AsAPIStatus K err of
        Some (code, message) \<Rightarrow>
          if code = 400 then
            (let msg = to_lower message in
             if contains msg ''continue'' \<or> contains msg ''page_token'' \<or> contains msg ''page token''
             then InvalidArgumentError ''invalid page_token''
             else if message \<noteq> '''' then InvalidArgumentError message
             else InvalidArgumentError ''invalid argument'')
          else OtherError err
      | None \<Rightarrow> OtherError err)"

definition K8s_List ::
  "'q klib \<Rightarrow> ('w, 'e, 'q) kube \<Rightarrow> K8sConfig \<Rightarrow> int32 \<Rightarrow> string \<Rightarrow> 'w \<Rightarrow>
     'e store_error + VolumeList" where
  [op_defs]: "K8s_List L K cfg maxPageSize0 pageToken w =
     (let maxPageSize = normalizePageSize maxPageSize0 in
      case PVC_List K (kc_Namespace cfg)
             \<lparr>lo_LabelSelector = Selector L, lo_Limit = sint maxPageSize, lo_Continue = pageToken\<rparr> w of
        Inl err \<Rightarrow> Inl (mapListError K err)
      | Inr pvcs \<Rightarrow>
          Inr \<lparr>vl_NextPageToken = (if pl_Continue pvcs \<noteq> '''' then Some (pl_Continue pvcs) else None),
               vl_Volumes = Some (map (\<lambda>pvc. buildVolume L pvc (pvc_Name pvc))
                 (filter (\<lambda>pvc. isDCMManagedPVC (Some pvc) (pvc_Name pvc)) (pl_Items pvcs)))\<rparr>)"

definition K8sVolumeStore ::
  "'q klib \<Rightarrow> ('w, 'e, 'q) kube \<Rightarrow> K8sConfig \<Rightarrow> ('w, 'e) VolumeRepository" where
  "K8sVolumeStore L K cfg =
     \<lparr>repo_Create = K8s_Create L K cfg,
      repo_Get = K8s_Get L K cfg,
      repo_List = K8s_List L K cfg,
      repo_Delete = K8s_Delete K cfg,
      repo_CheckHealth = CheckHealth K\<rparr>"

section \<open>Facts without assumptions on the cluster\<close>

lemma normalizePageSize_range:
  "1 \<le> sint (normalizePageSize m) \<and> sint (normalizePageSize m) \<le> 1000"
  by (auto simp: normalizePageSize_def)

lemma findPVC_Inr:
  "findPVC K cfg i w = Inr p \<Longrightarrow>
     PVC_Get K (kc_Namespace cfg) i w = Inr p \<and> isDCMManagedPVC (Some p) i"
  by (auto simp: findPVC_def split: sum.splits if_splits)

lemma volumeFromPVC_id [simp]:
  "vol_Id (volumeFromPVC L p i) = Some i"
  "vol_Path (volumeFromPVC L p i) = Some (''volumes/'' @ i)"
  "vol_Status (volumeFromPVC L p i) = Some (fst (MapPVCToStatus (Some p)))"
  "md_Name (spec_Metadata (vol_Spec (volumeFromPVC L p i))) = pvc_Name p"
  "md_Namespace (spec_Metadata (vol_Spec (volumeFromPVC L p i))) = Some (pvc_Namespace p)"
  "vol_CreateTime (volumeFromPVC L p i) = Some (pvc_CreationTimestamp p)"
  by (simp_all add: volumeFromPVC_def Let_def)

section \<open>The store implements the repository's contract\<close>

text \<open>
  The labels a new PVC gets. The view \<open>k8s_vols\<close> is the abstraction function from the
  cluster's objects to the volumes of the repository: the managed PVCs of the configured
  namespace, under the names they have.
\<close>

definition create_labels :: "'q klib \<Rightarrow> StorageSpec \<Rightarrow> string \<Rightarrow> labels" where
  "create_labels L spec i =
     (case md_Labels (spec_Metadata spec) of
        None \<Rightarrow> Labels i | Some user \<Rightarrow> mergeLabels L (Labels i) user)"

definition k8s_vols ::
  "'q klib \<Rightarrow> K8sConfig \<Rightarrow> ('w \<Rightarrow> string \<Rightarrow> string \<Rightarrow> 'q pvc option) \<Rightarrow> 'w \<Rightarrow> string \<Rightarrow> Volume option"
  where
  "k8s_vols L cfg objs w i =
     (case objs w (kc_Namespace cfg) i of
        None \<Rightarrow> None
      | Some p \<Rightarrow> if isDCMManagedPVC (Some p) i then Some (volumeFromPVC L p i) else None)"

lemma K8s_Create_unfold:
  "K8s_Create L K cfg spec i w =
     (let sc = resolveStorageClass spec (kc_DefaultStorageClass cfg) in
      case (if sc \<noteq> '''' then validateStorageClass K sc w else None) of
        Some err \<Rightarrow> (Inl err, w)
      | None \<Rightarrow>
          (case buildPVC L (set_name i spec) cfg (create_labels L spec i) of
             Inl err \<Rightarrow> (Inl err, if sc \<noteq> '''' then Interleave K w else w)
           | Inr pvc \<Rightarrow>
               (case PVC_Create K (kc_Namespace cfg) pvc (if sc \<noteq> '''' then Interleave K w else w) of
                  (Inl err, w2) \<Rightarrow>
                    (Inl (if IsAlreadyExists K err
                          then ConflictError (''volume '' @ go_quote i @ '' already exists'')
                          else OtherError err), w2)
                | (Inr created, w2) \<Rightarrow> (Inr (volumeFromPVC L created i), w2))))"
  by (auto simp: K8s_Create_def Let_def create_labels_def buildVolume_def
      split: option.splits sum.splits prod.splits)

lemma K8s_Create_Inr:
  fixes K :: "('w, 'e, 'q) kube"
  assumes "K8s_Create L K cfg spec i w = (Inr v, w')"
  obtains (created) w1 p p'
  where "w1 = w \<or> w1 = Interleave K w"
    and "(buildPVC L (set_name i spec) cfg (create_labels L spec i) :: 'e store_error + 'q pvc) = Inr p"
    and "PVC_Create K (kc_Namespace cfg) p w1 = (Inr p', w')"
    and "v = volumeFromPVC L p' i"
  using assms that
  by (auto simp: K8s_Create_unfold Let_def split: option.splits sum.splits prod.splits if_splits)

text \<open>The store on any API server, and on one that nobody else uses between two of its calls.\<close>

locale store_api = kube_api K objs classes up + apimachinery L
  for K :: "('w, 'e, 'q) kube" and objs classes up and L :: "'q klib" +
  fixes cfg :: K8sConfig
begin

lemma created_managed:
  assumes b: "(buildPVC L (set_name i spec) cfg (create_labels L spec i) :: 'e store_error + 'q pvc) = Inr p"
    and "persisted (kc_Namespace cfg) p p'"
  shows "isDCMManagedPVC (Some p') i"
proof -
  from assms have "pvc_Labels p' = Some (create_labels L spec i)"
    by (simp add: persisted_def buildPVC_Inr(3))
  then show ?thesis
    by (auto simp: create_labels_def intro: plain_managed merged_managed split: option.splits)
qed

lemma findPVC_eq:
  assumes "up w"
  shows "findPVC K cfg i w =
    (case objs w (kc_Namespace cfg) i of
       None \<Rightarrow> Inl (NotFoundError i)
     | Some p \<Rightarrow> if isDCMManagedPVC (Some p) i then Inr p else Inl (NotFoundError i))"
proof (cases "objs w (kc_Namespace cfg) i")
  case None
  with get_absent [OF assms None] show ?thesis by (auto simp: findPVC_def)
next
  case (Some p)
  with get_present [OF assms Some] show ?thesis by (auto simp: findPVC_def)
qed

end

locale k8s_store = quiet_kube_api K objs classes up + store_api K objs classes up L cfg
  for K :: "('w, 'e, 'q) kube" and objs classes up and L :: "'q klib" and cfg
begin

lemma create_sound:
  assumes "up w" and "K8s_Create L K cfg spec i w = (Inr v, w')"
  shows "up w' \<and> objs w (kc_Namespace cfg) i = None \<and> isDCMManagedPVC (objs w' (kc_Namespace cfg) i) i \<and>
    k8s_vols L cfg objs w' = (k8s_vols L cfg objs w)(i := Some v)"
  using assms(2)
proof (cases rule: K8s_Create_Inr)
  case (created w1 p p')
  then have w1: "w1 = w" by (auto simp: quiet)
  have n: "pvc_Name p = i" using buildPVC_Inr(1) [OF created(2)] by simp
  from create_done [OF assms(1)] created(3) w1
  have d: "up w'" "persisted (kc_Namespace cfg) p p'"
    "objs w' = (objs w)(kc_Namespace cfg := (objs w (kc_Namespace cfg))(i := Some p'))"
    by (auto simp: n)
  have "objs w (kc_Namespace cfg) i = None"
    using create_taken [OF assms(1), of "kc_Namespace cfg" p] created(3) w1 n
    by (cases "objs w (kc_Namespace cfg) i") auto
  moreover have m: "isDCMManagedPVC (Some p') i" by (rule created_managed [OF created(2) d(2)])
  ultimately show ?thesis using d created(4) by (auto simp: k8s_vols_def fun_eq_iff)
qed

lemma create_failure:
  assumes "up w" and "K8s_Create L K cfg spec i w = (Inl e, w')"
  shows "up w' \<and> objs w' = objs w"
  using assms create_failed [OF assms(1)]
  by (fastforce simp: K8s_Create_unfold Let_def quiet
      split: option.splits sum.splits prod.splits if_splits)

text \<open>An object already stored under the name, whether managed or not, is a conflict.\<close>

lemma class_checked:
  assumes "up w" and "c \<in> insert '''' (classes w)"
  shows "(if c \<noteq> '''' then validateStorageClass K c w else None) = None"
  using assms class_present [OF assms(1)] by (auto simp: validateStorageClass_def)

lemma create_conflict:
  assumes "up w" and "objs w (kc_Namespace cfg) i = Some q"
    and c: "resolveStorageClass spec (kc_DefaultStorageClass cfg) \<in> insert '''' (classes w)"
    and b: "buildPVC L (set_name i spec) cfg (create_labels L spec i) = (Inr p :: 'e store_error + 'q pvc)"
  shows "K8s_Create L K cfg spec i w =
    (Inl (ConflictError (''volume '' @ go_quote i @ '' already exists'')), w)"
proof -
  have n: "pvc_Name p = i" using buildPVC_Inr(1) [OF b] by simp
  obtain e where "PVC_Create K (kc_Namespace cfg) p w = (Inl e, w)" "IsAlreadyExists K e"
    using create_taken [OF assms(1), of "kc_Namespace cfg" p q] assms(2) n by auto
  then show ?thesis using b class_checked [OF assms(1) c] by (simp add: K8s_Create_unfold Let_def quiet)
qed

text \<open>A storage class that does not exist stops the creation before anything is written.\<close>

lemma create_missing_class:
  assumes "up w" and "resolveStorageClass spec (kc_DefaultStorageClass cfg) = c" and "c \<noteq> ''''"
    and "c \<notin> classes w"
  shows "K8s_Create L K cfg spec i w =
    (Inl (FailedPreconditionError (''StorageClass '' @ go_quote c @ '' does not exist'')), w)"
  using class_absent [OF assms(1,4)] assms(2,3)
  by (auto simp: K8s_Create_unfold Let_def validateStorageClass_def)

text \<open>A specification no PVC can be built from is an invalid argument, and nothing is written.\<close>

lemma create_invalid:
  assumes "up w" and c: "resolveStorageClass spec (kc_DefaultStorageClass cfg) \<in> insert '''' (classes w)"
    and b: "buildPVC L (set_name i spec) cfg (create_labels L spec i) = (Inl e :: 'e store_error + 'q pvc)"
  shows "\<exists>m. K8s_Create L K cfg spec i w = (Inl (InvalidArgumentError m), w)"
proof -
  obtain m where "e = InvalidArgumentError m" using buildPVC_Inl [OF b] by blast
  then show ?thesis using b class_checked [OF assms(1) c] by (simp add: K8s_Create_unfold Let_def quiet)
qed

lemma create_labels_lookup:
  "map_of (create_labels L spec i) k =
     (if ReservedLabelKeys k then map_of (Labels i) k else spec_label spec k)"
proof (cases "md_Labels (spec_Metadata spec)")
  case None
  then show ?thesis using map_of_Labels [of i k] by (auto simp: create_labels_def)
next
  case (Some user)
  then show ?thesis using map_of_Labels [of i k]
    by (auto simp: create_labels_def mergeLabels_lookup map_add_def split: option.splits)
qed

text \<open>The volume a creation returns reports what was asked for.\<close>

lemma create_echo:
  assumes "up w" and "K8s_Create L K cfg spec i w = (Inr v, w')"
  shows "(\<exists>q. ParseQuantity L (spec_Capacity spec) = Inr q \<and>
        spec_Capacity (vol_Spec v) = Quantity_String L q) \<and>
      Option.bind (k8s_hints (vol_Spec v)) kh_AccessMode = Some (wanted_mode spec cfg) \<and>
      (resolveStorageClass spec (kc_DefaultStorageClass cfg) \<noteq> '''' \<longrightarrow>
        Option.bind (k8s_hints (vol_Spec v)) kh_StorageClass =
          Some (resolveStorageClass spec (kc_DefaultStorageClass cfg))) \<and>
      (\<forall>vm. Option.bind (k8s_hints spec) kh_VolumeMode = Some vm \<longrightarrow>
        Option.bind (k8s_hints (vol_Spec v)) kh_VolumeMode = Some vm) \<and>
      (\<forall>k. spec_label (vol_Spec v) k = (if ReservedLabelKeys k then None else spec_label spec k))"
  using assms(2)
proof (cases rule: K8s_Create_Inr)
  case (created w1 p p')
  then have w1: "w1 = w" by (auto simp: quiet)
  have pers: "persisted (kc_Namespace cfg) p p'"
    using create_done [OF assms(1)] created(3) w1 by blast
  note b = buildPVC_Inr [OF created(2)]
  obtain q where q: "ParseQuantity L (spec_Capacity spec) = Inr q" "pvc_StorageRequest p' = Some q"
    using b(5) pers by (auto simp: persisted_def)
  have m: "pvc_AccessModes p' = [wanted_mode spec cfg]"
  proof -
    from b(6) obtain m0 where "resolveAccessMode spec (kc_DefaultAccessMode cfg) = (Inr m0 :: 'e store_error + string)"
      "pvc_AccessModes p = [m0]" by auto
    moreover from this(1) have "m0 = wanted_mode spec cfg" by (simp add: resolveAccessMode_wanted)
    ultimately show ?thesis using pers by (simp add: persisted_def)
  qed
  have sc: "storageClassFromPVC p' = resolveStorageClass spec (kc_DefaultStorageClass cfg)"
    if "resolveStorageClass spec (kc_DefaultStorageClass cfg) \<noteq> ''''"
    using b(7) pers that by (auto simp: persisted_def Let_def storageClassFromPVC_def)
  have vm: "pvc_VolumeMode p' = Some vm" if "Option.bind (k8s_hints spec) kh_VolumeMode = Some vm" for vm
    using b(8) pers that by (auto simp: persisted_def)
  have labels: "pvc_Labels p' = Some (create_labels L spec i)" using b(3) pers by (simp add: persisted_def)
  show ?thesis
    unfolding created(4) volumeFromPVC_spec
  proof (intro conjI impI allI)
    show "\<exists>q. ParseQuantity L (spec_Capacity spec) = Inr q \<and>
        Quantity_String L (ResourceList_Storage L (pvc_StorageRequest p')) = Quantity_String L q"
      using q by (auto simp: storage)
    show "(case pvc_AccessModes p' of [] \<Rightarrow> None | m # _ \<Rightarrow> Some m) = Some (wanted_mode spec cfg)"
      by (simp add: m)
    show "(if storageClassFromPVC p' = '''' then None else Some (storageClassFromPVC p')) =
        Some (resolveStorageClass spec (kc_DefaultStorageClass cfg))"
      if "resolveStorageClass spec (kc_DefaultStorageClass cfg) \<noteq> ''''"
      using sc [OF that] that by simp
    show "pvc_VolumeMode p' = Some vm" if "Option.bind (k8s_hints spec) kh_VolumeMode = Some vm" for vm
      using vm that .
    show "(if ReservedLabelKeys k then None else Option.bind (pvc_Labels p') (\<lambda>ls. map_of ls k)) =
        (if ReservedLabelKeys k then None else spec_label spec k)" for k
      by (simp add: labels create_labels_lookup)
  qed
qed

lemma create_named:
  assumes "up w" and "K8s_Create L K cfg spec i w = (Inr v, w')"
  shows "md_Name (spec_Metadata (vol_Spec v)) = i \<and> vol_Path v = Some (''volumes/'' @ i)"
  using assms(2)
proof (cases rule: K8s_Create_Inr)
  case (created w1 p p')
  then have "persisted (kc_Namespace cfg) p p'"
    using create_done [OF assms(1)] created(3) by (auto simp: quiet)
  then show ?thesis using buildPVC_Inr(1) [OF created(2)] created(4) by (simp add: persisted_def)
qed

lemma delete_managed:
  assumes "up w" and "objs w (kc_Namespace cfg) i = Some p" and "isDCMManagedPVC (Some p) i"
  shows "\<exists>w' x. K8s_Delete K cfg i w = (None, w') \<and> up w' \<and>
    objs w' = (objs w)(kc_Namespace cfg := (objs w (kc_Namespace cfg))(i := x)) \<and>
    (\<forall>p'. x = Some p' \<longrightarrow> pvc_DeletionTimestamp p' \<noteq> None)"
proof -
  have "findPVC K cfg i w = Inr p" using assms by (simp add: findPVC_eq)
  moreover have "pvc_Name p = i" using stored_key [OF assms(2)] by simp
  ultimately have "K8s_Delete K cfg i w =
      (case PVC_Delete K (kc_Namespace cfg) i w of
         (None, w') \<Rightarrow> (None, w')
       | (Some err, w') \<Rightarrow> if IsNotFound K err then (None, w') else (Some (OtherError err), w'))"
    by (simp add: K8s_Delete_def quiet)
  with delete_present [OF assms(1,2)] show ?thesis by fastforce
qed

lemma delete_unmanaged:
  assumes "up w" and "k8s_vols L cfg objs w i = None"
  shows "K8s_Delete K cfg i w = (Some (NotFoundError i), w)"
  using assms by (auto simp: K8s_Delete_def findPVC_eq k8s_vols_def split: option.splits if_splits)

end

sublocale k8s_store \<subseteq> repo: volume_repository "K8sVolumeStore L K cfg" "k8s_vols L cfg objs" up
proof unfold_locales
  fix w i v assume "up w" "k8s_vols L cfg objs w i = Some v"
  then show "repo_Get (K8sVolumeStore L K cfg) i w = Inr v"
    by (auto simp: K8sVolumeStore_def K8s_Get_def findPVC_eq k8s_vols_def buildVolume_def
        split: option.splits if_splits)
next
  fix w i assume "up w" "k8s_vols L cfg objs w i = None"
  then show "repo_Get (K8sVolumeStore L K cfg) i w = Inl (NotFoundError i)"
    by (auto simp: K8sVolumeStore_def K8s_Get_def findPVC_eq k8s_vols_def
        split: option.splits if_splits)
next
  fix w s i v w' assume a: "up w" "repo_Create (K8sVolumeStore L K cfg) s i w = (Inr v, w')"
  then have c: "K8s_Create L K cfg s i w = (Inr v, w')" by (simp add: K8sVolumeStore_def)
  then have "vol_Id v = Some i" by (cases rule: K8s_Create_Inr) simp
  with create_sound [OF a(1) c]
  show "up w' \<and> k8s_vols L cfg objs w i = None \<and>
      k8s_vols L cfg objs w' = (k8s_vols L cfg objs w)(i := Some v) \<and> vol_Id v = Some i"
    by (simp add: k8s_vols_def)
next
  fix w s i e w' assume "up w" "repo_Create (K8sVolumeStore L K cfg) s i w = (Inl e, w')"
  then show "up w' \<and> k8s_vols L cfg objs w' = k8s_vols L cfg objs w"
    using create_failure [of w s i e w'] by (simp add: K8sVolumeStore_def k8s_vols_def fun_eq_iff)
next
  fix w i assume "up w" "k8s_vols L cfg objs w i = None"
  then show "repo_Delete (K8sVolumeStore L K cfg) i w = (Some (NotFoundError i), w)"
    by (simp add: K8sVolumeStore_def delete_unmanaged)
next
  fix w i v assume u: "up w" and v: "k8s_vols L cfg objs w i = Some v"
  then obtain p where p: "objs w (kc_Namespace cfg) i = Some p" "isDCMManagedPVC (Some p) i"
    by (auto simp: k8s_vols_def split: option.splits if_splits)
  from delete_managed [OF u p] obtain w' x where
    d: "K8s_Delete K cfg i w = (None, w')" "up w'"
      "objs w' = (objs w)(kc_Namespace cfg := (objs w (kc_Namespace cfg))(i := x))"
      "\<forall>p'. x = Some p' \<longrightarrow> pvc_DeletionTimestamp p' \<noteq> None"
    by blast
  let ?x = "k8s_vols L cfg objs w' i"
  have "k8s_vols L cfg objs w' = (k8s_vols L cfg objs w)(i := ?x)"
    using d(3) by (auto simp: k8s_vols_def fun_eq_iff)
  moreover have "\<forall>v'. ?x = Some v' \<longrightarrow> vol_Status v' = Some DELETING"
    using d(3,4) by (auto simp: k8s_vols_def MapPVCToStatus_fst split: option.splits if_splits)
  ultimately show "\<exists>w' x. repo_Delete (K8sVolumeStore L K cfg) i w = (None, w') \<and> up w' \<and>
      k8s_vols L cfg objs w' = (k8s_vols L cfg objs w)(i := x) \<and>
      (\<forall>v'. x = Some v' \<longrightarrow> vol_Status v' = Some DELETING)"
    using d(1,2) by (auto simp: K8sVolumeStore_def)
qed

context k8s_store
begin

lemma repository: "volume_repository (K8sVolumeStore L K cfg) (k8s_vols L cfg objs) up"
  by (rule repo.volume_repository_axioms)

end

end
