(* ===== verification/Paging.thy ===== *)
theory Paging
  imports K8s_Store
begin

text \<open>
  Listing (\<^verbatim>\<open>internal/kubernetes/store_list.go\<close>) against the API server's chunked lists: what
  the documentation of \<^verbatim>\<open>limit\<close> and \<^verbatim>\<open>continue\<close> promises, the loop a client of the
  provider runs over \<^verbatim>\<open>next_page_token\<close>, and the fact that it sees every managed volume exactly
  once.
\<close>

definition dcm_selected :: "'q pvc \<Rightarrow> bool" where
  "dcm_selected p \<longleftrightarrow> go_index (pvc_Labels p) LabelManagedBy = ValueManagedByDCM \<and>
     go_index (pvc_Labels p) LabelServiceType = ValueServiceType"

definition page_filter :: "'q pvc \<Rightarrow> bool" where
  "page_filter p = isDCMManagedPVC (Some p) (pvc_Name p)"

definition page_volumes :: "'q klib \<Rightarrow> 'q pvc list \<Rightarrow> Volume list" where
  "page_volumes L ps = map (\<lambda>p. volumeFromPVC L p (pvc_Name p)) (filter page_filter ps)"

lemma page_filter_selected: "page_filter p \<Longrightarrow> dcm_selected p"
  by (auto simp: page_filter_def dcm_selected_def isDCMManagedPVC_def split: if_splits)

lemma page_volumes_selected: "page_volumes L (filter dcm_selected ps) = page_volumes L ps"
  by (induction ps) (auto simp: page_volumes_def dest: page_filter_selected)

lemma page_volumes_append: "page_volumes L (ps @ qs) = page_volumes L ps @ page_volumes L qs"
  by (simp add: page_volumes_def)

text \<open>
  The client's loop: \<open>f\<close> fetches the page of a token; \<open>None\<close> is running out of fuel.
\<close>

fun list_pages ::
  "(string \<Rightarrow> 'e store_error + VolumeList) \<Rightarrow> nat \<Rightarrow> string \<Rightarrow> ('e store_error + Volume list) option"
  where
  "list_pages f 0 tok = None"
| "list_pages f (Suc n) tok =
     (case f tok of
        Inl e \<Rightarrow> Some (Inl e)
      | Inr page \<Rightarrow>
          (let vs = (case vl_Volumes page of None \<Rightarrow> [] | Some vs \<Rightarrow> vs) in
           case vl_NextPageToken page of
             None \<Rightarrow> Some (Inr vs)
           | Some t \<Rightarrow>
               map_option (\<lambda>r. case r of Inl e \<Rightarrow> Inl e | Inr rest \<Rightarrow> Inr (vs @ rest))
                 (list_pages f n t)))"

text \<open>
  \<open>raw w ns\<close> is the order in which the server walks the PVCs of a namespace, \<open>cursor\<close> the
  position a token stands for. The server may return fewer objects than the limit, none at all
  included, as long as it makes progress; the selector is applied after the walk.
\<close>

locale kube_paging = k8s_store K objs classes up L cfg
  for K :: "('w, 'e, 'q) kube" and objs classes up and L :: "'q klib" and cfg +
  fixes raw :: "'w \<Rightarrow> string \<Rightarrow> 'q pvc list"
    and cursor :: "'w \<Rightarrow> string \<Rightarrow> nat option"
  assumes raw_objs: "p \<in> set (raw w ns) \<longleftrightarrow> objs w ns (pvc_Name p) = Some p"
    and raw_distinct: "distinct (map pvc_Name (raw w ns))"
    and cursor_start: "cursor w '''' = Some 0"
    and page: "up w \<Longrightarrow> 0 < lim \<Longrightarrow> cursor w tok = Some pos \<Longrightarrow>
      \<exists>k tok'. PVC_List K ns \<lparr>lo_LabelSelector = Selector L, lo_Limit = lim, lo_Continue = tok\<rparr> w =
          Inr \<lparr>pl_Items = filter dcm_selected (take k (drop pos (raw w ns))), pl_Continue = tok'\<rparr> \<and>
        int (length (filter dcm_selected (take k (drop pos (raw w ns))))) \<le> lim \<and>
        (if pos + k < length (raw w ns) then 0 < k \<and> tok' \<noteq> '''' \<and> cursor w tok' = Some (pos + k)
         else tok' = '''')"
begin

lemma K8s_List_page:
  assumes "up w" and "cursor w tok = Some pos"
  obtains k tok' where
    "K8s_List L K cfg sz tok w =
       Inr \<lparr>vl_NextPageToken = (if tok' \<noteq> '''' then Some tok' else None),
            vl_Volumes = Some (page_volumes L (take k (drop pos (raw w (kc_Namespace cfg)))))\<rparr>"
    and "if pos + k < length (raw w (kc_Namespace cfg))
         then 0 < k \<and> tok' \<noteq> '''' \<and> cursor w tok' = Some (pos + k) else tok' = ''''"
    and "int (length (page_volumes L (take k (drop pos (raw w (kc_Namespace cfg)))))) \<le>
         sint (normalizePageSize sz)"
proof -
  let ?ns = "kc_Namespace cfg"
  have lim: "0 < sint (normalizePageSize sz)" using normalizePageSize_range [of sz] by linarith
  from page [OF assms(1) lim assms(2), of ?ns] obtain k tok' where
    l: "PVC_List K ?ns \<lparr>lo_LabelSelector = Selector L, lo_Limit = sint (normalizePageSize sz),
          lo_Continue = tok\<rparr> w =
        Inr \<lparr>pl_Items = filter dcm_selected (take k (drop pos (raw w ?ns))), pl_Continue = tok'\<rparr>"
    and b: "int (length (filter dcm_selected (take k (drop pos (raw w ?ns))))) \<le>
      sint (normalizePageSize sz)"
    and c: "if pos + k < length (raw w ?ns) then 0 < k \<and> tok' \<noteq> '''' \<and> cursor w tok' = Some (pos + k)
      else tok' = ''''"
    by blast
  have "K8s_List L K cfg sz tok w =
      Inr \<lparr>vl_NextPageToken = (if tok' \<noteq> '''' then Some tok' else None),
           vl_Volumes = Some (page_volumes L (take k (drop pos (raw w ?ns))))\<rparr>"
    using page_volumes_selected [of L "take k (drop pos (raw w ?ns))"]
    by (simp add: K8s_List_def l buildVolume_def page_volumes_def page_filter_def [symmetric])
  moreover have "length (page_volumes L (take k (drop pos (raw w ?ns)))) \<le>
      length (filter dcm_selected (take k (drop pos (raw w ?ns))))"
    unfolding page_volumes_selected [symmetric, of L "take k (drop pos (raw w ?ns))"]
    by (simp add: page_volumes_def del: filter_filter)
  ultimately show thesis using b c that by auto
qed

lemma list_pages_from:
  "up w \<Longrightarrow> cursor w tok = Some pos \<Longrightarrow> length (raw w (kc_Namespace cfg)) - pos < fuel \<Longrightarrow>
   list_pages (\<lambda>t. K8s_List L K cfg sz t w) fuel tok =
     Some (Inr (page_volumes L (drop pos (raw w (kc_Namespace cfg)))))"
proof (induction fuel arbitrary: tok pos)
  case 0
  then show ?case by simp
next
  case (Suc fuel)
  let ?raw = "raw w (kc_Namespace cfg)"
  from Suc.prems(1,2) obtain k tok' where
    l: "K8s_List L K cfg sz tok w =
       Inr \<lparr>vl_NextPageToken = (if tok' \<noteq> '''' then Some tok' else None),
            vl_Volumes = Some (page_volumes L (take k (drop pos ?raw)))\<rparr>"
    and c: "if pos + k < length ?raw then 0 < k \<and> tok' \<noteq> '''' \<and> cursor w tok' = Some (pos + k)
      else tok' = ''''"
    by (rule K8s_List_page [where sz = sz])
  have split: "drop pos ?raw = take k (drop pos ?raw) @ drop (pos + k) ?raw"
    by (metis add.commute append_take_drop_id drop_drop)
  show ?case
  proof (cases "pos + k < length ?raw")
    case True
    with c have t: "tok' \<noteq> ''''" "cursor w tok' = Some (pos + k)" "0 < k" by simp_all
    have "list_pages (\<lambda>t. K8s_List L K cfg sz t w) fuel tok' =
        Some (Inr (page_volumes L (drop (pos + k) ?raw)))"
      using Suc.prems t True by (intro Suc.IH) auto
    moreover have "page_volumes L (drop pos ?raw) =
        page_volumes L (take k (drop pos ?raw)) @ page_volumes L (drop (pos + k) ?raw)"
      using arg_cong [OF split, of "page_volumes L"] by (simp only: page_volumes_append)
    ultimately show ?thesis using l t(1) by simp
  next
    case False
    with c split have "tok' = ''''" "drop pos ?raw = take k (drop pos ?raw)" by simp_all
    then show ?thesis using l by simp
  qed
qed

lemma list_pages_all:
  assumes "up w" and "length (raw w (kc_Namespace cfg)) < fuel"
  shows "list_pages (\<lambda>t. K8s_List L K cfg sz t w) fuel '''' =
    Some (Inr (page_volumes L (raw w (kc_Namespace cfg))))"
  using list_pages_from [OF assms(1) cursor_start, of fuel sz] assms(2) by simp

lemma page_volumes_raw:
  "v \<in> set (page_volumes L (raw w (kc_Namespace cfg))) \<longleftrightarrow> (\<exists>i. k8s_vols L cfg objs w i = Some v)"
proof
  assume "v \<in> set (page_volumes L (raw w (kc_Namespace cfg)))"
  then obtain p where "p \<in> set (raw w (kc_Namespace cfg))" "page_filter p"
    "v = volumeFromPVC L p (pvc_Name p)"
    by (auto simp: page_volumes_def)
  then have "k8s_vols L cfg objs w (pvc_Name p) = Some v"
    by (simp add: raw_objs page_filter_def k8s_vols_def)
  then show "\<exists>i. k8s_vols L cfg objs w i = Some v" ..
next
  assume "\<exists>i. k8s_vols L cfg objs w i = Some v"
  then obtain i p where p: "objs w (kc_Namespace cfg) i = Some p" "isDCMManagedPVC (Some p) i"
    and v: "v = volumeFromPVC L p i"
    by (auto simp: k8s_vols_def split: option.splits if_splits)
  then have "pvc_Name p = i" using stored_key by blast
  with p have "p \<in> set (raw w (kc_Namespace cfg))" "page_filter p"
    by (simp_all add: raw_objs page_filter_def)
  with v \<open>pvc_Name p = i\<close> show "v \<in> set (page_volumes L (raw w (kc_Namespace cfg)))"
    by (auto simp: page_volumes_def)
qed

lemma page_volumes_distinct:
  "distinct (map vol_Id (page_volumes L (raw w (kc_Namespace cfg))))"
proof -
  have "map vol_Id (page_volumes L ps) = map Some (map pvc_Name (filter page_filter ps))" for ps
    by (simp add: page_volumes_def)
  moreover have "distinct (map pvc_Name (filter page_filter (raw w (kc_Namespace cfg))))"
    using raw_distinct by (rule distinct_map_filter)
  ultimately show ?thesis by (simp only: distinct_map) simp
qed

end

context kube_paging
begin

text \<open>A listed volume can be read under its id.\<close>

lemma listed_readable:
  assumes "up w" and "v \<in> set (page_volumes L (raw w (kc_Namespace cfg)))" and "vol_Id v = Some i"
  shows "K8s_Get L K cfg i w = Inr v"
proof -
  obtain j where j: "k8s_vols L cfg objs w j = Some v" using assms(2) page_volumes_raw by blast
  then have "vol_Id v = Some j" by (auto simp: k8s_vols_def split: option.splits if_splits)
  with assms(3) j have "k8s_vols L cfg objs w i = Some v" by simp
  then show ?thesis using repo.get_found [OF assms(1)] by (simp add: K8sVolumeStore_def)
qed

end

end
