(* ===== verification/Ref_Cluster.thy ===== *)
theory Ref_Cluster
  imports Paging
begin

text \<open>
  A concrete API server and library that behave as the interface locales say: the instance
  at which the theorems about the store are applied. A cluster is an association list of
  objects by namespace and name, with its storage classes. Quantities are strings that begin
  with a digit. Nothing in this theory models code of the repository.
\<close>

section \<open>The library\<close>

definition ref_lib :: "string klib" where
  "ref_lib =
     \<lparr>labels_Merge = (\<lambda>a b. b @ filter (\<lambda>(k, v). k \<notin> fst ` set b) a),
      labels_Set_String = (\<lambda>ls. concat (map (\<lambda>(k, v). k @ ''='' @ v @ '','') ls)),
      ParseQuantity = (\<lambda>s. if s \<noteq> [] \<and> hd s \<in> set ''0123456789'' then Inr s
                           else Inl ''quantities must match the regular expression''),
      Quantity_String = (\<lambda>q. q),
      ResourceList_Storage = (\<lambda>q. case q of None \<Rightarrow> ''0'' | Some q \<Rightarrow> q)\<rparr>"

lemma map_of_filter_notin:
  "map_of (filter (\<lambda>(k, v). k \<notin> A) xs) k = (if k \<in> A then None else map_of xs k)"
  using map_of_filter_keys [of "\<lambda>k. k \<notin> A" xs] by (simp add: fun_eq_iff)

lemma ref_merge: "map_of (labels_Merge ref_lib a b) = map_of a ++ map_of b"
proof
  fix k
  show "map_of (labels_Merge ref_lib a b) k = (map_of a ++ map_of b) k"
  proof (cases "map_of b k")
    case None
    then have "k \<notin> fst ` set b" by (simp add: map_of_eq_None_iff)
    with None show ?thesis by (simp add: ref_lib_def map_of_append map_add_def map_of_filter_notin)
  next
    case (Some v)
    then show ?thesis by (simp add: ref_lib_def map_of_append map_add_def)
  qed
qed

interpretation ref: apimachinery ref_lib
  proof unfold_locales
  fix a b show "map_of (labels_Merge ref_lib a b) = map_of a ++ map_of b" by (rule ref_merge)
qed (simp_all add: ref_lib_def split: if_splits)

section \<open>The cluster\<close>

record ref_world =
  rf_objs :: "((string \<times> string) \<times> string pvc) list"
  rf_classes :: "string list"
  rf_up :: bool

datatype ref_err = RefNotFound | RefAlreadyExists | RefUnavailable | RefStatus int string

definition ref_objs :: "ref_world \<Rightarrow> string \<Rightarrow> string \<Rightarrow> string pvc option" where
  "ref_objs w ns n =
     map_option (\<lambda>p. p\<lparr>pvc_Name := n, pvc_Namespace := ns\<rparr>) (map_of (rf_objs w) (ns, n))"

definition ref_raw :: "ref_world \<Rightarrow> string \<Rightarrow> string pvc list" where
  "ref_raw w ns = map (\<lambda>n. the (ref_objs w ns n))
     (remdups (map (\<lambda>((_, n), _). n) (filter (\<lambda>((ns', _), _). ns' = ns) (rf_objs w))))"

definition ref_cursor :: "ref_world \<Rightarrow> string \<Rightarrow> nat option" where
  "ref_cursor w tok = (if set tok \<subseteq> {CHR ''x''} then Some (length tok) else None)"

definition ref_store :: "string \<Rightarrow> string pvc \<Rightarrow> string pvc" where
  "ref_store ns p = p\<lparr>pvc_Namespace := ns, pvc_Phase := ClaimPending, pvc_CreationTimestamp := 1\<rparr>"

definition ref_kube :: "(ref_world, ref_err, string) kube" where
  "ref_kube =
     \<lparr>PVC_Get = (\<lambda>ns n w. if \<not> rf_up w then Inl RefUnavailable
        else case ref_objs w ns n of None \<Rightarrow> Inl RefNotFound | Some p \<Rightarrow> Inr p),
      PVC_Create = (\<lambda>ns p w. if \<not> rf_up w then (Inl RefUnavailable, w)
        else case ref_objs w ns (pvc_Name p) of
            Some _ \<Rightarrow> (Inl RefAlreadyExists, w)
          | None \<Rightarrow> (Inr (ref_store ns p),
              w\<lparr>rf_objs := rf_objs w @ [((ns, pvc_Name p), ref_store ns p)]\<rparr>)),
      PVC_Delete = (\<lambda>ns n w. if \<not> rf_up w then (Some RefUnavailable, w)
        else case ref_objs w ns n of
            None \<Rightarrow> (Some RefNotFound, w)
          | Some _ \<Rightarrow> (None, w\<lparr>rf_objs := filter (\<lambda>(k, _). k \<noteq> (ns, n)) (rf_objs w)\<rparr>)),
      PVC_List = (\<lambda>ns opts w. if \<not> rf_up w then Inl RefUnavailable
        else case ref_cursor w (lo_Continue opts) of
            None \<Rightarrow> Inl (RefStatus 400 ''invalid continue token'')
          | Some pos \<Rightarrow>
              (let k = nat (lo_Limit opts); all = ref_raw w ns in
               Inr \<lparr>pl_Items = filter dcm_selected (take k (drop pos all)),
                    pl_Continue = (if pos + k < length all then replicate (pos + k) CHR ''x'' else '''')\<rparr>)),
      StorageClass_Get = (\<lambda>c w. if \<not> rf_up w then Some RefUnavailable
        else if c \<in> set (rf_classes w) then None else Some RefNotFound),
      ServerVersion = (\<lambda>w. if rf_up w then None else Some RefUnavailable),
      IsNotFound = (\<lambda>e. e = RefNotFound),
      IsAlreadyExists = (\<lambda>e. e = RefAlreadyExists),
      AsAPIStatus = (\<lambda>e. case e of RefStatus c m \<Rightarrow> Some (c, m) | _ \<Rightarrow> None),
      Interleave = (\<lambda>w. w)\<rparr>"

lemma ref_objs_add:
  "ref_objs w ns n = None \<Longrightarrow> pvc_Name p = n \<Longrightarrow> pvc_Namespace p = ns \<Longrightarrow>
   ref_objs (w\<lparr>rf_objs := rf_objs w @ [((ns, n), p)]\<rparr>) =
     (ref_objs w)(ns := (ref_objs w ns)(n := Some p))"
  by (auto simp: ref_objs_def fun_eq_iff map_of_append map_add_def split: option.splits)

lemma ref_objs_delete:
  "ref_objs (w\<lparr>rf_objs := filter (\<lambda>(k, _). k \<noteq> (ns, n)) (rf_objs w)\<rparr>) =
     (ref_objs w)(ns := (ref_objs w ns)(n := None))"
  using map_of_filter_keys [of "\<lambda>k. k \<noteq> (ns, n)" "rf_objs w"]
  by (auto simp: ref_objs_def fun_eq_iff)

definition ref_names :: "ref_world \<Rightarrow> string \<Rightarrow> string list" where
  "ref_names w ns = map (\<lambda>((_, n), _). n) (filter (\<lambda>((ns', _), _). ns' = ns) (rf_objs w))"

lemma set_ref_names: "n \<in> set (ref_names w ns) \<longleftrightarrow> (\<exists>p. ref_objs w ns n = Some p \<and> pvc_Name p = n)"
proof -
  have "n \<in> set (ref_names w ns) \<longleftrightarrow> map_of (rf_objs w) (ns, n) \<noteq> None"
    by (force simp: ref_names_def map_of_eq_None_iff)
  then show ?thesis by (auto simp: ref_objs_def)
qed

lemma ref_raw_names: "ref_raw w ns = map (\<lambda>n. the (ref_objs w ns n)) (remdups (ref_names w ns))"
  by (simp add: ref_raw_def ref_names_def)

lemma ref_objs_name: "ref_objs w ns n = Some p \<Longrightarrow> pvc_Name p = n"
  by (auto simp: ref_objs_def)

lemma ref_raw_objs: "p \<in> set (ref_raw w ns) \<longleftrightarrow> ref_objs w ns (pvc_Name p) = Some p"
proof
  assume "p \<in> set (ref_raw w ns)"
  then obtain n where "n \<in> set (ref_names w ns)" and p: "p = the (ref_objs w ns n)"
    by (auto simp: ref_raw_names)
  then obtain q where "ref_objs w ns n = Some q" "pvc_Name q = n" by (auto simp: set_ref_names)
  with p show "ref_objs w ns (pvc_Name p) = Some p" by simp
next
  assume a: "ref_objs w ns (pvc_Name p) = Some p"
  then have "pvc_Name p \<in> set (ref_names w ns)" by (simp add: set_ref_names)
  moreover from a have "p = the (ref_objs w ns (pvc_Name p))" by simp
  ultimately show "p \<in> set (ref_raw w ns)" unfolding ref_raw_names by auto
qed

lemma ref_raw_distinct: "distinct (map pvc_Name (ref_raw w ns))"
proof -
  have "pvc_Name (the (ref_objs w ns n)) = n" if "n \<in> set (remdups (ref_names w ns))" for n
    using that by (auto simp: set_ref_names)
  then have "map pvc_Name (ref_raw w ns) = remdups (ref_names w ns)"
    unfolding ref_raw_names map_map by (intro map_idI) simp
  then show ?thesis by simp
qed

interpretation ref: quiet_kube_api ref_kube ref_objs "\<lambda>w. set (rf_classes w)" rf_up
proof unfold_locales
  fix w ns and p p' :: "string pvc" and w'
  assume "rf_up w" "PVC_Create ref_kube ns p w = (Inr p', w')"
  then have n: "ref_objs w ns (pvc_Name p) = None" and p': "p' = ref_store ns p"
    and w': "w' = w\<lparr>rf_objs := rf_objs w @ [((ns, pvc_Name p), ref_store ns p)]\<rparr>"
    by (auto simp: ref_kube_def split: option.splits)
  have "ref_objs w' = (ref_objs w)(ns := (ref_objs w ns)(pvc_Name p := Some p'))"
    unfolding w' p' by (rule ref_objs_add [OF n]) (simp_all add: ref_store_def)
  then show "rf_up w' \<and> set (rf_classes w') = set (rf_classes w) \<and> persisted ns p p' \<and>
      ref_objs w' = (ref_objs w)(ns := (ref_objs w ns)(pvc_Name p := Some p'))"
    using \<open>rf_up w\<close> by (simp add: w' p' persisted_def ref_store_def)
next
  fix w ns n and p :: "string pvc"
  assume "rf_up w" "ref_objs w ns n = Some p"
  then show "\<exists>w' x. PVC_Delete ref_kube ns n w = (None, w') \<and> rf_up w' \<and>
      set (rf_classes w') = set (rf_classes w) \<and>
      ref_objs w' = (ref_objs w)(ns := (ref_objs w ns)(n := x)) \<and>
      (\<forall>p'. x = Some p' \<longrightarrow> pvc_DeletionTimestamp p' \<noteq> None)"
    by (auto simp: ref_kube_def ref_objs_delete intro!: exI [of _ None])
qed (auto simp: ref_kube_def ref_objs_def split: option.splits if_splits)

interpretation ref: store_api ref_kube ref_objs "\<lambda>w. set (rf_classes w)" rf_up ref_lib cfg
  for cfg by unfold_locales

interpretation ref: k8s_store ref_kube ref_objs "\<lambda>w. set (rf_classes w)" rf_up ref_lib cfg
  for cfg by unfold_locales

interpretation ref: kube_paging ref_kube ref_objs "\<lambda>w. set (rf_classes w)" rf_up ref_lib cfg
  ref_raw ref_cursor for cfg
proof unfold_locales
  fix w lim tok pos ns
  assume "rf_up w" "0 < (lim :: int)" and c: "ref_cursor w tok = Some pos"
  then show "\<exists>k tok'. PVC_List ref_kube ns
        \<lparr>lo_LabelSelector = Selector ref_lib, lo_Limit = lim, lo_Continue = tok\<rparr> w =
          Inr \<lparr>pl_Items = filter dcm_selected (take k (drop pos (ref_raw w ns))), pl_Continue = tok'\<rparr> \<and>
        int (length (filter dcm_selected (take k (drop pos (ref_raw w ns))))) \<le> lim \<and>
        (if pos + k < length (ref_raw w ns)
         then 0 < k \<and> tok' \<noteq> '''' \<and> ref_cursor w tok' = Some (pos + k) else tok' = '''')"
    using length_filter_le [of dcm_selected "take (nat lim) (drop pos (ref_raw w ns))"]
    by (intro exI [of _ "nat lim"]) (auto simp: ref_kube_def Let_def ref_cursor_def)
qed (simp_all add: ref_raw_objs ref_raw_distinct ref_cursor_def)

section \<open>Sample clusters\<close>

definition ref_cfg :: K8sConfig where
  "ref_cfg = \<lparr>kc_Namespace = ''default'', kc_DefaultStorageClass = '''',
              kc_DefaultAccessMode = ''ReadWriteOnce''\<rparr>"

definition ref_empty :: ref_world where
  "ref_empty = \<lparr>rf_objs = [], rf_classes = [''fast''], rf_up = True\<rparr>"

definition ref_spec :: StorageSpec where
  "ref_spec = \<lparr>spec_Capacity = ''1Gi'',
     spec_Metadata = \<lparr>md_Labels = Some [(''team'', ''a'')], md_Name = ''data'', md_Namespace = None,
                      md_StorageClass = None, md_VolumeName = None\<rparr>,
     spec_ProviderHints = Some \<lparr>ph_Kubernetes = Some \<lparr>kh_AccessMode = None,
         kh_StorageClass = Some ''fast'', kh_VolumeMode = Some ''Block''\<rparr>,
       ph_AdditionalProperties = None\<rparr>,
     spec_ServiceType = ''storage''\<rparr>"

text \<open>A cluster that answers, with one managed volume.\<close>

definition ref_one :: ref_world where
  "ref_one = snd (K8s_Create ref_lib ref_kube ref_cfg ref_spec ''data'' ref_empty)"

end
