(* ===== verification/Concurrent.thy ===== *)
theory Concurrent
  imports K8s_Store
begin

text \<open>
  Store operations that run at the same time. The server serves each request in a goroutine of its
  own, and the store takes no locks: the operations of \<open>K8s_Store\<close> are cut here at their calls of the
  API server, and the pieces of any number of them interleave, with steps of other clients and of
  the controllers in between.
\<close>

section \<open>Operations cut at their calls\<close>

datatype store_op =
    OpCreate StorageSpec string
  | OpGet string
  | OpDelete string
  | OpList int32 string

datatype 'e op_result =
    Created "'e store_error + Volume"
  | Got "'e store_error + Volume"
  | Deleted "'e store_error option"
  | Listed "'e store_error + VolumeList"

text \<open>
  Where an operation is: not begun, before \<^verbatim>\<open>buildPVC\<close> and the create call, before the delete call
  of the PVC that was found, or ended.
\<close>

datatype 'e op_pc = AtBegin | AtCreate | AtDelete string | Ended "'e op_result"

definition create_section ::
  "'q klib \<Rightarrow> ('w, 'e, 'q) kube \<Rightarrow> K8sConfig \<Rightarrow> StorageSpec \<Rightarrow> string \<Rightarrow> 'w \<Rightarrow> 'e op_pc \<times> 'w" where
  "create_section L K cfg spec0 name w =
     (let spec = set_name name spec0;
          labels = (case md_Labels (spec_Metadata spec) of
                      None \<Rightarrow> Labels name
                    | Some user \<Rightarrow> mergeLabels L (Labels name) user)
      in case buildPVC L spec cfg labels of
           Inl err \<Rightarrow> (Ended (Created (Inl err)), w)
         | Inr pvc \<Rightarrow>
             (case PVC_Create K (kc_Namespace cfg) pvc w of
                (Inl err, w') \<Rightarrow>
                  (Ended (Created (Inl
                     (if IsAlreadyExists K err
                      then ConflictError (''volume '' @ go_quote name @ '' already exists'')
                      else OtherError err))), w')
              | (Inr created, w') \<Rightarrow> (Ended (Created (Inr (buildVolume L created name))), w')))"

definition begin_section ::
  "'q klib \<Rightarrow> ('w, 'e, 'q) kube \<Rightarrow> K8sConfig \<Rightarrow> store_op \<Rightarrow> 'w \<Rightarrow> 'e op_pc \<times> 'w" where
  "begin_section L K cfg op w =
     (case op of
        OpCreate spec name \<Rightarrow>
          (let storageClass = resolveStorageClass (set_name name spec) (kc_DefaultStorageClass cfg) in
           if storageClass \<noteq> '''' then
             (case validateStorageClass K storageClass w of
                Some err \<Rightarrow> (Ended (Created (Inl err)), w)
              | None \<Rightarrow> (AtCreate, w))
           else create_section L K cfg spec name w)
      | OpGet i \<Rightarrow> (Ended (Got (K8s_Get L K cfg i w)), w)
      | OpDelete i \<Rightarrow>
          (case findPVC K cfg i w of
             Inl err \<Rightarrow> (Ended (Deleted (Some err)), w)
           | Inr pvc \<Rightarrow> (AtDelete (pvc_Name pvc), w))
      | OpList sz token \<Rightarrow> (Ended (Listed (K8s_List L K cfg sz token w)), w))"

definition delete_section ::
  "('w, 'e, 'q) kube \<Rightarrow> K8sConfig \<Rightarrow> string \<Rightarrow> 'w \<Rightarrow> 'e op_pc \<times> 'w" where
  "delete_section K cfg n w =
     (case PVC_Delete K (kc_Namespace cfg) n w of
        (None, w') \<Rightarrow> (Ended (Deleted None), w')
      | (Some err, w') \<Rightarrow>
          (Ended (Deleted (if IsNotFound K err then None else Some (OtherError err))), w'))"

fun op_step ::
  "'q klib \<Rightarrow> ('w, 'e, 'q) kube \<Rightarrow> K8sConfig \<Rightarrow> store_op \<Rightarrow> 'e op_pc \<Rightarrow> 'w \<Rightarrow> 'e op_pc \<times> 'w" where
  "op_step L K cfg op AtBegin w = begin_section L K cfg op w"
| "op_step L K cfg (OpCreate spec name) AtCreate w = create_section L K cfg spec name w"
| "op_step L K cfg op (AtDelete n) w = delete_section K cfg n w"
| "op_step L K cfg op pc w = (pc, w)"

section \<open>An operation alone\<close>

text \<open>
  Run to its end, with \<open>Interleave\<close> between its calls, an operation is the one of \<open>K8s_Store\<close>.
\<close>

definition op_alone ::
  "'q klib \<Rightarrow> ('w, 'e, 'q) kube \<Rightarrow> K8sConfig \<Rightarrow> store_op \<Rightarrow> 'w \<Rightarrow> 'e op_pc \<times> 'w" where
  "op_alone L K cfg op w =
     (case op_step L K cfg op AtBegin w of
        (Ended res, w1) \<Rightarrow> (Ended res, w1)
      | (pc, w1) \<Rightarrow> op_step L K cfg op pc (Interleave K w1))"

definition op_whole ::
  "'q klib \<Rightarrow> ('w, 'e, 'q) kube \<Rightarrow> K8sConfig \<Rightarrow> store_op \<Rightarrow> 'w \<Rightarrow> 'e op_result \<times> 'w" where
  "op_whole L K cfg op w =
     (case op of
        OpCreate spec i \<Rightarrow> apfst Created (K8s_Create L K cfg spec i w)
      | OpGet i \<Rightarrow> (Got (K8s_Get L K cfg i w), w)
      | OpDelete i \<Rightarrow> apfst Deleted (K8s_Delete K cfg i w)
      | OpList sz token \<Rightarrow> (Listed (K8s_List L K cfg sz token w), w))"

lemma op_alone_whole: "op_alone L K cfg op w = apfst Ended (op_whole L K cfg op w)"
proof (cases op)
  case (OpCreate spec i)
  then show ?thesis
    by (auto simp: op_alone_def op_whole_def begin_section_def create_section_def K8s_Create_def Let_def
        split: option.splits sum.splits prod.splits)
next
  case (OpDelete i)
  then show ?thesis
    by (auto simp: op_alone_def op_whole_def begin_section_def delete_section_def K8s_Delete_def
        split: option.splits sum.splits prod.splits)
qed (simp_all add: op_alone_def op_whole_def begin_section_def)

section \<open>Many operations\<close>

record 'e thread =
  th_op :: store_op
  th_pc :: "'e op_pc"

record ('w, 'e) conc =
  cc_world :: 'w
  cc_threads :: "'e thread list"

datatype 'w conc_label = Spawn store_op | RunThread nat | Others 'w

text \<open>
  What the rest of the world may do between two steps: anything to objects outside the namespace and
  to new or dying ones, but it neither deletes an object of the namespace nor takes its labels.
  \<open>objs\<close> and \<open>up\<close> are those of \<open>kube_api\<close>.
\<close>

definition leaves_objects :: "('w \<Rightarrow> string \<Rightarrow> string \<Rightarrow> 'q pvc option) \<Rightarrow> string \<Rightarrow> 'w \<Rightarrow> 'w \<Rightarrow> bool" where
  "leaves_objects objs ns w w' \<longleftrightarrow>
     (\<forall>n p. objs w ns n = Some p \<longrightarrow> pvc_DeletionTimestamp p = None \<longrightarrow>
        (\<exists>p'. objs w' ns n = Some p' \<and> pvc_DeletionTimestamp p' = None \<and> pvc_Labels p' = pvc_Labels p))"

fun conc_perform :: "'q klib \<Rightarrow> ('w, 'e, 'q) kube \<Rightarrow> K8sConfig \<Rightarrow> ('w, 'e) conc \<Rightarrow> 'w conc_label \<Rightarrow> ('w, 'e) conc" where
  "conc_perform L K cfg s (Spawn op) = s\<lparr>cc_threads := cc_threads s @ [\<lparr>th_op = op, th_pc = AtBegin\<rparr>]\<rparr>"
| "conc_perform L K cfg s (RunThread i) =
     (let t = cc_threads s ! i in
      case op_step L K cfg (th_op t) (th_pc t) (cc_world s) of
        (pc, w) \<Rightarrow> \<lparr>cc_world = w, cc_threads = (cc_threads s)[i := t\<lparr>th_pc := pc\<rparr>]\<rparr>)"
| "conc_perform L K cfg s (Others w) = s\<lparr>cc_world := w\<rparr>"

inductive conc_reachable ::
  "'q klib \<Rightarrow> ('w, 'e, 'q) kube \<Rightarrow> K8sConfig \<Rightarrow> ('w \<Rightarrow> string \<Rightarrow> string \<Rightarrow> 'q pvc option) \<Rightarrow>
     ('w \<Rightarrow> bool) \<Rightarrow> ('w, 'e) conc \<Rightarrow> bool" for L K cfg objs up where
  start: "up w \<Longrightarrow> conc_reachable L K cfg objs up \<lparr>cc_world = w, cc_threads = []\<rparr>"
| spawn: "conc_reachable L K cfg objs up s \<Longrightarrow> conc_reachable L K cfg objs up (conc_perform L K cfg s (Spawn op))"
| run: "conc_reachable L K cfg objs up s \<Longrightarrow> i < length (cc_threads s) \<Longrightarrow>
     conc_reachable L K cfg objs up (conc_perform L K cfg s (RunThread i))"
| others: "conc_reachable L K cfg objs up s \<Longrightarrow> up w \<Longrightarrow> leaves_objects objs (kc_Namespace cfg) (cc_world s) w \<Longrightarrow>
     conc_reachable L K cfg objs up (conc_perform L K cfg s (Others w))"

text \<open>The creations of an id that have succeeded, and an object of it that is managed and not dying.\<close>

definition created_thread :: "string \<Rightarrow> 'e thread \<Rightarrow> bool" where
  "created_thread i t \<longleftrightarrow>
     (case th_op t of OpCreate _ j \<Rightarrow> j = i | _ \<Rightarrow> False) \<and>
     (case th_pc t of Ended (Created (Inr _)) \<Rightarrow> True | _ \<Rightarrow> False)"

definition alive :: "('w \<Rightarrow> string \<Rightarrow> string \<Rightarrow> 'q pvc option) \<Rightarrow> string \<Rightarrow> 'w \<Rightarrow> string \<Rightarrow> bool" where
  "alive objs ns w i \<longleftrightarrow>
     (\<exists>p. objs w ns i = Some p \<and> pvc_DeletionTimestamp p = None \<and> isDCMManagedPVC (Some p) i)"

text \<open>Every step of a thread is a creation, touches one object for its deletion, or changes no object.\<close>

definition proper :: "'e thread \<Rightarrow> bool" where
  "proper t \<longleftrightarrow> (\<forall>n. th_pc t = AtDelete n \<longrightarrow> th_op t = OpDelete n)"

definition creates ::
  "('w \<Rightarrow> string \<Rightarrow> string \<Rightarrow> 'q pvc option) \<Rightarrow> string \<Rightarrow> store_op \<Rightarrow> 'w \<Rightarrow> 'w \<Rightarrow> bool" where
  "creates objs ns op w w' \<longleftrightarrow>
     (\<exists>spec j p. op = OpCreate spec j \<and> objs w ns j = None \<and>
        objs w' = (objs w)(ns := (objs w ns)(j := Some p)) \<and>
        pvc_DeletionTimestamp p = None \<and> isDCMManagedPVC (Some p) j)"

definition deletes ::
  "('w \<Rightarrow> string \<Rightarrow> string \<Rightarrow> 'q pvc option) \<Rightarrow> string \<Rightarrow> store_op \<Rightarrow> 'w \<Rightarrow> 'w \<Rightarrow> bool" where
  "deletes objs ns op w w' \<longleftrightarrow> (\<exists>j x. op = OpDelete j \<and> objs w' = (objs w)(ns := (objs w ns)(j := x)))"

fun reports_created :: "'e op_pc \<Rightarrow> bool" where
  "reports_created (Ended (Created (Inr _))) = True"
| "reports_created _ = False"

lemma created_thread_iff:
  "created_thread i t \<longleftrightarrow> (\<exists>spec. th_op t = OpCreate spec i) \<and> reports_created (th_pc t)"
  by (cases "th_op t"; cases "th_pc t" rule: reports_created.cases) (auto simp: created_thread_def)

context store_api
begin

lemma create_section_effect:
  fixes w :: 'w
  assumes "up w" and "create_section L K cfg spec i w = (pc, w')"
  shows "up w' \<and>
    (if reports_created pc then creates objs (kc_Namespace cfg) (OpCreate spec i) w w'
     else objs w' = objs w \<and> (\<exists>res. pc = Ended res))"
proof -
  let ?b = "buildPVC L (set_name i spec) cfg (create_labels L spec i) :: 'e store_error + 'q pvc"
  have eq: "create_section L K cfg spec i w =
      (case ?b of
         Inl err \<Rightarrow> (Ended (Created (Inl err)), w)
       | Inr pvc \<Rightarrow>
           (case PVC_Create K (kc_Namespace cfg) pvc w of
              (Inl err, w') \<Rightarrow>
                (Ended (Created (Inl
                   (if IsAlreadyExists K err
                    then ConflictError (''volume '' @ go_quote i @ '' already exists'')
                    else OtherError err))), w')
            | (Inr created, w') \<Rightarrow> (Ended (Created (Inr (buildVolume L created i))), w')))"
    by (simp add: create_section_def create_labels_def Let_def)
  show ?thesis
  proof (cases ?b)
    case (Inl e)
    then show ?thesis using assms eq by auto
  next
    case (Inr p)
    note b = buildPVC_Inr [OF Inr]
    show ?thesis
    proof (cases "PVC_Create K (kc_Namespace cfg) p w")
      case (Pair res w1)
      show ?thesis
      proof (cases res)
        case (Inl e)
        then show ?thesis using assms eq Inr Pair create_failed [OF assms(1)] by auto
      next
        case (Inr p')
        then have c: "PVC_Create K (kc_Namespace cfg) p w = (Inr p', w1)" using Pair by simp
        note d = create_done [OF assms(1) c]
        have n: "pvc_Name p = i" using b(1) by simp
        have "objs w (kc_Namespace cfg) i = None"
          using create_taken [OF assms(1), of "kc_Namespace cfg" p] c n
          by (cases "objs w (kc_Namespace cfg) i") auto
        moreover have "isDCMManagedPVC (Some p') i"
          using d by (intro created_managed [OF \<open>?b = Inr p\<close>]) blast
        moreover have "pvc_DeletionTimestamp p' = None" using d b(4) by (simp add: persisted_def)
        ultimately have "creates objs (kc_Namespace cfg) (OpCreate spec i) w w1"
          using d n by (auto simp: creates_def)
        then show ?thesis using assms(2) d eq \<open>?b = Inr p\<close> c by auto
      qed
    qed
  qed
qed

lemma delete_section_effect:
  assumes "up w" and "delete_section K cfg n w = (pc, w')"
  shows "up w' \<and> deletes objs (kc_Namespace cfg) (OpDelete n) w w' \<and> \<not> reports_created pc"
proof (cases "objs w (kc_Namespace cfg) n")
  case None
  from delete_absent [OF assms(1) None] obtain e where
    "PVC_Delete K (kc_Namespace cfg) n w = (Some e, w)" "IsNotFound K e" by blast
  then have "pc = Ended (Deleted None)" "w' = w" using assms(2) by (auto simp: delete_section_def)
  moreover have "(objs w (kc_Namespace cfg))(n := None) = objs w (kc_Namespace cfg)"
    using None by (rule fun_upd_idem)
  then have "objs w = (objs w)(kc_Namespace cfg := (objs w (kc_Namespace cfg))(n := None))" by simp
  ultimately show ?thesis using assms(1) by (auto simp: deletes_def)
next
  case (Some p)
  from delete_present [OF assms(1) Some] obtain w1 x where
    "PVC_Delete K (kc_Namespace cfg) n w = (None, w1)" "up w1"
    "objs w1 = (objs w)(kc_Namespace cfg := (objs w (kc_Namespace cfg))(n := x))" by blast
  then show ?thesis using assms(2) by (auto simp: delete_section_def deletes_def)
qed

lemma op_step_effect:
  assumes "up w" and "op_step L K cfg (th_op t) (th_pc t) w = (pc, w')" and "proper t"
  shows "up w' \<and> proper (t\<lparr>th_pc := pc\<rparr>) \<and>
    (creates objs (kc_Namespace cfg) (th_op t) w w' \<and> \<not> reports_created (th_pc t) \<and> reports_created pc \<or>
     deletes objs (kc_Namespace cfg) (th_op t) w w' \<and> \<not> reports_created pc \<or>
     objs w' = objs w \<and> (reports_created pc \<longrightarrow> reports_created (th_pc t)))"
proof -
  have create: "up w' \<and> proper (t\<lparr>th_pc := pc\<rparr>) \<and>
      (creates objs (kc_Namespace cfg) (OpCreate spec i) w w' \<and> reports_created pc \<or>
       objs w' = objs w \<and> \<not> reports_created pc)"
    if "create_section L K cfg spec i w = (pc, w')" for spec i
  proof -
    have "proper (t\<lparr>th_pc := pc\<rparr>)"
      using create_section_effect [OF assms(1) that] by (cases pc) (auto simp: proper_def split: if_splits)
    then show ?thesis using create_section_effect [OF assms(1) that] by (auto split: if_splits)
  qed
  show ?thesis
  proof (cases "th_pc t")
    case AtBegin
    then have b: "begin_section L K cfg (th_op t) w = (pc, w')" using assms(2) by simp
    show ?thesis
    proof (cases "th_op t")
      case (OpCreate spec i)
      then show ?thesis using b AtBegin create [of spec i] assms(1)
        by (auto simp: begin_section_def Let_def proper_def split: if_splits option.splits)
    next
      case (OpDelete i)
      then show ?thesis using b AtBegin assms(1) findPVC_eq [OF assms(1), of i] stored_key [of w "kc_Namespace cfg" i]
        by (auto simp: begin_section_def proper_def split: sum.splits option.splits if_splits)
    qed (use b AtBegin assms(1) in \<open>auto simp: begin_section_def proper_def\<close>)
  next
    case AtCreate
    show ?thesis
    proof (cases "th_op t")
      case (OpCreate spec i)
      then show ?thesis using AtCreate create [of spec i] assms(2) by auto
    qed (use AtCreate assms in \<open>auto simp: proper_def\<close>)
  next
    case (AtDelete n)
    then have op: "th_op t = OpDelete n" using assms(3) by (simp add: proper_def)
    have ds: "delete_section K cfg n w = (pc, w')" using assms(2) AtDelete by simp
    have "proper (t\<lparr>th_pc := pc\<rparr>)"
      using ds by (auto simp: delete_section_def proper_def split: prod.splits option.splits)
    then show ?thesis using delete_section_effect [OF assms(1) ds] op by simp
  next
    case (Ended res)
    then have "pc = th_pc t" "w' = w" using assms(2) by simp_all
    then show ?thesis using assms(1,3) by auto
  qed
qed

end

section \<open>One creation\<close>

text \<open>
  While no deletion of an id has been requested, at most one creation of it has succeeded, and then
  its object is there and managed.
\<close>

definition winners :: "string \<Rightarrow> 'e thread list \<Rightarrow> nat" where
  "winners i ts = length (filter (created_thread i) ts)"

definition conc_inv ::
  "('w \<Rightarrow> string \<Rightarrow> string \<Rightarrow> 'q pvc option) \<Rightarrow> string \<Rightarrow> string \<Rightarrow> ('w, 'e) conc \<Rightarrow> bool" where
  "conc_inv objs ns i s \<longleftrightarrow>
     winners i (cc_threads s) \<le> 1 \<and> (winners i (cc_threads s) = 1 \<longrightarrow> alive objs ns (cc_world s) i)"

lemma winners_update:
  assumes "k < length ts"
  shows "winners i (ts[k := t]) + (if created_thread i (ts ! k) then 1 else 0) =
    winners i ts + (if created_thread i t then 1 else 0)"
proof -
  have split: "ts = take k ts @ ts ! k # drop (Suc k) ts" using assms by (rule id_take_nth_drop)
  have "ts[k := t] = take k ts @ t # drop (Suc k) ts" using assms by (rule upd_conv_take_nth_drop)
  then have "winners i (ts[k := t]) = winners i (take k ts) + (if created_thread i t then 1 else 0) +
      winners i (drop (Suc k) ts)" by (simp add: winners_def)
  moreover have "winners i ts = winners i (take k ts) + (if created_thread i (ts ! k) then 1 else 0) +
      winners i (drop (Suc k) ts)" by (subst split) (simp add: winners_def)
  ultimately show ?thesis by simp
qed

lemma managed_labels: "pvc_Labels p' = pvc_Labels p \<Longrightarrow> isDCMManagedPVC (Some p') i = isDCMManagedPVC (Some p) i"
  by (simp add: isDCMManagedPVC_def)

lemma others_alive:
  "leaves_objects objs ns w w' \<Longrightarrow> alive objs ns w i \<Longrightarrow> alive objs ns w' i"
  unfolding alive_def leaves_objects_def by (metis managed_labels)

context store_api
begin

lemma conc_basic:
  "conc_reachable L K cfg objs up s \<Longrightarrow> up (cc_world s) \<and> (\<forall>t \<in> set (cc_threads s). proper t)"
proof (induction rule: conc_reachable.induct)
  case (run s k)
  let ?t = "cc_threads s ! k"
  obtain pc w where st: "op_step L K cfg (th_op ?t) (th_pc ?t) (cc_world s) = (pc, w)" by fastforce
  have "proper ?t" "up (cc_world s)" using run by simp_all
  from op_step_effect [OF this(2) st this(1)] have "up w" "proper (?t\<lparr>th_pc := pc\<rparr>)" by simp_all
  then show ?case using run.IH st set_update_subset_insert [of "cc_threads s" k "?t\<lparr>th_pc := pc\<rparr>"]
    by (auto simp: Let_def)
qed (auto simp: proper_def)

lemma run_inv:
  assumes r: "conc_reachable L K cfg objs up s" and k: "k < length (cc_threads s)"
    and inv: "conc_inv objs (kc_Namespace cfg) i s"
    and nodel: "\<forall>t \<in> set (cc_threads s). th_op t \<noteq> OpDelete i"
  shows "conc_inv objs (kc_Namespace cfg) i (conc_perform L K cfg s (RunThread k))"
proof -
  let ?t = "cc_threads s ! k" and ?ns = "kc_Namespace cfg" and ?w = "cc_world s"
  obtain pc w where st: "op_step L K cfg (th_op ?t) (th_pc ?t) ?w = (pc, w)" by fastforce
  have u: "up ?w" and p: "proper ?t" using conc_basic [OF r] k by simp_all
  have n: "th_op ?t \<noteq> OpDelete i" using nodel k by simp
  note wu = winners_update [OF k, of i "?t\<lparr>th_pc := pc\<rparr>"]
  from op_step_effect [OF u st p] consider
      (create) "creates objs ?ns (th_op ?t) ?w w" "\<not> reports_created (th_pc ?t)" "reports_created pc"
    | (delete) "deletes objs ?ns (th_op ?t) ?w w" "\<not> reports_created pc"
    | (none) "objs w = objs ?w" "reports_created pc \<longrightarrow> reports_created (th_pc ?t)" by blast
  then have "winners i ((cc_threads s)[k := ?t\<lparr>th_pc := pc\<rparr>]) \<le> 1 \<and>
      (winners i ((cc_threads s)[k := ?t\<lparr>th_pc := pc\<rparr>]) = 1 \<longrightarrow> alive objs ?ns w i)"
  proof cases
    case create
    then obtain spec j q where c: "th_op ?t = OpCreate spec j" "objs ?w ?ns j = None"
      "objs w = (objs ?w)(?ns := (objs ?w ?ns)(j := Some q))" "pvc_DeletionTimestamp q = None"
      "isDCMManagedPVC (Some q) j" by (auto simp: creates_def)
    show ?thesis
    proof (cases "j = i")
      case True
      then have "\<not> alive objs ?ns ?w i" using c(2) by (simp add: alive_def)
      then have "winners i (cc_threads s) = 0" using inv by (auto simp: conc_inv_def)
      then show ?thesis using wu c True create by (simp add: created_thread_iff alive_def)
    next
      case False
      then have "alive objs ?ns w i \<longleftrightarrow> alive objs ?ns ?w i" using c(3) by (simp add: alive_def)
      then show ?thesis using wu c(1) False inv by (simp add: created_thread_iff conc_inv_def)
    qed
  next
    case delete
    then obtain j x where d: "th_op ?t = OpDelete j" "objs w = (objs ?w)(?ns := (objs ?w ?ns)(j := x))"
      by (auto simp: deletes_def)
    then have "j \<noteq> i" using n by auto
    then have "alive objs ?ns w i \<longleftrightarrow> alive objs ?ns ?w i" using d(2) by (simp add: alive_def)
    then show ?thesis using wu d(1) inv by (simp add: created_thread_iff conc_inv_def)
  next
    case none
    then have "alive objs ?ns w i \<longleftrightarrow> alive objs ?ns ?w i" by (simp add: alive_def)
    then show ?thesis using wu none(2) inv by (auto simp: created_thread_iff conc_inv_def split: if_splits)
  qed
  then show ?thesis using st by (simp add: conc_inv_def Let_def)
qed

lemma conc_reachable_inv:
  "conc_reachable L K cfg objs up s \<Longrightarrow> \<forall>t \<in> set (cc_threads s). th_op t \<noteq> OpDelete i \<Longrightarrow>
   conc_inv objs (kc_Namespace cfg) i s"
proof (induction rule: conc_reachable.induct)
  case (start w)
  then show ?case by (simp add: conc_inv_def winners_def)
next
  case (spawn s op)
  then show ?case by (simp add: conc_inv_def winners_def created_thread_def)
next
  case (run s k)
  obtain pc w where "op_step L K cfg (th_op (cc_threads s ! k)) (th_pc (cc_threads s ! k)) (cc_world s) = (pc, w)"
    by fastforce
  then have ops: "map th_op (cc_threads (conc_perform L K cfg s (RunThread k))) = map th_op (cc_threads s)"
    using run.hyps(2) by (simp add: Let_def map_update) (metis list_update_id nth_map)
  have "\<forall>op \<in> set (map th_op (cc_threads s)). op \<noteq> OpDelete i"
    using run.prems unfolding ops [symmetric] by simp
  then have "\<forall>t \<in> set (cc_threads s). th_op t \<noteq> OpDelete i" by simp
  then show ?case using run_inv [OF run.hyps(1,2)] run.IH by blast
next
  case (others s w)
  then show ?case using others_alive by (fastforce simp: conc_inv_def)
qed

end

context store_api
begin

lemma alive_found:
  assumes "up w" and "alive objs (kc_Namespace cfg) w i"
  shows "\<exists>v. K8s_Get L K cfg i w = Inr v \<and> vol_Id v = Some i"
    and "\<not> reports_created (fst (create_section L K cfg spec i w))"
proof -
  obtain p where p: "objs w (kc_Namespace cfg) i = Some p" "isDCMManagedPVC (Some p) i"
    using assms(2) by (auto simp: alive_def)
  then show "\<exists>v. K8s_Get L K cfg i w = Inr v \<and> vol_Id v = Some i"
    using findPVC_eq [OF assms(1), of i] by (simp add: K8s_Get_def buildVolume_def)
  show "\<not> reports_created (fst (create_section L K cfg spec i w))"
    using create_section_effect [OF assms(1), of spec i] p(1)
    by (cases "create_section L K cfg spec i w") (auto simp: creates_def split: if_splits)
qed

text \<open>The winner's volume can be read, and whoever else creates it now is refused.\<close>

lemma one_winner:
  assumes "conc_reachable L K cfg objs up s" and "\<forall>t \<in> set (cc_threads s). th_op t \<noteq> OpDelete i"
  shows "winners i (cc_threads s) \<le> 1"
    and "winners i (cc_threads s) = 1 \<Longrightarrow>
      (\<exists>v. K8s_Get L K cfg i (cc_world s) = Inr v \<and> vol_Id v = Some i) \<and>
      \<not> reports_created (fst (create_section L K cfg spec i (cc_world s)))"
proof -
  have inv: "conc_inv objs (kc_Namespace cfg) i s" by (rule conc_reachable_inv [OF assms])
  then show "winners i (cc_threads s) \<le> 1" by (simp add: conc_inv_def)
  assume "winners i (cc_threads s) = 1"
  with inv have "alive objs (kc_Namespace cfg) (cc_world s) i" by (simp add: conc_inv_def)
  with conc_basic [OF assms(1)] alive_found show
    "(\<exists>v. K8s_Get L K cfg i (cc_world s) = Inr v \<and> vol_Id v = Some i) \<and>
     \<not> reports_created (fst (create_section L K cfg spec i (cc_world s)))" by blast
qed

end

section \<open>Runs\<close>

fun conc_run ::
  "'q klib \<Rightarrow> ('w, 'e, 'q) kube \<Rightarrow> K8sConfig \<Rightarrow> ('w, 'e) conc \<Rightarrow> 'w conc_label list \<Rightarrow> ('w, 'e) conc option" where
  "conc_run L K cfg s [] = Some s"
| "conc_run L K cfg s (l # ls) =
     (if (case l of Spawn _ \<Rightarrow> True | RunThread k \<Rightarrow> k < length (cc_threads s) | Others _ \<Rightarrow> False)
      then conc_run L K cfg (conc_perform L K cfg s l) ls else None)"

lemma conc_run_reachable:
  "conc_reachable L K cfg objs up s \<Longrightarrow> conc_run L K cfg s ls = Some t \<Longrightarrow> conc_reachable L K cfg objs up t"
proof (induction ls arbitrary: s)
  case Nil
  then show ?case by simp
next
  case (Cons l ls)
  have "conc_reachable L K cfg objs up (conc_perform L K cfg s l)"
    using Cons.prems conc_reachable.spawn conc_reachable.run
    by (cases l) (auto simp del: conc_perform.simps split: if_splits)
  with Cons show ?case by (auto simp del: conc_perform.simps split: if_splits)
qed

end
