(* ===== verification/Publisher.thy ===== *)
theory Publisher
  imports Api_Types
begin

text \<open>
  Status events and their publication: \<^verbatim>\<open>internal/monitoring/publisher.go\<close> and
  \<^verbatim>\<open>internal/monitoring/event.go\<close>. The CloudEvents SDK and the NATS connection are parameters.
\<close>

section \<open>Events\<close>

record StatusEvent =
  ev_InstanceID :: string
  ev_Status :: StorageStatus
  ev_Message :: string

definition zero_event :: StatusEvent where
  "zero_event = \<lparr>ev_InstanceID = '''', ev_Status = '''', ev_Message = ''''\<rparr>"

record statusEventData =
  sd_ID :: string
  sd_Status :: string
  sd_Message :: string

section \<open>The CloudEvents SDK\<close>

text \<open>
  The part of the SDK that the code calls. \<open>'c\<close> is the type of its events. \<open>ce_attribute\<close> and
  \<open>ce_data\<close> are what a consumer reads of an event.
\<close>

record 'c ce_sdk =
  ce_NewEvent :: 'c
  ce_SetID :: "string \<Rightarrow> 'c \<Rightarrow> 'c"
  ce_SetSource :: "string \<Rightarrow> 'c \<Rightarrow> 'c"
  ce_SetType :: "string \<Rightarrow> 'c \<Rightarrow> 'c"
  ce_SetSubject :: "string \<Rightarrow> 'c \<Rightarrow> 'c"
  ce_SetTime :: "gotime \<Rightarrow> 'c \<Rightarrow> 'c"
  ce_SetData :: "string \<Rightarrow> statusEventData \<Rightarrow> 'c \<Rightarrow> string + 'c"
  ce_MarshalJSON :: "'c \<Rightarrow> string + string"
  ce_attribute :: "'c \<Rightarrow> string \<Rightarrow> string option"
  ce_data :: "'c \<Rightarrow> statusEventData option"
  ce_Unmarshal :: "string \<Rightarrow> 'c option"

text \<open>
  The SDK as documented: a new event has specification version 1.0, a setter sets its
  attribute and nothing else, \<^verbatim>\<open>SetData\<close> sets the payload and its content type, and what is
  marshalled is read back as the same event.
\<close>

locale cloudevents_sdk =
  fixes S :: "'c ce_sdk"
  assumes new_event: "ce_attribute S (ce_NewEvent S) ''specversion'' = Some ''1.0''"
    and set_id: "ce_attribute S (ce_SetID S x c) = (ce_attribute S c)(''id'' \<mapsto> x)"
    and set_source: "ce_attribute S (ce_SetSource S x c) = (ce_attribute S c)(''source'' \<mapsto> x)"
    and set_type: "ce_attribute S (ce_SetType S x c) = (ce_attribute S c)(''type'' \<mapsto> x)"
    and set_subject: "ce_attribute S (ce_SetSubject S x c) = (ce_attribute S c)(''subject'' \<mapsto> x)"
    and set_time: "k \<noteq> ''time'' \<Longrightarrow> ce_attribute S (ce_SetTime S t c) k = ce_attribute S c k"
    and set_data: "ce_SetData S ty d c = Inr c' \<Longrightarrow>
      ce_attribute S c' = (ce_attribute S c)(''datacontenttype'' \<mapsto> ty) \<and> ce_data S c' = Some d"
    and unmarshal: "ce_MarshalJSON S c = Inr bytes \<Longrightarrow> ce_Unmarshal S bytes = Some c"

definition NewStatusCloudEvent ::
  "'c ce_sdk \<Rightarrow> string \<Rightarrow> gotime \<Rightarrow> string \<Rightarrow> string \<Rightarrow> string \<Rightarrow> StorageStatus \<Rightarrow> string \<Rightarrow>
     string + string" where
  "NewStatusCloudEvent S uuid now subject providerName instanceID status message =
     (let event = ce_NewEvent S;
          event = ce_SetID S uuid event;
          event = ce_SetSource S (''dcm/providers/'' @ providerName) event;
          event = ce_SetType S ''dcm.status.storage'' event;
          event = ce_SetSubject S subject event;
          event = ce_SetTime S now event
      in case ce_SetData S ''application/json''
                \<lparr>sd_ID = instanceID, sd_Status = status, sd_Message = message\<rparr> event of
           Inl err \<Rightarrow> Inl (''setting cloud event data: '' @ err)
         | Inr event \<Rightarrow>
             (case ce_MarshalJSON S event of
                Inl err \<Rightarrow> Inl (''marshaling cloud event: '' @ err)
              | Inr data \<Rightarrow> Inr data))"

context cloudevents_sdk
begin

text \<open>What a consumer of the bytes reads.\<close>

lemma NewStatusCloudEvent_read:
  assumes "NewStatusCloudEvent S uuid now subject provider i st msg = Inr bytes"
  shows "\<exists>c. ce_Unmarshal S bytes = Some c \<and>
    ce_attribute S c ''specversion'' = Some ''1.0'' \<and>
    ce_attribute S c ''id'' = Some uuid \<and>
    ce_attribute S c ''source'' = Some (''dcm/providers/'' @ provider) \<and>
    ce_attribute S c ''type'' = Some ''dcm.status.storage'' \<and>
    ce_attribute S c ''subject'' = Some subject \<and>
    ce_attribute S c ''datacontenttype'' = Some ''application/json'' \<and>
    ce_data S c = Some \<lparr>sd_ID = i, sd_Status = st, sd_Message = msg\<rparr>"
  using assms
  by (auto simp: NewStatusCloudEvent_def Let_def set_id set_source set_type set_subject set_time
      new_event dest!: set_data unmarshal split: sum.splits)

end

section \<open>The NATS publisher\<close>

text \<open>
  \<open>nats_Publish\<close> sends bytes to a subject and returns an error or nothing; \<open>ctx_Err\<close> is the
  context's error at the first and at the second check of \<^verbatim>\<open>Publish\<close>.
\<close>

record NATSPublisher =
  np_providerName :: string
  np_subject :: string

text \<open>The options of the connection; its two handlers log and do nothing else.\<close>

record nats_options =
  no_MaxReconnects :: int
  no_ReconnectWait :: duration
  no_RetryOnFailedConnect :: bool

definition NewNATSPublisher ::
  "(string \<Rightarrow> nats_options \<Rightarrow> string option) \<Rightarrow> string \<Rightarrow> string \<Rightarrow> string + NATSPublisher" where
  "NewNATSPublisher nats_Connect natsURL providerName =
     (case nats_Connect natsURL
             \<lparr>no_MaxReconnects = - 1, no_ReconnectWait = 2 * Second, no_RetryOnFailedConnect = True\<rparr> of
        Some err \<Rightarrow> Inl (''connecting to NATS at '' @ natsURL @ '': '' @ err)
      | None \<Rightarrow> Inr \<lparr>np_providerName = providerName, np_subject = ''dcm.storage''\<rparr>)"

definition NATS_Publish ::
  "'c ce_sdk \<Rightarrow> (string \<Rightarrow> string \<Rightarrow> string option) \<Rightarrow> string \<Rightarrow> gotime \<Rightarrow>
     string option \<times> string option \<Rightarrow> NATSPublisher \<Rightarrow> StatusEvent \<Rightarrow> string option" where
  "NATS_Publish S nats_Publish uuid now ctx_Err p event =
     (case fst ctx_Err of
        Some err \<Rightarrow> Some err
      | None \<Rightarrow>
          (case NewStatusCloudEvent S uuid now (np_subject p) (np_providerName p)
                  (ev_InstanceID event) (ev_Status event) (ev_Message event) of
             Inl err \<Rightarrow> Some (''constructing cloud event: '' @ err)
           | Inr data \<Rightarrow>
               (case snd ctx_Err of
                  Some err \<Rightarrow> Some err
                | None \<Rightarrow> nats_Publish (np_subject p) data)))"

text \<open>\<open>conn_Close\<close> is the effect of closing the connection.\<close>

definition NATS_Close :: "('w \<Rightarrow> 'w) \<Rightarrow> 'w \<Rightarrow> string option \<times> 'w" where
  "NATS_Close conn_Close w = (None, conn_Close w)"

context cloudevents_sdk
begin

text \<open>A publication that reports success has handed NATS an event with the attributes required.\<close>

lemma NATS_Publish_sent:
  assumes "NewNATSPublisher conn url provider = Inr p"
    and "NATS_Publish S send uuid now ctx_Err p event = None"
  shows "\<exists>bytes c. send ''dcm.storage'' bytes = None \<and> ce_Unmarshal S bytes = Some c \<and>
    map (ce_attribute S c) [''specversion'', ''id'', ''source'', ''type'', ''subject'', ''datacontenttype''] =
      [Some ''1.0'', Some uuid, Some (''dcm/providers/'' @ provider), Some ''dcm.status.storage'',
       Some ''dcm.storage'', Some ''application/json''] \<and>
    ce_data S c = Some \<lparr>sd_ID = ev_InstanceID event, sd_Status = ev_Status event,
                         sd_Message = ev_Message event\<rparr>"
proof -
  have p: "np_subject p = ''dcm.storage''" "np_providerName p = provider"
    using assms(1) by (auto simp: NewNATSPublisher_def split: option.splits)
  from assms(2) obtain bytes where
    b: "NewStatusCloudEvent S uuid now ''dcm.storage'' provider (ev_InstanceID event) (ev_Status event)
          (ev_Message event) = Inr bytes" and s: "send ''dcm.storage'' bytes = None"
    by (auto simp: NATS_Publish_def p split: option.splits sum.splits)
  from NewStatusCloudEvent_read [OF b] s show ?thesis by fastforce
qed

end

section \<open>A concrete SDK\<close>

text \<open>
  An event as the list of its attributes and its payload: the instance of the interface at
  which the theorems above are applied. Marshalling writes the length of each field in unary
  before the field.
\<close>

record ref_ce =
  rc_attrs :: "(string \<times> string) list"
  rc_data :: "statusEventData option"

definition put_string :: "string \<Rightarrow> string" where
  "put_string s = replicate (length s) CHR ''1'' @ ''0'' @ s"

definition get_string :: "string \<Rightarrow> string \<times> string" where
  "get_string b =
     (let n = length (takeWhile (\<lambda>c. c = CHR ''1'') b); r = drop (Suc n) b in (take n r, drop n r))"

lemma get_put_string [simp]: "get_string (put_string s @ r) = (s, r)"
proof -
  have "takeWhile (\<lambda>c. c = CHR ''1'') (put_string s @ r) = replicate (length s) CHR ''1''"
    unfolding put_string_def by (subst append_assoc, subst takeWhile_append2) auto
  then show ?thesis by (simp add: get_string_def put_string_def Let_def)
qed

fun put_attrs :: "(string \<times> string) list \<Rightarrow> string" where
  "put_attrs [] = ''.''"
| "put_attrs ((k, v) # xs) = '','' @ put_string k @ put_string v @ put_attrs xs"

fun get_attrs :: "nat \<Rightarrow> string \<Rightarrow> (string \<times> string) list \<times> string" where
  "get_attrs 0 b = ([], b)"
| "get_attrs (Suc n) b =
     (if take 1 b = '','' then
        (let (k, b) = get_string (drop 1 b); (v, b) = get_string b; (xs, b) = get_attrs n b
         in ((k, v) # xs, b))
      else ([], drop 1 b))"

lemma get_put_attrs: "length xs < n \<Longrightarrow> get_attrs n (put_attrs xs @ r) = (xs, r)"
proof (induction xs arbitrary: n)
  case Nil
  then show ?case by (cases n) auto
next
  case (Cons x xs)
  then show ?case by (cases n; cases x) auto
qed

lemma length_put_attrs: "length xs < length (put_attrs xs)"
  by (induction xs rule: put_attrs.induct) auto

definition ref_marshal :: "ref_ce \<Rightarrow> string" where
  "ref_marshal c = put_attrs (rc_attrs c) @
     (case rc_data c of None \<Rightarrow> ''''
      | Some d \<Rightarrow> put_string (sd_ID d) @ put_string (sd_Status d) @ put_string (sd_Message d))"

definition ref_unmarshal :: "string \<Rightarrow> ref_ce" where
  "ref_unmarshal b =
     (let (attrs, b) = get_attrs (length b) b in
      \<lparr>rc_attrs = attrs,
       rc_data = (if b = '''' then None
         else (let (i, b) = get_string b; (st, b) = get_string b; (m, b) = get_string b
               in Some \<lparr>sd_ID = i, sd_Status = st, sd_Message = m\<rparr>))\<rparr>)"

lemma ref_unmarshal_marshal: "ref_unmarshal (ref_marshal c) = c"
proof -
  have "length (rc_attrs c) < length (ref_marshal c)"
    using length_put_attrs [of "rc_attrs c"] by (simp add: ref_marshal_def)
  note a = get_put_attrs [OF this]
  show ?thesis
  proof (cases "rc_data c")
    case None
    then show ?thesis using a [of "''''"] by (simp add: ref_unmarshal_def ref_marshal_def)
  next
    case (Some d)
    have "put_string x @ y \<noteq> ''''" for x y by (simp add: put_string_def)
    then show ?thesis
      using a [of "put_string (sd_ID d) @ put_string (sd_Status d) @ put_string (sd_Message d)"]
        get_put_string [of "sd_Message d" "''''"] Some
      by (simp add: ref_unmarshal_def ref_marshal_def Let_def)
  qed
qed

definition ref_set :: "string \<Rightarrow> string \<Rightarrow> ref_ce \<Rightarrow> ref_ce" where
  "ref_set k v c = c\<lparr>rc_attrs := (k, v) # rc_attrs c\<rparr>"

definition ref_sdk :: "ref_ce ce_sdk" where
  "ref_sdk =
     \<lparr>ce_NewEvent = \<lparr>rc_attrs = [(''specversion'', ''1.0'')], rc_data = None\<rparr>,
      ce_SetID = ref_set ''id'', ce_SetSource = ref_set ''source'', ce_SetType = ref_set ''type'',
      ce_SetSubject = ref_set ''subject'', ce_SetTime = (\<lambda>t. ref_set ''time'' (show_int t)),
      ce_SetData = (\<lambda>ty d c. Inr ((ref_set ''datacontenttype'' ty c)\<lparr>rc_data := Some d\<rparr>)),
      ce_MarshalJSON = (\<lambda>c. Inr (ref_marshal c)),
      ce_attribute = (\<lambda>c. map_of (rc_attrs c)),
      ce_data = rc_data,
      ce_Unmarshal = (\<lambda>b. Some (ref_unmarshal b))\<rparr>"

interpretation ref_ce: cloudevents_sdk ref_sdk
  by unfold_locales (auto simp: ref_sdk_def ref_set_def ref_unmarshal_marshal)

end
