(* ===== verification/Debouncer.thy ===== *)
theory Debouncer
  imports Publisher "HOL-Library.Multiset" "HOL-Library.AList"
begin

text \<open>
  The debouncer (\<^verbatim>\<open>internal/monitoring/debouncer.go\<close>). Its critical sections under \<^verbatim>\<open>d.mu\<close> are
  functions on its state: \<open>Submit\<close>, \<open>callback_section\<close> (the locked part of the timer's closure)
  and \<open>Stop_section\<close>. A timer carries the control state of the goroutine its closure runs in:
  armed, started and not yet holding the lock, calling \<^verbatim>\<open>publishFn\<close>, over. \<open>deb_step\<close>
  interleaves them with the clock, the expiry of timers, the submissions of clients and \<^verbatim>\<open>Stop\<close>.
\<close>

section \<open>State\<close>

datatype phase = Armed | Fired | Stopped | Publishing StatusEvent | Finished

text \<open>\<open>tm_instance\<close> and \<open>tm_ver\<close> are the variables the closure of \<^verbatim>\<open>time.AfterFunc\<close> captured.\<close>

record timer =
  tm_instance :: string
  tm_ver :: uint64
  tm_due :: gotime
  tm_phase :: phase

text \<open>
  The map \<^verbatim>\<open>d.instances\<close> is an association list with distinct keys. \<open>is_timer\<close> is an index
  into the debouncer's timers, \<open>None\<close> the nil pointer.
\<close>

record instanceState =
  is_timer :: "nat option"
  is_pending :: StatusEvent
  is_ver :: uint64

record Debouncer =
  db_interval :: duration
  db_wg :: nat
  db_instances :: "(string \<times> instanceState) list"
  db_stopped :: bool
  db_timers :: "timer list"

definition NewDebouncer :: "duration \<Rightarrow> Debouncer" where
  "NewDebouncer interval =
     \<lparr>db_interval = interval, db_wg = 0, db_instances = [], db_stopped = False, db_timers = []\<rparr>"

section \<open>Operations\<close>

definition set_phase :: "nat \<Rightarrow> phase \<Rightarrow> timer list \<Rightarrow> timer list" where
  "set_phase t ph ts = ts[t := (ts ! t)\<lparr>tm_phase := ph\<rparr>]"

text \<open>\<^verbatim>\<open>Timer.Stop\<close> prevents a timer from firing; one that has fired runs on.\<close>

definition Timer_Stop :: "nat option \<Rightarrow> timer list \<Rightarrow> timer list" where
  "Timer_Stop tm ts =
     (case tm of None \<Rightarrow> ts
      | Some t \<Rightarrow> if t < length ts \<and> tm_phase (ts ! t) = Armed then set_phase t Stopped ts else ts)"

definition Submit :: "gotime \<Rightarrow> string \<Rightarrow> StatusEvent \<Rightarrow> Debouncer \<Rightarrow> Debouncer" where
  "Submit now instanceID event d =
     (if db_stopped d then d
      else
        (let state = (case map_of (db_instances d) instanceID of
                Some st \<Rightarrow> st
              | None \<Rightarrow> \<lparr>is_timer = None, is_pending = zero_event, is_ver = 0\<rparr>);
             ver = is_ver state + 1;
             timers = Timer_Stop (is_timer state) (db_timers d)
         in d\<lparr>db_instances := AList.update instanceID
                \<lparr>is_timer = Some (length timers), is_pending = event, is_ver = ver\<rparr> (db_instances d),
              db_timers := timers @ [\<lparr>tm_instance = instanceID, tm_ver = ver,
                tm_due = now + db_interval d, tm_phase = Armed\<rparr>]\<rparr>))"

definition callback_section :: "nat \<Rightarrow> Debouncer \<Rightarrow> Debouncer" where
  "callback_section t d =
     (let tm = db_timers d ! t;
          return = d\<lparr>db_timers := set_phase t Finished (db_timers d)\<rparr>
      in if db_stopped d then return
         else
           (case map_of (db_instances d) (tm_instance tm) of
              None \<Rightarrow> return
            | Some cur \<Rightarrow>
                if is_ver cur \<noteq> tm_ver tm then return
                else
                  d\<lparr>db_instances := AList.delete (tm_instance tm) (db_instances d),
                    db_wg := db_wg d + 1,
                    db_timers := set_phase t (Publishing (is_pending cur)) (db_timers d)\<rparr>))"

definition callback_done :: "nat \<Rightarrow> Debouncer \<Rightarrow> Debouncer" where
  "callback_done t d = d\<lparr>db_wg := db_wg d - 1, db_timers := set_phase t Finished (db_timers d)\<rparr>"

text \<open>The loop of \<^verbatim>\<open>Stop\<close> over \<^verbatim>\<open>d.instances\<close>; the first argument is the order of the range.\<close>

fun Stop_loop :: "string list \<Rightarrow> Debouncer \<Rightarrow> Debouncer \<times> StatusEvent list" where
  "Stop_loop [] d = (d, [])"
| "Stop_loop (i # is) d =
     (case map_of (db_instances d) i of
        None \<Rightarrow> Stop_loop is d
      | Some state \<Rightarrow>
          (let (d', toFlush) = Stop_loop is
                 (d\<lparr>db_timers := Timer_Stop (is_timer state) (db_timers d),
                    db_instances := AList.delete i (db_instances d)\<rparr>)
           in (d', is_pending state # toFlush)))"

definition Stop_section :: "string list \<Rightarrow> Debouncer \<Rightarrow> Debouncer \<times> StatusEvent list" where
  "Stop_section order d =
     (let (d', toFlush) = Stop_loop order (d\<lparr>db_stopped := True\<rparr>)
      in (d'\<lparr>db_wg := db_wg d' + length toFlush\<rparr>, toFlush))"

section \<open>Executions\<close>

text \<open>
  \<open>sy_stop\<close> is where the one call of \<^verbatim>\<open>Stop\<close> is: not begun, flushing the listed events, or
  returned. \<open>sy_out\<close> are the calls of \<^verbatim>\<open>publishFn\<close> that returned, in order. \<open>sy_accepted\<close> and
  \<open>sy_superseded\<close> only record the history: the submissions taken before \<^verbatim>\<open>Stop\<close>, and the pending
  events a later submission replaced. \<open>sy_last\<close> is the last submission of each instance.
\<close>

datatype stop_pc = Running | Flushing "StatusEvent list" | Returned

record deb_sys =
  sy_d :: Debouncer
  sy_now :: gotime
  sy_stop :: stop_pc
  sy_out :: "StatusEvent list"
  sy_accepted :: "StatusEvent multiset"
  sy_superseded :: "StatusEvent multiset"
  sy_last :: "string \<rightharpoonup> gotime \<times> StatusEvent"

definition deb_init :: "duration \<Rightarrow> gotime \<Rightarrow> deb_sys" where
  "deb_init interval now =
     \<lparr>sy_d = NewDebouncer interval, sy_now = now, sy_stop = Running, sy_out = [],
      sy_accepted = {#}, sy_superseded = {#}, sy_last = (\<lambda>_. None)\<rparr>"

definition sys_submit :: "string \<Rightarrow> StatusEvent \<Rightarrow> deb_sys \<Rightarrow> deb_sys" where
  "sys_submit i event s =
     (if db_stopped (sy_d s) then s
      else s\<lparr>sy_d := Submit (sy_now s) i event (sy_d s),
             sy_accepted := add_mset event (sy_accepted s),
             sy_superseded := (case map_of (db_instances (sy_d s)) i of
                 None \<Rightarrow> sy_superseded s
               | Some st \<Rightarrow> add_mset (is_pending st) (sy_superseded s)),
             sy_last := (sy_last s)(i \<mapsto> (sy_now s, event))\<rparr>)"

datatype label = Tick gotime | Submits string StatusEvent | Fires nat | Locks nat | Returns nat
  | Stops "string list" | Flushes | Waits

fun enabled :: "deb_sys \<Rightarrow> label \<Rightarrow> bool" where
  "enabled s (Tick now) = (sy_now s \<le> now)"
| "enabled s (Submits i event) = True"
| "enabled s (Fires t) =
     (t < length (db_timers (sy_d s)) \<and> tm_phase (db_timers (sy_d s) ! t) = Armed \<and>
      tm_due (db_timers (sy_d s) ! t) \<le> sy_now s)"
| "enabled s (Locks t) =
     (t < length (db_timers (sy_d s)) \<and> tm_phase (db_timers (sy_d s) ! t) = Fired)"
| "enabled s (Returns t) =
     (t < length (db_timers (sy_d s)) \<and>
      (case tm_phase (db_timers (sy_d s) ! t) of Publishing _ \<Rightarrow> True | _ \<Rightarrow> False))"
| "enabled s (Stops order) =
     (sy_stop s = Running \<and> mset order = mset (map fst (db_instances (sy_d s))))"
| "enabled s Flushes = (case sy_stop s of Flushing (_ # _) \<Rightarrow> True | _ \<Rightarrow> False)"
| "enabled s Waits = (sy_stop s = Flushing [] \<and> db_wg (sy_d s) = 0)"

fun perform :: "deb_sys \<Rightarrow> label \<Rightarrow> deb_sys" where
  "perform s (Tick now) = s\<lparr>sy_now := now\<rparr>"
| "perform s (Submits i event) = sys_submit i event s"
| "perform s (Fires t) =
     s\<lparr>sy_d := (sy_d s)\<lparr>db_timers := set_phase t Fired (db_timers (sy_d s))\<rparr>\<rparr>"
| "perform s (Locks t) = s\<lparr>sy_d := callback_section t (sy_d s)\<rparr>"
| "perform s (Returns t) =
     (case tm_phase (db_timers (sy_d s) ! t) of
        Publishing event \<Rightarrow> s\<lparr>sy_out := sy_out s @ [event], sy_d := callback_done t (sy_d s)\<rparr>
      | _ \<Rightarrow> s)"
| "perform s (Stops order) =
     (let (d, toFlush) = Stop_section order (sy_d s) in s\<lparr>sy_d := d, sy_stop := Flushing toFlush\<rparr>)"
| "perform s Flushes =
     (case sy_stop s of
        Flushing (event # rest) \<Rightarrow>
          s\<lparr>sy_out := sy_out s @ [event], sy_stop := Flushing rest,
            sy_d := (sy_d s)\<lparr>db_wg := db_wg (sy_d s) - 1\<rparr>\<rparr>
      | _ \<Rightarrow> s)"
| "perform s Waits = s\<lparr>sy_stop := Returned\<rparr>"

inductive deb_step :: "deb_sys \<Rightarrow> label \<Rightarrow> deb_sys \<Rightarrow> bool" where
  step: "enabled s l \<Longrightarrow> deb_step s l (perform s l)"

inductive deb_reachable :: "duration \<Rightarrow> gotime \<Rightarrow> deb_sys \<Rightarrow> bool" for interval start where
  init: "deb_reachable interval start (deb_init interval start)"
| step: "deb_reachable interval start s \<Longrightarrow> deb_step s l t \<Longrightarrow> deb_reachable interval start t"

inductive_cases deb_stepE: "deb_step s l t"
inductive_simps deb_step_iff: "deb_step s l t"

text \<open>An execution along a list of labels, for concrete runs.\<close>

fun perform_all :: "deb_sys \<Rightarrow> label list \<Rightarrow> deb_sys option" where
  "perform_all s [] = Some s"
| "perform_all s (l # ls) = (if enabled s l then perform_all (perform s l) ls else None)"

lemma perform_all_reachable:
  "deb_reachable iv st s \<Longrightarrow> perform_all s ls = Some t \<Longrightarrow> deb_reachable iv st t"
  by (induction ls arbitrary: s) (auto intro: deb_reachable.step deb_step.intros split: if_splits)

section \<open>Facts about the data\<close>

lemma mset_alist_delete:
  "distinct (map fst xs) \<Longrightarrow> map_of xs k = Some v \<Longrightarrow>
   mset xs = add_mset (k, v) (mset (AList.delete k xs))"
proof (induction xs)
  case Nil
  then show ?case by simp
next
  case (Cons x xs)
  have "AList.delete k xs = xs" if "fst x = k"
    using that Cons.prems(1) by (intro delete_id) auto
  with Cons show ?case by (cases x) (auto split: if_splits)
qed

lemma mset_alist_update:
  "distinct (map fst xs) \<Longrightarrow>
   mset (AList.update k v xs) = add_mset (k, v) (mset (AList.delete k xs))"
proof (induction xs)
  case Nil
  then show ?case by simp
next
  case (Cons x xs)
  have "AList.delete k xs = xs" if "fst x = k"
    using that Cons.prems by (intro delete_id) auto
  with Cons show ?case by (cases x) auto
qed

definition pendings :: "(string \<times> instanceState) list \<Rightarrow> StatusEvent multiset" where
  "pendings is = image_mset (\<lambda>(i, st). is_pending st) (mset is)"

fun published_by :: "phase \<Rightarrow> StatusEvent multiset" where
  "published_by (Publishing e) = {#e#}"
| "published_by _ = {#}"

definition in_flight :: "timer list \<Rightarrow> StatusEvent multiset" where
  "in_flight ts = (\<Sum>t\<leftarrow>ts. published_by (tm_phase t))"

fun flushing :: "stop_pc \<Rightarrow> StatusEvent list" where
  "flushing (Flushing es) = es"
| "flushing _ = []"

lemma pendings_update:
  "distinct (map fst is) \<Longrightarrow>
   pendings (AList.update i st is) = add_mset (is_pending st) (pendings (AList.delete i is))"
  by (simp add: pendings_def mset_alist_update)

lemma pendings_delete:
  "distinct (map fst is) \<Longrightarrow> map_of is i = Some st \<Longrightarrow>
   pendings is = add_mset (is_pending st) (pendings (AList.delete i is))"
  by (simp add: pendings_def mset_alist_delete)

lemma delete_absent: "map_of xs k = None \<Longrightarrow> AList.delete k xs = xs"
  by (intro delete_id) (simp add: map_of_eq_None_iff)

lemma set_phase_simps [simp]:
  "length (set_phase t ph ts) = length ts"
  "t < length ts \<Longrightarrow> set_phase t ph ts ! t = (ts ! t)\<lparr>tm_phase := ph\<rparr>"
  "u \<noteq> t \<Longrightarrow> set_phase t ph ts ! u = ts ! u"
  by (simp_all add: set_phase_def)

lemma set_phase_keeps [simp]:
  "u < length ts \<Longrightarrow> tm_instance (set_phase t ph ts ! u) = tm_instance (ts ! u)"
  "u < length ts \<Longrightarrow> tm_ver (set_phase t ph ts ! u) = tm_ver (ts ! u)"
  "u < length ts \<Longrightarrow> tm_due (set_phase t ph ts ! u) = tm_due (ts ! u)"
  by (cases "u = t"; simp)+

lemma in_flight_set_phase:
  assumes "t < length ts"
  shows "in_flight (set_phase t ph ts) + published_by (tm_phase (ts ! t)) =
    in_flight ts + published_by ph"
proof -
  have u: "set_phase t ph ts = take t ts @ (ts ! t)\<lparr>tm_phase := ph\<rparr> # drop (Suc t) ts"
    using assms by (simp add: set_phase_def upd_conv_take_nth_drop)
  have "in_flight ts = in_flight (take t ts @ ts ! t # drop (Suc t) ts)"
    using id_take_nth_drop [OF assms] by simp
  then show ?thesis by (simp add: u in_flight_def)
qed

lemma in_flight_quiet:
  "t < length ts \<Longrightarrow> published_by (tm_phase (ts ! t)) = {#} \<Longrightarrow> published_by ph = {#} \<Longrightarrow>
   in_flight (set_phase t ph ts) = in_flight ts"
  using in_flight_set_phase [of t ts ph] by simp

lemma Timer_Stop_simps [simp]:
  "length (Timer_Stop tm ts) = length ts"
  "in_flight (Timer_Stop tm ts) = in_flight ts"
  by (auto simp: Timer_Stop_def in_flight_quiet split: option.splits)

lemma Timer_Stop_other [simp]: "tm \<noteq> Some u \<Longrightarrow> Timer_Stop tm ts ! u = ts ! u"
  by (cases tm) (auto simp: Timer_Stop_def)

lemma Timer_Stop_keeps [simp]:
  "u < length ts \<Longrightarrow> tm_instance (Timer_Stop tm ts ! u) = tm_instance (ts ! u)"
  "u < length ts \<Longrightarrow> tm_due (Timer_Stop tm ts ! u) = tm_due (ts ! u)"
  by (auto simp: Timer_Stop_def split: option.splits)

lemma Timer_Stop_phase:
  "u < length ts \<Longrightarrow> tm_phase (Timer_Stop tm ts ! u) = Fired \<longleftrightarrow> tm_phase (ts ! u) = Fired"
  by (cases tm; cases "tm = Some u") (auto simp: Timer_Stop_def)

lemma Timer_Stop_publishing:
  "u < length ts \<Longrightarrow> tm_phase (Timer_Stop tm ts ! u) = Publishing e \<longleftrightarrow> tm_phase (ts ! u) = Publishing e"
  by (cases tm; cases "tm = Some u") (auto simp: Timer_Stop_def)

lemma in_flight_append [simp]: "in_flight (ts @ us) = in_flight ts + in_flight us"
  by (simp add: in_flight_def)

lemma sum_list_singletons: "(\<Sum>i\<leftarrow>xs. {#f i#}) = image_mset f (mset xs)"
  by (induction xs) auto

lemma in_flight_among:
  assumes d: "distinct ks"
    and p: "\<And>k. k \<in> set ks \<Longrightarrow> k < length ts \<and> published_by (tm_phase (ts ! k)) = {#f k#}"
  shows "image_mset f (mset ks) \<subseteq># in_flight ts"
proof -
  have "in_flight ts = (\<Sum>i<length ts. published_by (tm_phase (ts ! i)))"
    unfolding in_flight_def by (simp add: sum_list_sum_nth atLeast0LessThan)
  also have "\<dots> = (\<Sum>i \<in> {..<length ts} - set ks. published_by (tm_phase (ts ! i))) +
      (\<Sum>i \<in> set ks. published_by (tm_phase (ts ! i)))"
    using p by (intro sum.subset_diff) auto
  also have "(\<Sum>i \<in> set ks. published_by (tm_phase (ts ! i))) = (\<Sum>i \<in> set ks. {#f i#})"
    using p by (intro sum.cong) auto
  also have "\<dots> = image_mset f (mset ks)"
    using d by (simp add: sum_list_distinct_conv_sum_set [symmetric] sum_list_singletons)
  finally show ?thesis by simp
qed

section \<open>The loop of Stop\<close>

definition drained :: "Debouncer \<Rightarrow> Debouncer \<Rightarrow> StatusEvent list \<Rightarrow> bool" where
  "drained d d' fl \<longleftrightarrow>
     db_instances d' = [] \<and> mset fl = pendings (db_instances d) \<and>
     in_flight (db_timers d') = in_flight (db_timers d) \<and> db_wg d' = db_wg d \<and>
     db_stopped d' = db_stopped d \<and> db_interval d' = db_interval d \<and>
     length (db_timers d') = length (db_timers d) \<and>
     (\<forall>u < length (db_timers d). tm_due (db_timers d' ! u) = tm_due (db_timers d ! u) \<and>
       (tm_phase (db_timers d' ! u) = Fired \<longleftrightarrow> tm_phase (db_timers d ! u) = Fired) \<and>
       (\<forall>e. tm_phase (db_timers d' ! u) = Publishing e \<longleftrightarrow> tm_phase (db_timers d ! u) = Publishing e))"

lemma Stop_loop_drained:
  assumes "Stop_loop is d = (d', fl)" and "distinct (map fst (db_instances d))"
    and "mset is = mset (map fst (db_instances d))"
  shows "drained d d' fl"
  using assms
proof (induction "is" arbitrary: d d' fl)
  case Nil
  then show ?case by (simp add: drained_def pendings_def)
next
  case (Cons i "is")
  have "i \<in> set (map fst (db_instances d))"
    using Cons.prems(3) by (metis list.set_intros(1) set_mset_mset)
  then obtain st where st: "map_of (db_instances d) i = Some st"
    by (metis map_of_eq_None_iff list.set_map not_Some_eq)
  define d1 where "d1 = d\<lparr>db_timers := Timer_Stop (is_timer st) (db_timers d),
                  db_instances := AList.delete i (db_instances d)\<rparr>"
  from Cons.prems(1) st obtain fl1 where l: "Stop_loop is d1 = (d', fl1)" and fl: "fl = is_pending st # fl1"
    by (auto simp: d1_def split: prod.splits)
  have dist: "distinct (map fst (db_instances d1))"
    using Cons.prems(2) by (simp add: d1_def distinct_delete)
  have "mset (map fst (db_instances d)) = add_mset i (mset (map fst (db_instances d1)))"
    using mset_alist_delete [OF Cons.prems(2) st] by (simp add: d1_def)
  with Cons.prems(3) have keys: "mset is = mset (map fst (db_instances d1))" by simp
  show ?case
    using Cons.IH [OF l dist keys] pendings_delete [OF Cons.prems(2) st]
    by (simp add: drained_def fl d1_def Timer_Stop_phase Timer_Stop_publishing)
qed

section \<open>The invariant\<close>

text \<open>
  A pending event has a live timer: armed or started, of its instance and with its version,
  due one interval after the event was submitted, and the event is the last one submitted.
\<close>

definition live :: "deb_sys \<Rightarrow> string \<Rightarrow> instanceState \<Rightarrow> bool" where
  "live s i st \<longleftrightarrow>
     (\<exists>t \<tau>. is_timer st = Some t \<and> t < length (db_timers (sy_d s)) \<and>
       tm_instance (db_timers (sy_d s) ! t) = i \<and> tm_ver (db_timers (sy_d s) ! t) = is_ver st \<and>
       tm_phase (db_timers (sy_d s) ! t) \<in> {Armed, Fired} \<and>
       sy_last s i = Some (\<tau>, is_pending st) \<and>
       tm_due (db_timers (sy_d s) ! t) = \<tau> + db_interval (sy_d s))"

text \<open>
  \<open>accounted\<close>: every accepted event is pending, being published, waiting for its flush,
  published, or superseded, and counted once; the wait group counts the publications due.
\<close>

definition accounted :: "deb_sys \<Rightarrow> bool" where
  "accounted s \<longleftrightarrow>
     sy_accepted s = pendings (db_instances (sy_d s)) + in_flight (db_timers (sy_d s)) +
       mset (flushing (sy_stop s)) + mset (sy_out s) + sy_superseded s \<and>
     db_wg (sy_d s) = size (in_flight (db_timers (sy_d s))) + length (flushing (sy_stop s))"

definition on_time :: "deb_sys \<Rightarrow> bool" where
  "on_time s \<longleftrightarrow>
     (\<forall>t < length (db_timers (sy_d s)).
        tm_phase (db_timers (sy_d s) ! t) = Fired \<longrightarrow> tm_due (db_timers (sy_d s) ! t) \<le> sy_now s)"

definition stop_inv :: "deb_sys \<Rightarrow> bool" where
  "stop_inv s \<longleftrightarrow>
     (db_stopped (sy_d s) \<longleftrightarrow> sy_stop s \<noteq> Running) \<and>
     (db_stopped (sy_d s) \<longrightarrow> db_instances (sy_d s) = []) \<and>
     (sy_stop s = Returned \<longrightarrow> in_flight (db_timers (sy_d s)) = {#})"

definition deb_inv :: "deb_sys \<Rightarrow> bool" where
  "deb_inv s \<longleftrightarrow>
     distinct (map fst (db_instances (sy_d s))) \<and> accounted s \<and> on_time s \<and> stop_inv s \<and>
     (\<forall>i st. map_of (db_instances (sy_d s)) i = Some st \<longrightarrow> live s i st)"

lemmas deb_inv_defs = deb_inv_def accounted_def on_time_def stop_inv_def

lemma deb_inv_init: "deb_inv (deb_init interval now)"
  by (simp add: deb_inv_defs deb_init_def NewDebouncer_def pendings_def in_flight_def)

lemma deb_inv_tick: "deb_inv s \<Longrightarrow> sy_now s \<le> now \<Longrightarrow> deb_inv (s\<lparr>sy_now := now\<rparr>)"
  by (force simp: deb_inv_defs live_def)

subsection \<open>Submit\<close>

lemma deb_inv_submit:
  assumes inv: "deb_inv s"
  shows "deb_inv (sys_submit i ev s)"
proof (cases "db_stopped (sy_d s)")
  case True
  then show ?thesis using inv by (simp add: sys_submit_def)
next
  case False
  define d where "d = sy_d s"
  define old where "old = map_of (db_instances d) i"
  define tm where "tm = Option.bind old is_timer"
  define ver where "ver = (case old of Some st \<Rightarrow> is_ver st | None \<Rightarrow> 0) + 1"
  define ts where "ts = Timer_Stop tm (db_timers d)"
  define new where "new = \<lparr>tm_instance = i, tm_ver = ver, tm_due = sy_now s + db_interval d, tm_phase = Armed\<rparr>"
  define st' where "st' = \<lparr>is_timer = Some (length ts), is_pending = ev, is_ver = ver\<rparr>"
  define s' where "s' = sys_submit i ev s"
  have D: "sy_d s' = d\<lparr>db_instances := AList.update i st' (db_instances d), db_timers := ts @ [new]\<rparr>"
    using False by (auto simp: s'_def sys_submit_def Submit_def d_def old_def tm_def ver_def ts_def
        new_def st'_def Let_def split: option.splits)
  have O: "sy_stop s' = sy_stop s" "sy_out s' = sy_out s" "sy_now s' = sy_now s"
    "sy_last s' = (sy_last s)(i \<mapsto> (sy_now s, ev))" "sy_accepted s' = add_mset ev (sy_accepted s)"
    "sy_superseded s' = (case old of None \<Rightarrow> {#} | Some st \<Rightarrow> {#is_pending st#}) + sy_superseded s"
    using False by (auto simp: s'_def sys_submit_def d_def old_def split: option.splits)
  have dist: "distinct (map fst (db_instances d))" using inv by (simp add: deb_inv_def d_def)
  have len: "length ts = length (db_timers d)" by (simp add: ts_def)
  have fl: "in_flight (ts @ [new]) = in_flight (db_timers d)"
    by (simp add: ts_def new_def in_flight_def [of "[_]"])
  have "pendings (db_instances d) =
      (case old of None \<Rightarrow> {#} | Some st \<Rightarrow> {#is_pending st#}) + pendings (AList.delete i (db_instances d))"
    using pendings_delete [OF dist] delete_absent [of "db_instances d" i]
    by (auto simp: old_def split: option.splits)
  then have "accounted s'"
    using inv fl pendings_update [OF dist, of i st']
    by (simp add: deb_inv_def accounted_def D O d_def [symmetric] st'_def)
  moreover have "on_time s'"
  proof -
    have "tm_due ((ts @ [new]) ! t) \<le> sy_now s"
      if "t < length (ts @ [new])" and "tm_phase ((ts @ [new]) ! t) = Fired" for t
    proof (cases "t < length ts")
      case True
      with that inv show ?thesis
        by (auto simp: nth_append ts_def Timer_Stop_phase deb_inv_def on_time_def d_def)
    next
      case False
      with that show ?thesis by (auto simp: nth_append new_def less_Suc_eq)
    qed
    then show ?thesis by (simp add: on_time_def D O)
  qed
  moreover have "stop_inv s'"
    using inv False by (auto simp: deb_inv_def stop_inv_def D O fl d_def)
  moreover have "live s' j st" if "map_of (db_instances (sy_d s')) j = Some st" for j st
  proof (cases "j = i")
    case True
    with that have "st = st'" by (simp add: D update_conv)
    then show ?thesis using True by (simp add: live_def D O st'_def new_def)
  next
    case False
    with that have "live s j st" using inv by (simp add: D update_conv deb_inv_def d_def)
    then obtain t \<tau> where t: "is_timer st = Some t" "t < length (db_timers d)"
      "tm_instance (db_timers d ! t) = j" "tm_ver (db_timers d ! t) = is_ver st"
      "tm_phase (db_timers d ! t) \<in> {Armed, Fired}" "sy_last s j = Some (\<tau>, is_pending st)"
      "tm_due (db_timers d ! t) = \<tau> + db_interval d"
      unfolding live_def d_def [symmetric] by blast
    have "tm \<noteq> Some t"
    proof
      assume a: "tm = Some t"
      then obtain st0 where st0: "old = Some st0" "is_timer st0 = Some t"
        by (auto simp: tm_def bind_eq_Some_conv)
      then have "live s i st0" using inv by (simp add: deb_inv_def old_def d_def)
      then have "tm_instance (db_timers d ! t) = i" using st0 by (auto simp: live_def d_def)
      with t(3) False show False by simp
    qed
    then have "(ts @ [new]) ! t = db_timers d ! t" using t(2) len by (simp add: nth_append ts_def)
    then show ?thesis using t False len by (simp add: live_def D O)
  qed
  moreover have "distinct (map fst (db_instances (sy_d s')))"
    using dist by (simp add: D distinct_update)
  ultimately show ?thesis by (simp add: deb_inv_def s'_def)
qed

subsection \<open>Timers\<close>

lemma live_set_phase:
  assumes "live s i st" and "is_timer st \<noteq> Some t \<or> ph \<in> {Armed, Fired}"
    and "db_timers (sy_d s') = set_phase t ph (db_timers (sy_d s))"
    and "db_interval (sy_d s') = db_interval (sy_d s)" and "sy_last s' = sy_last s"
  shows "live s' i st"
proof -
  obtain u \<tau> where u: "is_timer st = Some u" "u < length (db_timers (sy_d s))"
      "tm_instance (db_timers (sy_d s) ! u) = i" "tm_ver (db_timers (sy_d s) ! u) = is_ver st"
      "tm_phase (db_timers (sy_d s) ! u) \<in> {Armed, Fired}" "sy_last s i = Some (\<tau>, is_pending st)"
      "tm_due (db_timers (sy_d s) ! u) = \<tau> + db_interval (sy_d s)"
    using assms(1) unfolding live_def by blast
  moreover have "tm_phase (db_timers (sy_d s') ! u) \<in> {Armed, Fired}"
    using u assms(2,3) by (cases "u = t") auto
  ultimately show ?thesis using assms(3-5) unfolding live_def by auto
qed

lemma deb_inv_fire:
  assumes inv: "deb_inv s" and en: "enabled s (Fires t)"
  shows "deb_inv (perform s (Fires t))"
proof -
  define s' where "s' = perform s (Fires t)"
  have t: "t < length (db_timers (sy_d s))" "tm_phase (db_timers (sy_d s) ! t) = Armed"
    "tm_due (db_timers (sy_d s) ! t) \<le> sy_now s" using en by simp_all
  have fl: "in_flight (set_phase t Fired (db_timers (sy_d s))) = in_flight (db_timers (sy_d s))"
    using t by (intro in_flight_quiet) simp_all
  have "live s' i st" if "map_of (db_instances (sy_d s')) i = Some st" for i st
    by (rule live_set_phase [where s = s and t = t and ph = Fired])
      (use that inv in \<open>auto simp: s'_def deb_inv_def\<close>)
  moreover have "on_time s'"
    using inv t by (auto simp: deb_inv_def on_time_def s'_def set_phase_def nth_list_update)
  ultimately show ?thesis
    using inv fl by (simp add: deb_inv_def accounted_def stop_inv_def s'_def)
qed

lemma on_time_set_phase:
  assumes "on_time s" and "sy_now s' = sy_now s" and "ph \<noteq> Fired"
    and "db_timers (sy_d s') = set_phase t ph (db_timers (sy_d s))"
  shows "on_time s'"
  unfolding on_time_def
proof (intro allI impI)
  fix u
  assume u: "u < length (db_timers (sy_d s'))" "tm_phase (db_timers (sy_d s') ! u) = Fired"
  then have "u \<noteq> t" using assms(3,4) by auto
  then show "tm_due (db_timers (sy_d s') ! u) \<le> sy_now s'"
    using u assms by (simp add: on_time_def)
qed

text \<open>A started callback either returns or takes the pending event of its instance.\<close>

lemma callback_section_cases:
  fixes d :: Debouncer and t :: nat
  defines "tm \<equiv> db_timers d ! t"
  shows "(callback_section t d = d\<lparr>db_timers := set_phase t Finished (db_timers d)\<rparr> \<and>
      (db_stopped d \<or> (\<forall>st. map_of (db_instances d) (tm_instance tm) = Some st \<longrightarrow> is_ver st \<noteq> tm_ver tm))) \<or>
    (\<exists>st. \<not> db_stopped d \<and> map_of (db_instances d) (tm_instance tm) = Some st \<and> is_ver st = tm_ver tm \<and>
      callback_section t d = d\<lparr>db_instances := AList.delete (tm_instance tm) (db_instances d),
        db_wg := db_wg d + 1, db_timers := set_phase t (Publishing (is_pending st)) (db_timers d)\<rparr>)"
  by (auto simp: callback_section_def Let_def tm_def split: option.splits)

lemma deb_inv_locks:
  assumes inv: "deb_inv s" and en: "enabled s (Locks t)"
  shows "deb_inv (perform s (Locks t))"
proof -
  define d where "d = sy_d s"
  define tm where "tm = db_timers d ! t"
  define s' where "s' = perform s (Locks t)"
  have t: "t < length (db_timers d)" "tm_phase tm = Fired" using en by (simp_all add: d_def tm_def)
  have dist: "distinct (map fst (db_instances d))" using inv by (simp add: deb_inv_def d_def)
  have S: "sy_d s' = callback_section t d" "sy_now s' = sy_now s" "sy_stop s' = sy_stop s"
    "sy_out s' = sy_out s" "sy_last s' = sy_last s" "sy_accepted s' = sy_accepted s"
    "sy_superseded s' = sy_superseded s"
    by (simp_all add: s'_def d_def)
  have on: "on_time s" using inv by (simp add: deb_inv_def)
  consider (quit) "callback_section t d = d\<lparr>db_timers := set_phase t Finished (db_timers d)\<rparr>"
      "db_stopped d \<or> (\<forall>st. map_of (db_instances d) (tm_instance tm) = Some st \<longrightarrow> is_ver st \<noteq> tm_ver tm)"
    | (take) st where "\<not> db_stopped d" "map_of (db_instances d) (tm_instance tm) = Some st"
      "is_ver st = tm_ver tm"
      "callback_section t d = d\<lparr>db_instances := AList.delete (tm_instance tm) (db_instances d),
        db_wg := db_wg d + 1, db_timers := set_phase t (Publishing (is_pending st)) (db_timers d)\<rparr>"
    using callback_section_cases [of t d] unfolding tm_def by blast
  then have "deb_inv s'"
  proof cases
    case quit
    have fl: "in_flight (set_phase t Finished (db_timers d)) = in_flight (db_timers d)"
      using t by (intro in_flight_quiet) (simp_all add: tm_def)
    have "live s' i st" if a: "map_of (db_instances (sy_d s')) i = Some st" for i st
    proof -
      have m: "map_of (db_instances d) i = Some st" using a by (simp add: S quit(1))
      then have l: "live s i st" using inv by (simp add: deb_inv_def d_def)
      moreover have "is_timer st \<noteq> Some t"
      proof
        assume "is_timer st = Some t"
        then have "tm_instance tm = i" "tm_ver tm = is_ver st"
          using l by (auto simp: live_def d_def tm_def)
        with quit(2) m have "db_stopped d" by auto
        then have "db_instances d = []" using inv unfolding deb_inv_def stop_inv_def d_def by blast
        with m show False by simp
      qed
      ultimately show ?thesis
        using live_set_phase [OF l, where t = t and ph = Finished and s' = s'] by (simp add: S quit(1) d_def [symmetric])
    qed
    moreover have "on_time s'"
      by (rule on_time_set_phase [OF on, where t = t and ph = Finished]) (simp_all add: S quit(1) d_def [symmetric])
    ultimately show ?thesis
      using inv fl by (simp add: deb_inv_def accounted_def stop_inv_def S quit(1) d_def [symmetric])
  next
    case take
    define i where "i = tm_instance tm"
    have fl: "in_flight (set_phase t (Publishing (is_pending st)) (db_timers d)) =
        add_mset (is_pending st) (in_flight (db_timers d))"
      using in_flight_set_phase [OF t(1), of "Publishing (is_pending st)"] t(2) by (simp add: tm_def)
    have p: "pendings (db_instances d) = add_mset (is_pending st) (pendings (AList.delete i (db_instances d)))"
      using pendings_delete [OF dist] take(2) by (simp add: i_def)
    have "live s' j st'" if a: "map_of (db_instances (sy_d s')) j = Some st'" for j st'
    proof -
      have j: "j \<noteq> i" and m: "map_of (db_instances d) j = Some st'"
        using a by (auto simp: S take delete_conv i_def split: if_splits)
      then have l: "live s j st'" using inv by (simp add: deb_inv_def d_def)
      moreover have "is_timer st' \<noteq> Some t"
        using l j by (auto simp: live_def d_def tm_def i_def)
      ultimately show ?thesis
        using live_set_phase [OF l, where t = t and ph = "Publishing (is_pending st)" and s' = s']
        by (simp add: S take(4) d_def [symmetric])
    qed
    moreover have "on_time s'"
      by (rule on_time_set_phase [OF on, where t = t and ph = "Publishing (is_pending st)"])
        (simp_all add: S take d_def [symmetric])
    moreover have "stop_inv s'" using inv take(1) by (auto simp: deb_inv_def stop_inv_def S take d_def [symmetric])
    moreover have "accounted s'"
      using inv fl p by (simp add: deb_inv_def accounted_def S take(4) d_def [symmetric] i_def)
    moreover have "distinct (map fst (db_instances (sy_d s')))"
      using dist by (simp add: S take(4) distinct_delete)
    ultimately show ?thesis by (simp add: deb_inv_def)
  qed
  then show ?thesis by (simp add: s'_def)
qed

lemma deb_inv_returns:
  assumes inv: "deb_inv s" and en: "enabled s (Returns t)"
  shows "deb_inv (perform s (Returns t))"
proof -
  define s' where "s' = perform s (Returns t)"
  obtain e where t: "t < length (db_timers (sy_d s))" "tm_phase (db_timers (sy_d s) ! t) = Publishing e"
    using en by (auto split: phase.splits)
  have fl: "add_mset e (in_flight (set_phase t Finished (db_timers (sy_d s)))) = in_flight (db_timers (sy_d s))"
    using in_flight_set_phase [OF t(1), of Finished] t(2) by simp
  have S: "s' = s\<lparr>sy_out := sy_out s @ [e], sy_d := callback_done t (sy_d s)\<rparr>" using t by (simp add: s'_def)
  have "live s' i st" if a: "map_of (db_instances (sy_d s')) i = Some st" for i st
  proof -
    have l: "live s i st" using inv a by (simp add: deb_inv_def S callback_done_def)
    moreover have "is_timer st \<noteq> Some t" using l t by (auto simp: live_def)
    ultimately show ?thesis
      using live_set_phase [OF l, where t = t and ph = Finished and s' = s'] by (simp add: S callback_done_def)
  qed
  moreover have "on_time s'"
    by (rule on_time_set_phase [where s = s and t = t and ph = Finished])
      (use inv in \<open>simp_all add: S callback_done_def deb_inv_def\<close>)
  moreover have "accounted s'"
    using inv fl [symmetric] by (simp add: deb_inv_def accounted_def S callback_done_def)
  moreover have "stop_inv s'"
  proof -
    have "in_flight (db_timers (sy_d s)) \<noteq> {#}" using fl by (metis add_mset_not_empty)
    then show ?thesis using inv by (auto simp: deb_inv_def stop_inv_def S callback_done_def)
  qed
  ultimately have "deb_inv s'" using inv by (simp add: deb_inv_def S callback_done_def)
  then show ?thesis by (simp only: s'_def)
qed

subsection \<open>Stop\<close>

lemma deb_inv_stops:
  assumes inv: "deb_inv s" and en: "enabled s (Stops order)"
  shows "deb_inv (perform s (Stops order))"
proof -
  define s' where "s' = perform s (Stops order)"
  obtain d' fl where l: "Stop_loop order ((sy_d s)\<lparr>db_stopped := True\<rparr>) = (d', fl)" by fastforce
  have "drained ((sy_d s)\<lparr>db_stopped := True\<rparr>) d' fl"
    by (rule Stop_loop_drained [OF l]) (use inv en in \<open>simp_all add: deb_inv_def\<close>)
  note D = this [unfolded drained_def, simplified]
  have S: "s' = s\<lparr>sy_d := d'\<lparr>db_wg := db_wg d' + length fl\<rparr>, sy_stop := Flushing fl\<rparr>"
    using l by (simp add: s'_def Stop_section_def)
  have "accounted s'" using inv en D by (simp add: deb_inv_def accounted_def S pendings_def [of "[]"])
  moreover have "on_time s'" using inv D by (auto simp: deb_inv_def on_time_def S)
  moreover have "stop_inv s'" using D by (simp add: stop_inv_def S)
  ultimately have "deb_inv s'" using D by (simp add: deb_inv_def S)
  then show ?thesis by (simp add: s'_def)
qed

lemma deb_inv_flushes:
  assumes inv: "deb_inv s" and en: "enabled s Flushes"
  shows "deb_inv (perform s Flushes)"
proof -
  obtain e es where f: "sy_stop s = Flushing (e # es)"
    using en by (auto split: stop_pc.splits list.splits)
  then have "db_instances (sy_d s) = []" using inv by (simp add: deb_inv_def stop_inv_def)
  then show ?thesis
    using inv f by (simp add: deb_inv_def accounted_def stop_inv_def on_time_def)
qed

lemma deb_inv_waits:
  assumes inv: "deb_inv s" and en: "enabled s Waits"
  shows "deb_inv (perform s Waits)"
proof -
  have "db_instances (sy_d s) = []" using inv en by (simp add: deb_inv_def stop_inv_def)
  moreover have "in_flight (db_timers (sy_d s)) = {#}"
    using inv en by (simp add: deb_inv_def accounted_def)
  ultimately show ?thesis
    using inv en by (simp add: deb_inv_def accounted_def stop_inv_def on_time_def)
qed

lemma deb_step_inv:
  assumes "deb_step s l t" and inv: "deb_inv s"
  shows "deb_inv t"
proof -
  from assms(1) have t: "t = perform s l" and en: "enabled s l" by (auto simp: deb_step_iff)
  show ?thesis
  proof (cases l)
    case (Tick now)
    then show ?thesis using inv en by (simp add: t deb_inv_tick)
  next
    case (Submits i ev)
    then show ?thesis using inv by (simp add: t deb_inv_submit)
  next
    case (Fires k)
    then show ?thesis using inv en deb_inv_fire by (simp add: t del: enabled.simps perform.simps)
  next
    case (Locks k)
    then show ?thesis using inv en deb_inv_locks by (simp add: t del: enabled.simps perform.simps)
  next
    case (Returns k)
    then show ?thesis using inv en deb_inv_returns by (simp add: t del: enabled.simps perform.simps)
  next
    case (Stops order)
    then show ?thesis using inv en deb_inv_stops by (simp add: t del: enabled.simps perform.simps)
  next
    case Flushes
    then show ?thesis using inv en deb_inv_flushes by (simp add: t del: enabled.simps perform.simps)
  next
    case Waits
    then show ?thesis using inv en deb_inv_waits by (simp add: t del: enabled.simps perform.simps)
  qed
qed

lemma deb_reachable_inv: "deb_reachable interval start s \<Longrightarrow> deb_inv s"
  by (induction rule: deb_reachable.induct) (auto intro: deb_inv_init deb_step_inv)

section \<open>What Stop guarantees\<close>

lemma stop_complete:
  assumes "deb_reachable interval start s" and "sy_stop s = Returned"
  shows "db_wg (sy_d s) = 0" and "db_instances (sy_d s) = []"
    and "sy_accepted s = mset (sy_out s) + sy_superseded s"
proof -
  have "deb_inv s" by (rule deb_reachable_inv [OF assms(1)])
  moreover from this have "db_stopped (sy_d s)" using assms(2) by (simp add: deb_inv_def stop_inv_def)
  ultimately have "db_instances (sy_d s) = []" and "in_flight (db_timers (sy_d s)) = {#}"
    and "accounted s"
    using assms(2) unfolding deb_inv_def stop_inv_def by blast+
  then show "db_wg (sy_d s) = 0" and "db_instances (sy_d s) = []"
    and "sy_accepted s = mset (sy_out s) + sy_superseded s"
    using assms(2) by (simp_all add: accounted_def pendings_def)
qed

text \<open>No publication begins or ends after \<^verbatim>\<open>Stop\<close> has returned.\<close>

lemma stopped_silent_step:
  assumes "deb_step s l t" and "deb_inv s" and r: "sy_stop s = Returned"
  shows "sy_stop t = Returned \<and> sy_out t = sy_out s"
proof -
  have en: "enabled s l" and t: "t = perform s l" using assms(1) by (auto simp: deb_step_iff)
  show ?thesis
  proof (cases l)
    case (Returns k)
    then obtain e where k: "k < length (db_timers (sy_d s))" "tm_phase (db_timers (sy_d s) ! k) = Publishing e"
      using en by (auto split: phase.splits)
    have "in_flight (db_timers (sy_d s)) = {#}"
      using assms(2) r unfolding deb_inv_def stop_inv_def by blast
    then have False using in_flight_set_phase [OF k(1), of Finished] k(2) by simp
    then show ?thesis ..
  qed (use en r in \<open>auto simp: t sys_submit_def split: prod.splits\<close>)
qed

inductive deb_steps :: "deb_sys \<Rightarrow> deb_sys \<Rightarrow> bool" where
  refl: "deb_steps s s"
| trans: "deb_steps s t \<Longrightarrow> deb_step t l u \<Longrightarrow> deb_steps s u"

lemma stopped_silent:
  assumes "deb_steps s t" and "deb_reachable interval start s" and "sy_stop s = Returned"
  shows "deb_reachable interval start t \<and> sy_stop t = Returned \<and> sy_out t = sy_out s"
  using assms
proof (induction rule: deb_steps.induct)
  case (refl s)
  then show ?case by simp
next
  case (trans s t l u)
  then have "deb_reachable interval start t" "sy_stop t = Returned" "sy_out t = sy_out s" by auto
  with stopped_silent_step [OF trans.hyps(2)] deb_reachable_inv deb_reachable.step [OF _ trans.hyps(2)]
  show ?case by auto
qed

text \<open>
  \<^verbatim>\<open>Stop\<close> is never stuck: once every call of \<^verbatim>\<open>publishFn\<close> returns, it does, after one step for
  each publication due and one for the wait.
\<close>

lemma in_flight_some:
  "in_flight ts \<noteq> {#} \<Longrightarrow> \<exists>k < length ts. \<exists>e. tm_phase (ts ! k) = Publishing e"
proof (induction ts)
  case Nil
  then show ?case by (simp add: in_flight_def)
next
  case (Cons t ts)
  show ?case
  proof (cases "published_by (tm_phase t) = {#}")
    case True
    with Cons obtain k e where "k < length ts" "tm_phase (ts ! k) = Publishing e"
      by (auto simp: in_flight_def)
    then show ?thesis by (intro exI [of _ "Suc k"]) auto
  next
    case False
    then show ?thesis by (intro exI [of _ 0]) (cases "tm_phase t"; auto)
  qed
qed

lemma stop_returns:
  assumes "deb_inv s" and "sy_stop s = Flushing es"
  shows "\<exists>ls t. perform_all s ls = Some t \<and> length ls = Suc (db_wg (sy_d s)) \<and> sy_stop t = Returned"
  using assms
proof (induction "db_wg (sy_d s)" arbitrary: s es)
  case 0
  then have "es = []" by (simp add: deb_inv_def accounted_def)
  with 0 show ?case by (intro exI [of _ "[Waits]"] exI [of _ "s\<lparr>sy_stop := Returned\<rparr>"]) simp
next
  case (Suc n)
  have "\<exists>l es'. enabled s l \<and> sy_stop (perform s l) = Flushing es' \<and> db_wg (sy_d (perform s l)) = n"
  proof (cases es)
    case Nil
    then have "size (in_flight (db_timers (sy_d s))) = Suc n"
      using Suc.hyps(2) Suc.prems by (simp add: deb_inv_def accounted_def)
    then have "in_flight (db_timers (sy_d s)) \<noteq> {#}" by auto
    then obtain k e where "k < length (db_timers (sy_d s))" "tm_phase (db_timers (sy_d s) ! k) = Publishing e"
      using in_flight_some by blast
    then show ?thesis using Suc.prems Suc.hyps(2) [symmetric]
      by (intro exI [of _ "Returns k"]) (simp add: callback_done_def)
  next
    case (Cons e es')
    then show ?thesis using Suc.prems Suc.hyps(2) [symmetric] by (intro exI [of _ Flushes]) simp
  qed
  then obtain l es' where l: "enabled s l" "sy_stop (perform s l) = Flushing es'"
    "n = db_wg (sy_d (perform s l))" by metis
  have "deb_inv (perform s l)" by (rule deb_step_inv [OF deb_step.intros [OF l(1)] Suc.prems(1)])
  from Suc.hyps(1) [OF l(3) this l(2)] obtain ls t where
    "perform_all (perform s l) ls = Some t" "length ls = Suc n" "sy_stop t = Returned"
    using l(3) by auto
  then show ?case using l(1) Suc.hyps(2) by (intro exI [of _ "l # ls"] exI [of _ t]) simp
qed

section \<open>Instances and versions\<close>

definition deb_pending :: "Debouncer \<Rightarrow> string \<rightharpoonup> StatusEvent" where
  "deb_pending d = map_option is_pending \<circ> map_of (db_instances d)"

lemma deb_pending_Submit:
  "deb_pending (Submit now i ev d) =
     (if db_stopped d then deb_pending d else (deb_pending d)(i \<mapsto> ev))"
  by (auto simp: deb_pending_def Submit_def Let_def update_conv fun_eq_iff)

text \<open>What a callback that takes an event leaves pending, and which event it takes.\<close>

lemma callback_section_takes:
  assumes "tm_phase (db_timers (callback_section t d) ! t) = Publishing e" and "t < length (db_timers d)"
  shows "deb_pending d (tm_instance (db_timers d ! t)) = Some e"
    and "deb_pending (callback_section t d) = (deb_pending d)(tm_instance (db_timers d ! t) := None)"
  using callback_section_cases [of t d] assms
  by (auto simp: deb_pending_def delete_conv fun_eq_iff)

lemma callback_takes_last:
  assumes "deb_inv s" and "t < length (db_timers (sy_d s))"
    and "tm_phase (db_timers (callback_section t (sy_d s)) ! t) = Publishing e"
  shows "\<exists>\<tau>. sy_last s (tm_instance (db_timers (sy_d s) ! t)) = Some (\<tau>, e)"
proof -
  from callback_section_takes(1) [OF assms(3,2)] obtain st where
    m: "map_of (db_instances (sy_d s)) (tm_instance (db_timers (sy_d s) ! t)) = Some st" and e: "e = is_pending st"
    by (auto simp: deb_pending_def)
  then have "live s (tm_instance (db_timers (sy_d s) ! t)) st" using assms(1) by (simp add: deb_inv_def)
  then show ?thesis by (auto simp: live_def e)
qed

section \<open>Prompt executions\<close>

text \<open>
  In a prompt execution a client does not submit for an instance while a callback of that
  instance has started and not yet taken the lock. Then no callback is stale and no event is
  published before its window has passed.
\<close>

fun prompt :: "deb_sys \<Rightarrow> label \<Rightarrow> bool" where
  "prompt s (Submits i ev) =
     (\<not> (\<exists>t \<in> set (db_timers (sy_d s)). tm_instance t = i \<and> tm_phase t = Fired))"
| "prompt s _ = True"

inductive prompt_reachable :: "duration \<Rightarrow> gotime \<Rightarrow> deb_sys \<Rightarrow> bool" for interval start where
  init: "prompt_reachable interval start (deb_init interval start)"
| step: "prompt_reachable interval start s \<Longrightarrow> deb_step s l t \<Longrightarrow> prompt s l \<Longrightarrow>
    prompt_reachable interval start t"

lemma prompt_is_reachable: "prompt_reachable interval start s \<Longrightarrow> deb_reachable interval start s"
  by (induction rule: prompt_reachable.induct) (auto intro: deb_reachable.intros)

definition active :: "phase \<Rightarrow> bool" where
  "active ph \<longleftrightarrow> ph = Armed \<or> ph = Fired"

definition current :: "Debouncer \<Rightarrow> nat \<Rightarrow> bool" where
  "current d t \<longleftrightarrow>
     (\<exists>st. map_of (db_instances d) (tm_instance (db_timers d ! t)) = Some st \<and> is_timer st = Some t)"

definition no_strays :: "Debouncer \<Rightarrow> bool" where
  "no_strays d \<longleftrightarrow>
     (\<not> db_stopped d \<longrightarrow> (\<forall>t < length (db_timers d). active (tm_phase (db_timers d ! t)) \<longrightarrow> current d t))"

lemma no_stray: "no_strays d \<Longrightarrow> \<not> db_stopped d \<Longrightarrow> t < length (db_timers d) \<Longrightarrow>
    active (tm_phase (db_timers d ! t)) \<Longrightarrow> current d t"
  by (simp add: no_strays_def)

lemma no_strays_set_phase:
  assumes n: "no_strays d" and "t < length (db_timers d)"
    and "active ph \<longrightarrow> active (tm_phase (db_timers d ! t))"
    and d': "db_timers d' = set_phase t ph (db_timers d)" "db_instances d' = db_instances d"
      "db_stopped d' = db_stopped d"
  shows "no_strays d'"
  unfolding no_strays_def
proof (intro impI allI)
  fix u
  assume a: "\<not> db_stopped d'" "u < length (db_timers d')" "active (tm_phase (db_timers d' ! u))"
  then have "active (tm_phase (db_timers d ! u))" using assms by (cases "u = t") auto
  then have "current d u" using a d' by (intro no_stray [OF n]) simp_all
  then show "current d' u" using a d' by (simp add: current_def)
qed

lemma no_strays_submit:
  assumes inv: "deb_inv s" and n: "no_strays (sy_d s)" and pr: "prompt s (Submits i ev)"
  shows "no_strays (Submit now i ev (sy_d s))"
proof (cases "db_stopped (sy_d s)")
  case True
  then show ?thesis using n by (simp add: Submit_def)
next
  case False
  define d where "d = sy_d s"
  define tm where "tm = Option.bind (map_of (db_instances d) i) is_timer"
  define ts where "ts = Timer_Stop tm (db_timers d)"
  define d' where "d' = Submit now i ev d"
  obtain st' new where D: "db_instances d' = AList.update i st' (db_instances d)"
    "db_timers d' = ts @ [new]" "is_timer st' = Some (length ts)" "tm_instance new = i"
    using False by (auto simp: d'_def Submit_def d_def tm_def ts_def Let_def split: option.splits)
  have len: "length ts = length (db_timers d)" by (simp add: ts_def)
  have "current d' t" if t: "t < length (db_timers d')" "active (tm_phase (db_timers d' ! t))" for t
  proof (cases "t < length ts")
    case False
    with t have "t = length ts" by (simp add: D)
    then show ?thesis by (simp add: current_def D update_conv)
  next
    case True
    then have ph: "active (tm_phase (ts ! t))" and nth: "db_timers d' ! t = ts ! t"
      using t by (simp_all add: D nth_append)
    have other: "tm \<noteq> Some t"
    proof
      assume a: "tm = Some t"
      then obtain st where "map_of (db_instances d) i = Some st" "is_timer st = Some t"
        by (auto simp: tm_def bind_eq_Some_conv)
      then have "live s i st" "is_timer st = Some t" using inv by (simp_all add: deb_inv_def d_def)
      then have "tm_instance (db_timers d ! t) = i" by (auto simp: live_def d_def)
      moreover have "tm_phase (db_timers d ! t) = Fired"
        using ph a True len by (auto simp: ts_def Timer_Stop_def active_def split: if_splits)
      ultimately show False using pr True len by (auto simp: d_def)
    qed
    then have same: "ts ! t = db_timers d ! t" by (simp add: ts_def)
    have "current d t"
      by (rule no_stray) (use n False ph same True len in \<open>simp_all add: d_def\<close>)
    then obtain st where st: "map_of (db_instances d) (tm_instance (db_timers d ! t)) = Some st"
      "is_timer st = Some t" by (auto simp: current_def)
    have "tm_instance (db_timers d ! t) \<noteq> i" using st other by (auto simp: tm_def)
    with st show ?thesis by (simp add: current_def nth_append True same D update_conv)
  qed
  then show ?thesis by (simp add: no_strays_def d'_def d_def)
qed

text \<open>In a prompt execution the callback that locks takes the event of its own timer.\<close>

lemma prompt_lock:
  assumes inv: "deb_inv s" and n: "no_strays (sy_d s)" and en: "enabled s (Locks t)"
    and open_d: "\<not> db_stopped (sy_d s)"
  shows "\<exists>st. map_of (db_instances (sy_d s)) (tm_instance (db_timers (sy_d s) ! t)) = Some st \<and>
    is_timer st = Some t \<and> is_ver st = tm_ver (db_timers (sy_d s) ! t)"
proof -
  have "current (sy_d s) t"
    by (rule no_stray [OF n]) (use en open_d in \<open>simp_all add: active_def\<close>)
  then obtain st where st: "map_of (db_instances (sy_d s)) (tm_instance (db_timers (sy_d s) ! t)) = Some st"
    "is_timer st = Some t" by (auto simp: current_def)
  then have "live s (tm_instance (db_timers (sy_d s) ! t)) st" using inv by (simp add: deb_inv_def)
  with st show ?thesis by (auto simp: live_def)
qed

lemma no_strays_lock:
  assumes inv: "deb_inv s" and n: "no_strays (sy_d s)" and en: "enabled s (Locks t)"
  shows "no_strays (callback_section t (sy_d s))"
proof (cases "db_stopped (sy_d s)")
  case True
  then show ?thesis by (simp add: callback_section_def no_strays_def Let_def)
next
  case False
  define d where "d = sy_d s"
  define i where "i = tm_instance (db_timers d ! t)"
  from prompt_lock [OF inv n en False] obtain st where
    st: "map_of (db_instances d) i = Some st" "is_timer st = Some t" "is_ver st = tm_ver (db_timers d ! t)"
    by (auto simp: d_def i_def)
  define d' where "d' = callback_section t d"
  have D: "db_instances d' = AList.delete i (db_instances d)"
    "db_timers d' = set_phase t (Publishing (is_pending st)) (db_timers d)"
    using st False by (simp_all add: d'_def callback_section_def Let_def d_def i_def)
  have "current d' u" if u: "u < length (db_timers d')" "active (tm_phase (db_timers d' ! u))" for u
  proof -
    have ut: "u \<noteq> t" using u by (auto simp: D active_def)
    have "current d u"
      by (rule no_stray) (use n False u ut in \<open>simp_all add: d_def D\<close>)
    then obtain st0 where st0: "map_of (db_instances d) (tm_instance (db_timers d ! u)) = Some st0"
      "is_timer st0 = Some u" by (auto simp: current_def)
    then have "tm_instance (db_timers d ! u) \<noteq> i" using st ut by auto
    with st0 ut show ?thesis by (simp add: current_def D delete_conv)
  qed
  then show ?thesis by (simp add: no_strays_def d'_def d_def)
qed

lemma prompt_no_strays: "prompt_reachable interval start s \<Longrightarrow> no_strays (sy_d s)"
proof (induction rule: prompt_reachable.induct)
  case init
  then show ?case by (simp add: no_strays_def deb_init_def NewDebouncer_def)
next
  case (step s l t)
  have inv: "deb_inv s" by (rule deb_reachable_inv [OF prompt_is_reachable [OF step.hyps(1)]])
  have en: "enabled s l" and t: "t = perform s l" using step.hyps(2) by (auto simp: deb_step_iff)
  note n = step.IH
  show ?case
  proof (cases l)
    case (Tick x1)
    then show ?thesis using n by (simp add: t)
  next
    case (Submits i ev)
    then show ?thesis using no_strays_submit [OF inv n] step.hyps(3) n by (simp add: t sys_submit_def)
  next
    case (Fires k)
    then show ?thesis using en
      by (intro no_strays_set_phase [OF n, where t = k and ph = Fired]) (simp_all add: t active_def)
  next
    case (Locks k)
    then show ?thesis using no_strays_lock [OF inv n] en by (simp add: t)
  next
    case (Returns k)
    then show ?thesis using en
      by (intro no_strays_set_phase [OF n, where t = k and ph = Finished])
        (auto simp: t active_def callback_done_def split: phase.splits)
  next
    case (Stops order)
    obtain d' fl where l: "Stop_loop order ((sy_d s)\<lparr>db_stopped := True\<rparr>) = (d', fl)" by fastforce
    have "drained ((sy_d s)\<lparr>db_stopped := True\<rparr>) d' fl"
      by (rule Stop_loop_drained [OF l]) (use inv en Stops in \<open>simp_all add: deb_inv_def\<close>)
    then show ?thesis using l by (simp add: Stops t Stop_section_def no_strays_def drained_def)
  next
    case Flushes
    then show ?thesis using n en
      by (auto simp: t no_strays_def current_def split: stop_pc.splits list.splits)
  next
    case Waits
    then show ?thesis using n by (simp add: t)
  qed
qed

lemma interval_constant:
  assumes "deb_reachable interval start s" shows "db_interval (sy_d s) = interval"
  using assms
proof (induction rule: deb_reachable.induct)
  case init
  then show ?case by (simp add: deb_init_def NewDebouncer_def)
next
  case (step s l t)
  then have inv: "deb_inv s" and en: "enabled s l" and t: "t = perform s l"
    by (auto simp: deb_step_iff intro: deb_reachable_inv)
  show ?case
  proof (cases l)
    case (Stops order)
    obtain d' fl where l: "Stop_loop order ((sy_d s)\<lparr>db_stopped := True\<rparr>) = (d', fl)" by fastforce
    have "drained ((sy_d s)\<lparr>db_stopped := True\<rparr>) d' fl"
      by (rule Stop_loop_drained [OF l]) (use inv en Stops in \<open>simp_all add: deb_inv_def\<close>)
    then show ?thesis using l step.IH by (simp add: Stops t Stop_section_def drained_def)
  qed (use step.IH en in \<open>auto simp: t sys_submit_def Submit_def callback_section_def callback_done_def Let_def
         split: option.splits phase.splits stop_pc.splits list.splits\<close>)
qed

text \<open>The debounce window.\<close>

lemma prompt_window:
  assumes r: "prompt_reachable interval start s" and en: "enabled s (Locks t)"
    and pub: "tm_phase (db_timers (callback_section t (sy_d s)) ! t) = Publishing e"
  shows "\<exists>\<tau>. sy_last s (tm_instance (db_timers (sy_d s) ! t)) = Some (\<tau>, e) \<and> \<tau> + interval \<le> sy_now s"
proof -
  note inv = deb_reachable_inv [OF prompt_is_reachable [OF r]]
  have op: "\<not> db_stopped (sy_d s)"
    using pub en by (auto simp: callback_section_def Let_def)
  from prompt_lock [OF inv prompt_no_strays [OF r] en op] obtain st where
    st: "map_of (db_instances (sy_d s)) (tm_instance (db_timers (sy_d s) ! t)) = Some st"
      "is_timer st = Some t" "is_ver st = tm_ver (db_timers (sy_d s) ! t)" by blast
  then have e: "e = is_pending st" using op pub en by (simp add: callback_section_def Let_def)
  from st inv have "live s (tm_instance (db_timers (sy_d s) ! t)) st" by (simp add: deb_inv_def)
  moreover have "tm_due (db_timers (sy_d s) ! t) \<le> sy_now s"
    using inv en by (simp add: deb_inv_def on_time_def)
  ultimately show ?thesis
    using st interval_constant [OF prompt_is_reachable [OF r]] by (auto simp: live_def e)
qed

text \<open>A publication goes on until its own return.\<close>

lemma publishing_persists:
  assumes inv: "deb_inv s" and en: "enabled s l" and t: "t < length (db_timers (sy_d s))"
    and p: "tm_phase (db_timers (sy_d s) ! t) = Publishing e" and "l \<noteq> Returns t"
  shows "t < length (db_timers (sy_d (perform s l))) \<and>
    tm_phase (db_timers (sy_d (perform s l)) ! t) = Publishing e"
proof (cases l)
  case (Submits i ev)
  then show ?thesis using t p
    by (auto simp: sys_submit_def Submit_def Let_def nth_append Timer_Stop_publishing)
next
  case (Fires k)
  then have "k \<noteq> t" using en p by auto
  then show ?thesis using t p by (simp add: Fires)
next
  case (Locks k)
  then have "k \<noteq> t" using en p by auto
  then show ?thesis using t p callback_section_cases [of k "sy_d s"] by (auto simp: Locks)
next
  case (Returns k)
  then show ?thesis using assms by (auto simp: callback_done_def split: phase.splits)
next
  case (Stops order)
  obtain d' fl where l: "Stop_loop order ((sy_d s)\<lparr>db_stopped := True\<rparr>) = (d', fl)" by fastforce
  have "drained ((sy_d s)\<lparr>db_stopped := True\<rparr>) d' fl"
    by (rule Stop_loop_drained [OF l]) (use inv en Stops in \<open>simp_all add: deb_inv_def\<close>)
  then show ?thesis using l t p by (simp add: Stops Stop_section_def drained_def)
qed (use t p in \<open>auto split: stop_pc.splits list.splits\<close>)

section \<open>A coalescing queue\<close>

text \<open>
  What the debouncer promises its client, without timers, versions and the wait group: a
  pending event for an instance is replaced by the next one, or taken to be published once.
\<close>

record queue =
  qu_pending :: "string \<rightharpoonup> StatusEvent"
  qu_taken :: "StatusEvent multiset"
  qu_closed :: bool
  qu_out :: "StatusEvent list"

inductive queue_step :: "queue \<Rightarrow> queue \<Rightarrow> bool" where
  submit: "\<not> qu_closed q \<Longrightarrow> queue_step q (q\<lparr>qu_pending := (qu_pending q)(i \<mapsto> e)\<rparr>)"
| take: "\<not> qu_closed q \<Longrightarrow> qu_pending q i = Some e \<Longrightarrow>
    queue_step q (q\<lparr>qu_pending := (qu_pending q)(i := None), qu_taken := add_mset e (qu_taken q)\<rparr>)"
| publish: "qu_taken q = add_mset e rest \<Longrightarrow>
    queue_step q (q\<lparr>qu_taken := rest, qu_out := qu_out q @ [e]\<rparr>)"
| close: "\<not> qu_closed q \<Longrightarrow> finite (dom (qu_pending q)) \<Longrightarrow>
    queue_step q (q\<lparr>qu_pending := (\<lambda>_. None), qu_closed := True,
      qu_taken := image_mset (the \<circ> qu_pending q) (mset_set (dom (qu_pending q))) + qu_taken q\<rparr>)"

definition queue_of :: "deb_sys \<Rightarrow> queue" where
  "queue_of s =
     \<lparr>qu_pending = deb_pending (sy_d s),
      qu_taken = in_flight (db_timers (sy_d s)) + mset (flushing (sy_stop s)),
      qu_closed = db_stopped (sy_d s), qu_out = sy_out s\<rparr>"

lemma pendings_keys:
  "distinct (map fst xs) \<Longrightarrow>
   pendings xs = image_mset (\<lambda>k. is_pending (the (map_of xs k))) (mset_set (fst ` set xs))"
proof (induction xs)
  case Nil
  then show ?case by (simp add: pendings_def)
next
  case (Cons x xs)
  obtain i st where x: "x = (i, st)" by (cases x)
  have n: "i \<notin> fst ` set xs" using Cons.prems by (simp add: x)
  have "image_mset (\<lambda>k. is_pending (the (map_of (x # xs) k))) (mset_set (fst ` set xs)) =
      image_mset (\<lambda>k. is_pending (the (map_of xs k))) (mset_set (fst ` set xs))"
    using n by (intro image_mset_cong) (auto simp: x)
  then show ?case using Cons n by (simp add: x pendings_def)
qed

lemma pendings_mset_set:
  assumes "distinct (map fst xs)"
  shows "pendings xs = image_mset (the \<circ> (map_option is_pending \<circ> map_of xs)) (mset_set (dom (map_of xs)))"
  unfolding pendings_keys [OF assms] dom_map_of_conv_image_fst
  by (intro image_mset_cong) (auto split: option.splits simp: map_of_eq_None_iff option.map_sel)

lemma queue_of_submit:
  assumes "\<not> db_stopped (sy_d s)"
  shows "queue_of (sys_submit i e s) = (queue_of s)\<lparr>qu_pending := (qu_pending (queue_of s))(i \<mapsto> e)\<rparr>"
proof -
  have "in_flight (db_timers (Submit (sy_now s) i e (sy_d s))) = in_flight (db_timers (sy_d s))"
    using assms by (simp add: Submit_def Let_def in_flight_def [of "[_]"])
  moreover have "db_stopped (Submit (sy_now s) i e (sy_d s)) = db_stopped (sy_d s)"
    by (simp add: Submit_def Let_def)
  ultimately show ?thesis
    using assms by (simp add: queue_of_def sys_submit_def deb_pending_Submit)
qed

text \<open>Every step of the debouncer is a step of the queue, or invisible to it.\<close>

lemma queue_simulation:
  assumes "deb_step s l t" and inv: "deb_inv s"
  shows "queue_of t = queue_of s \<or> queue_step (queue_of s) (queue_of t)"
proof -
  have en: "enabled s l" and t: "t = perform s l" using assms(1) by (auto simp: deb_step_iff)
  show ?thesis
  proof (cases l)
    case (Tick n)
    then show ?thesis by (simp add: t queue_of_def)
  next
    case (Submits i e)
    show ?thesis
    proof (cases "db_stopped (sy_d s)")
      case True
      then show ?thesis by (simp add: t Submits sys_submit_def)
    next
      case False
      then have "queue_step (queue_of s) (queue_of (sys_submit i e s))"
        unfolding queue_of_submit [OF False] by (intro queue_step.submit) (simp add: queue_of_def)
      then show ?thesis by (simp add: t Submits)
    qed
  next
    case (Fires k)
    then have "in_flight (set_phase k Fired (db_timers (sy_d s))) = in_flight (db_timers (sy_d s))"
      using en by (intro in_flight_quiet) simp_all
    then show ?thesis by (simp add: t Fires queue_of_def deb_pending_def)
  next
    case (Locks k)
    then have k: "k < length (db_timers (sy_d s))" "tm_phase (db_timers (sy_d s) ! k) = Fired"
      using en by simp_all
    define i where "i = tm_instance (db_timers (sy_d s) ! k)"
    consider "callback_section k (sy_d s) = (sy_d s)\<lparr>db_timers := set_phase k Finished (db_timers (sy_d s))\<rparr>"
      | st where "\<not> db_stopped (sy_d s)" "map_of (db_instances (sy_d s)) i = Some st"
        "callback_section k (sy_d s) = (sy_d s)\<lparr>db_instances := AList.delete i (db_instances (sy_d s)),
          db_wg := db_wg (sy_d s) + 1,
          db_timers := set_phase k (Publishing (is_pending st)) (db_timers (sy_d s))\<rparr>"
      using callback_section_cases [of k "sy_d s"] unfolding i_def by blast
    then show ?thesis
    proof cases
      case 1
      have "in_flight (set_phase k Finished (db_timers (sy_d s))) = in_flight (db_timers (sy_d s))"
        using k by (intro in_flight_quiet) simp_all
      then show ?thesis by (simp add: t Locks 1 queue_of_def deb_pending_def)
    next
      case 2
      have "in_flight (set_phase k (Publishing (is_pending st)) (db_timers (sy_d s))) =
          add_mset (is_pending st) (in_flight (db_timers (sy_d s)))"
        using in_flight_set_phase [OF k(1), of "Publishing (is_pending st)"] k(2) by simp
      then have "queue_of t = (queue_of s)\<lparr>qu_pending := (qu_pending (queue_of s))(i := None),
          qu_taken := add_mset (is_pending st) (qu_taken (queue_of s))\<rparr>"
        by (auto simp: t Locks 2(3) queue_of_def deb_pending_def delete_conv fun_eq_iff)
      moreover have "queue_step (queue_of s) \<dots>"
        using 2 by (intro queue_step.take) (simp_all add: queue_of_def deb_pending_def)
      ultimately show ?thesis by simp
    qed
  next
    case (Returns k)
    then obtain e where k: "k < length (db_timers (sy_d s))" "tm_phase (db_timers (sy_d s) ! k) = Publishing e"
      using en by (auto split: phase.splits)
    have fl: "in_flight (db_timers (sy_d s)) = add_mset e (in_flight (set_phase k Finished (db_timers (sy_d s))))"
      using in_flight_set_phase [OF k(1), of Finished] k(2) by simp
    have "queue_of t = (queue_of s)\<lparr>
        qu_taken := in_flight (set_phase k Finished (db_timers (sy_d s))) + mset (flushing (sy_stop s)),
        qu_out := qu_out (queue_of s) @ [e]\<rparr>"
      using k by (simp add: t Returns queue_of_def deb_pending_def callback_done_def)
    moreover have "queue_step (queue_of s) \<dots>"
      by (rule queue_step.publish) (simp add: queue_of_def fl)
    ultimately show ?thesis by simp
  next
    case (Stops order)
    obtain d' fl where l: "Stop_loop order ((sy_d s)\<lparr>db_stopped := True\<rparr>) = (d', fl)" by fastforce
    have "drained ((sy_d s)\<lparr>db_stopped := True\<rparr>) d' fl"
      by (rule Stop_loop_drained [OF l]) (use inv en Stops in \<open>simp_all add: deb_inv_def\<close>)
    note D = this [unfolded drained_def, simplified]
    have run: "sy_stop s = Running" and op: "\<not> db_stopped (sy_d s)" and dist: "distinct (map fst (db_instances (sy_d s)))"
      using en inv Stops by (auto simp: deb_inv_def stop_inv_def)
    have dom: "dom (deb_pending (sy_d s)) = dom (map_of (db_instances (sy_d s)))"
      by (auto simp: deb_pending_def)
    have "queue_of t = (queue_of s)\<lparr>qu_pending := (\<lambda>_. None), qu_closed := True,
      qu_taken := image_mset (the \<circ> qu_pending (queue_of s)) (mset_set (dom (qu_pending (queue_of s)))) +
        qu_taken (queue_of s)\<rparr>"
      using D l run pendings_mset_set [OF dist] dom
      by (simp add: t Stops Stop_section_def queue_of_def deb_pending_def fun_eq_iff)
    moreover have "queue_step (queue_of s) \<dots>"
      by (rule queue_step.close) (simp_all add: queue_of_def op dom finite_dom_map_of)
    ultimately show ?thesis by simp
  next
    case Flushes
    then obtain e es where f: "sy_stop s = Flushing (e # es)"
      using en by (auto split: stop_pc.splits list.splits)
    have "queue_of t = (queue_of s)\<lparr>qu_taken := in_flight (db_timers (sy_d s)) + mset es,
        qu_out := qu_out (queue_of s) @ [e]\<rparr>"
      using f by (simp add: t Flushes queue_of_def deb_pending_def)
    moreover have "queue_step (queue_of s) \<dots>"
      by (rule queue_step.publish) (simp add: queue_of_def f)
    ultimately show ?thesis by simp
  next
    case Waits
    then show ?thesis using en by (simp add: t queue_of_def)
  qed
qed

section \<open>The interface of the monitor\<close>

text \<open>
  What the monitor relies on when it submits: the pending event of the instance becomes the
  submitted one, no other instance is touched, and a closed queue ignores submissions.
\<close>

locale event_queue =
  fixes submit :: "string \<Rightarrow> StatusEvent \<Rightarrow> 'd \<Rightarrow> 'd"
    and pending :: "'d \<Rightarrow> string \<rightharpoonup> StatusEvent"
    and closed :: "'d \<Rightarrow> bool"
  assumes pending_submit: "\<not> closed d \<Longrightarrow> pending (submit i e d) = (pending d)(i \<mapsto> e)"
    and closed_ignores: "closed d \<Longrightarrow> submit i e d = d"
    and closed_submit: "closed (submit i e d) = closed d"

interpretation deb: event_queue "Submit now" deb_pending db_stopped for now
  by unfold_locales (simp_all add: deb_pending_Submit, simp_all add: Submit_def Let_def)

text \<open>The live timer of a pending event publishes it when its callback gets the lock.\<close>

lemma pending_is_live:
  assumes r: "deb_reachable interval start s" and "deb_pending (sy_d s) i = Some e"
  shows "\<exists>t \<tau>. t < length (db_timers (sy_d s)) \<and> tm_instance (db_timers (sy_d s) ! t) = i \<and>
      tm_phase (db_timers (sy_d s) ! t) \<in> {Armed, Fired} \<and>
      sy_last s i = Some (\<tau>, e) \<and> tm_due (db_timers (sy_d s) ! t) = \<tau> + interval \<and>
      tm_phase (db_timers (callback_section t (sy_d s)) ! t) = Publishing e"
proof -
  note inv = deb_reachable_inv [OF r]
  obtain st where st: "map_of (db_instances (sy_d s)) i = Some st" "is_pending st = e"
    using assms(2) by (auto simp: deb_pending_def)
  then have "live s i st" using inv by (simp add: deb_inv_def)
  then obtain t \<tau> where t: "t < length (db_timers (sy_d s))" "tm_instance (db_timers (sy_d s) ! t) = i"
    "tm_ver (db_timers (sy_d s) ! t) = is_ver st" "tm_phase (db_timers (sy_d s) ! t) \<in> {Armed, Fired}"
    "sy_last s i = Some (\<tau>, e)" "tm_due (db_timers (sy_d s) ! t) = \<tau> + db_interval (sy_d s)"
    unfolding live_def st(2) by blast
  have "\<not> db_stopped (sy_d s)"
  proof
    assume "db_stopped (sy_d s)"
    then have "db_instances (sy_d s) = []" using inv unfolding deb_inv_def stop_inv_def by blast
    with st show False by simp
  qed
  then have "tm_phase (db_timers (callback_section t (sy_d s)) ! t) = Publishing e"
    using t(1-3) st by (simp add: callback_section_def Let_def)
  then show ?thesis using t interval_constant [OF r] by auto
qed

section \<open>Sample runs\<close>

definition sample_event :: "string \<Rightarrow> StatusEvent" where
  "sample_event m = \<lparr>ev_InstanceID = ''vol'', ev_Status = RUNNING, ev_Message = m\<rparr>"

definition stop_run :: "label list" where
  "stop_run =
     [Submits ''vol'' (sample_event ''one''), Submits ''other'' (sample_event ''two''),
      Stops [''other'', ''vol''], Flushes, Flushes, Waits]"

lemma stop_run_result:
  "case perform_all (deb_init 100 0) stop_run of
     None \<Rightarrow> False | Some s \<Rightarrow> sy_stop s = Returned \<and> length (sy_out s) = 2"
  by code_simp

lemma stop_run_flushing:
  "case perform_all (deb_init 100 0) (take 3 stop_run) of
     None \<Rightarrow> False | Some s \<Rightarrow> (case sy_stop s of Flushing es \<Rightarrow> length es = 2 | _ \<Rightarrow> False)"
  by code_simp

text \<open>A run that stays prompt: two submissions, of which the second is published.\<close>

definition window_run :: "label list" where
  "window_run =
     [Submits ''vol'' (sample_event ''one''), Tick 50, Submits ''vol'' (sample_event ''two''),
      Tick 150, Fires 1]"

fun all_prompt :: "deb_sys \<Rightarrow> label list \<Rightarrow> bool" where
  "all_prompt s [] = True"
| "all_prompt s (l # ls) = (prompt s l \<and> all_prompt (perform s l) ls)"

lemma all_prompt_reachable:
  "prompt_reachable iv st s \<Longrightarrow> perform_all s ls = Some t \<Longrightarrow> all_prompt s ls \<Longrightarrow> prompt_reachable iv st t"
  by (induction ls arbitrary: s) (auto intro: prompt_reachable.step deb_step.intros split: if_splits)

lemma window_run_eval:
  "all_prompt (deb_init 100 0) window_run \<and>
   (case perform_all (deb_init 100 0) window_run of
     None \<Rightarrow> False
   | Some s \<Rightarrow> enabled s (Locks 1) \<and> tm_instance (db_timers (sy_d s) ! 1) = ''vol'' \<and>
       (case tm_phase (db_timers (sy_d (perform s (Locks 1))) ! 1) of Publishing e \<Rightarrow> True | _ \<Rightarrow> False))"
  by code_simp

lemma window_run_result:
  "\<exists>s e. prompt_reachable 100 0 s \<and> perform_all (deb_init 100 0) window_run = Some s \<and>
    enabled s (Locks 1) \<and> tm_phase (db_timers (sy_d (perform s (Locks 1))) ! 1) = Publishing e \<and>
    tm_instance (db_timers (sy_d s) ! 1) = ''vol''"
  using window_run_eval all_prompt_reachable [OF prompt_reachable.init]
  by (auto split: option.splits phase.splits simp del: enabled.simps perform.simps)

text \<open>
  The sample run of the early publication. The first callback has fired and waits for the lock
  while a second submission replaces its event and a third comes after the second has been
  published: the instance is new, its version is 1 again, and the first callback takes the
  event the moment it is submitted.
\<close>

definition stale_run :: "label list" where
  "stale_run =
     [Submits ''vol'' (sample_event ''one''), Tick 100, Fires 0,
      Submits ''vol'' (sample_event ''two''), Tick 200, Fires 1, Locks 1, Returns 1,
      Submits ''vol'' (sample_event ''three''), Locks 0, Returns 0]"

lemma stale_run_result:
  "case perform_all (deb_init 100 0) stale_run of
     None \<Rightarrow> False
   | Some s \<Rightarrow> sy_now s = 200 \<and> map ev_Message (sy_out s) = [''two'', ''three''] \<and>
       sy_last s ''vol'' = Some (200, sample_event ''three'')"
  by code_simp

end
