(* ===== verification/Config.thy ===== *)
theory Config
  imports Convert
begin

text \<open>
  The configuration (\<^verbatim>\<open>internal/config/config.go\<close>): the settings, the environment variable, the
  default and the \<^verbatim>\<open>notEmpty\<close> flag of each, and \<^verbatim>\<open>Load\<close>, which parses and then validates. The
  parser of struct tags (\<^verbatim>\<open>caarlos0/env\<close>) is a parameter.
\<close>

record ServerConfig =
  sc_Address :: string
  sc_ShutdownTimeout :: duration
  sc_ReadTimeout :: duration
  sc_WriteTimeout :: duration
  sc_IdleTimeout :: duration
  sc_RequestTimeout :: duration

record ProviderConfig =
  pr_Name :: string
  pr_DisplayName :: string
  pr_Endpoint :: string
  pr_Region :: string
  pr_Zone :: string

record DCMConfig =
  dcm_RegistrationURL :: string

record KubernetesConfig =
  ku_Namespace :: string
  ku_Kubeconfig :: string
  ku_DefaultStorageClass :: string
  ku_DefaultAccessMode :: string

record NATSConfig =
  nats_URL :: string

record MonitoringConfig =
  mo_DebounceMs :: int
  mo_ResyncPeriod :: duration
  mo_PublishMaxAttempts :: int

record Config =
  cf_Server :: ServerConfig
  cf_Provider :: ProviderConfig
  cf_DCM :: DCMConfig
  cf_Kubernetes :: KubernetesConfig
  cf_NATS :: NATSConfig
  cf_Monitoring :: MonitoringConfig

text \<open>
  The tags: environment variable (prefix included), \<^verbatim>\<open>notEmpty\<close>, \<^verbatim>\<open>envDefault\<close>.
\<close>

definition env_tags :: "(string \<times> bool \<times> string option) list" where
  "env_tags =
     [(''SP_SERVER_ADDRESS'', False, Some '':8080''),
      (''SP_SERVER_SHUTDOWN_TIMEOUT'', False, Some ''15s''),
      (''SP_SERVER_READ_TIMEOUT'', False, Some ''15s''),
      (''SP_SERVER_WRITE_TIMEOUT'', False, Some ''15s''),
      (''SP_SERVER_IDLE_TIMEOUT'', False, Some ''60s''),
      (''SP_SERVER_REQUEST_TIMEOUT'', False, Some ''30s''),
      (''SP_NAME'', True, None),
      (''SP_DISPLAY_NAME'', False, None),
      (''SP_ENDPOINT'', True, None),
      (''SP_REGION'', False, None),
      (''SP_ZONE'', False, None),
      (''DCM_REGISTRATION_URL'', True, None),
      (''SP_K8S_NAMESPACE'', False, Some ''default''),
      (''SP_K8S_KUBECONFIG'', False, None),
      (''SP_K8S_DEFAULT_STORAGE_CLASS'', False, None),
      (''SP_K8S_DEFAULT_ACCESS_MODE'', False, Some ''ReadWriteOnce''),
      (''SP_NATS_URL'', True, None),
      (''SP_MONITOR_DEBOUNCE_MS'', False, Some ''500''),
      (''SP_MONITOR_RESYNC_PERIOD'', False, Some ''10m''),
      (''SP_MONITOR_PUBLISH_MAX_ATTEMPTS'', False, Some ''5'')]"

type_synonym environment = "string \<Rightarrow> string option"

text \<open>The text a field is parsed from: the variable, else the default, else nothing.\<close>

definition env_value :: "environment \<Rightarrow> string \<Rightarrow> string" where
  "env_value env name =
     (case env name of
        Some v \<Rightarrow> v
      | None \<Rightarrow> (case map_of env_tags name of Some (_, Some d) \<Rightarrow> d | _ \<Rightarrow> ''''))"

text \<open>
  The parser, documented: a field tagged \<^verbatim>\<open>notEmpty\<close> makes the parse fail when its variable is
  empty or unset, and a string field gets the text of its variable or default. An empty variable
  of a field with a default is left open.
\<close>

locale env_parser =
  fixes Parse :: "environment \<Rightarrow> string + Config"
  assumes required: "(name, True, d) \<in> set env_tags \<Longrightarrow> env name = None \<or> env name = Some '''' \<Longrightarrow>
      \<exists>err. Parse env = Inl err"
    and strings: "Parse env = Inr cfg \<Longrightarrow>
      pr_Name (cf_Provider cfg) = env_value env ''SP_NAME'' \<and>
      pr_Endpoint (cf_Provider cfg) = env_value env ''SP_ENDPOINT'' \<and>
      dcm_RegistrationURL (cf_DCM cfg) = env_value env ''DCM_REGISTRATION_URL'' \<and>
      nats_URL (cf_NATS cfg) = env_value env ''SP_NATS_URL'' \<and>
      (env ''SP_K8S_DEFAULT_ACCESS_MODE'' \<noteq> Some '''' \<longrightarrow>
         ku_DefaultAccessMode (cf_Kubernetes cfg) = env_value env ''SP_K8S_DEFAULT_ACCESS_MODE'')"

definition Config_validate :: "Config \<Rightarrow> string option" where
  "Config_validate c =
     (let mode = ku_DefaultAccessMode (cf_Kubernetes c) in
      if mode \<in> set [''ReadWriteOnce'', ''ReadOnlyMany'', ''ReadWriteMany'', ''''] then None
      else Some (''invalid SP_K8S_DEFAULT_ACCESS_MODE '' @ go_quote mode @
                 '': must be ReadWriteOnce, ReadOnlyMany, or ReadWriteMany''))"

definition Load :: "(environment \<Rightarrow> string + Config) \<Rightarrow> environment \<Rightarrow> string + Config" where
  "Load Parse env =
     (case Parse env of
        Inl err \<Rightarrow> Inl (''loading configuration: '' @ err)
      | Inr cfg \<Rightarrow>
          (case Config_validate cfg of
             Some err \<Rightarrow> Inl (''loading configuration: '' @ err)
           | None \<Rightarrow> Inr cfg))"

text \<open>The store's configuration, as \<^verbatim>\<open>main\<close> copies it.\<close>

definition k8sCfg :: "Config \<Rightarrow> K8sConfig" where
  "k8sCfg cfg =
     \<lparr>kc_Namespace = ku_Namespace (cf_Kubernetes cfg),
      kc_DefaultStorageClass = ku_DefaultStorageClass (cf_Kubernetes cfg),
      kc_DefaultAccessMode = ku_DefaultAccessMode (cf_Kubernetes cfg)\<rparr>"

lemma Load_Inr: "Load Parse env = Inr cfg \<longleftrightarrow> Parse env = Inr cfg \<and> Config_validate cfg = None"
  by (auto simp: Load_def split: sum.splits option.splits)

lemma Config_validate_None:
  "Config_validate c = None \<longleftrightarrow>
     ku_DefaultAccessMode (cf_Kubernetes c) = '''' \<or> supported_mode (ku_DefaultAccessMode (cf_Kubernetes c))"
  by (auto simp: Config_validate_def supported_mode_iff Let_def)

lemma validated_mode_resolves:
  assumes "Config_validate c = None" and "Option.bind (k8s_hints s) kh_AccessMode = None"
  shows "\<exists>m. resolveAccessMode s (kc_DefaultAccessMode (k8sCfg c)) = Inr m \<and> supported_mode m"
  using assms
  by (auto simp: resolveAccessMode_def k8sCfg_def Config_validate_None supported_mode_iff)

context env_parser
begin

lemma Load_requires:
  assumes "Load Parse env = Inr cfg" and "(name, True, d) \<in> set env_tags"
  shows "\<exists>v. env name = Some v \<and> v \<noteq> ''''"
  using assms required [where env = env and name = name and d = d] by (cases "env name") (auto simp: Load_Inr)

lemma Load_fails_early:
  assumes "(name, True, d) \<in> set env_tags" and "env name = None \<or> env name = Some ''''"
  shows "\<exists>err. Load Parse env = Inl err"
  using required [where env = env and name = name and d = d] assms by (auto simp: Load_def)

end

lemma loaded_modes:
  assumes "Load Parse env = Inr cfg" and "Option.bind (k8s_hints s) kh_AccessMode = None"
  shows "supported_mode (wanted_mode s (k8sCfg cfg))"
  using assms by (auto simp: Load_Inr Config_validate_None wanted_mode_def k8sCfg_def supported_mode_iff)

context env_parser
begin

lemma loaded_names:
  assumes "Load Parse env = Inr cfg"
  shows "\<forall>name \<in> {''SP_NAME'', ''SP_ENDPOINT'', ''DCM_REGISTRATION_URL'', ''SP_NATS_URL''}.
      \<exists>v. env name = Some v \<and> v \<noteq> ''''"
    and "pr_Name (cf_Provider cfg) \<noteq> ''''" and "nats_URL (cf_NATS cfg) \<noteq> ''''"
proof -
  have tag: "(name, True, None) \<in> set env_tags"
    if "name \<in> {''SP_NAME'', ''SP_ENDPOINT'', ''DCM_REGISTRATION_URL'', ''SP_NATS_URL''}" for name
    using that by (auto simp: env_tags_def)
  show all: "\<forall>name \<in> {''SP_NAME'', ''SP_ENDPOINT'', ''DCM_REGISTRATION_URL'', ''SP_NATS_URL''}.
      \<exists>v. env name = Some v \<and> v \<noteq> ''''"
    using Load_requires [OF assms tag] by blast
  have "Parse env = Inr cfg" using assms by (simp add: Load_Inr)
  from strings [OF this] all show "pr_Name (cf_Provider cfg) \<noteq> ''''" and "nats_URL (cf_NATS cfg) \<noteq> ''''"
    by (auto simp: env_value_def)
qed

end

section \<open>A concrete parser\<close>

text \<open>
  A parser that checks the required variables and copies the strings, with the defaults of the
  other settings: the instance at which the theorems about \<open>Load\<close> are applied.
\<close>

definition ref_Parse :: "environment \<Rightarrow> string + Config" where
  "ref_Parse env =
     (case List.find (\<lambda>(name, notEmpty, _). notEmpty \<and> (env name = None \<or> env name = Some '''')) env_tags of
        Some (name, _, _) \<Rightarrow> Inl (''environment variable '' @ go_quote name @ '' should not be empty'')
      | None \<Rightarrow>
          Inr \<lparr>cf_Server = \<lparr>sc_Address = env_value env ''SP_SERVER_ADDRESS'',
                 sc_ShutdownTimeout = 15 * Second, sc_ReadTimeout = 15 * Second,
                 sc_WriteTimeout = 15 * Second, sc_IdleTimeout = 60 * Second,
                 sc_RequestTimeout = 30 * Second\<rparr>,
               cf_Provider = \<lparr>pr_Name = env_value env ''SP_NAME'',
                 pr_DisplayName = env_value env ''SP_DISPLAY_NAME'',
                 pr_Endpoint = env_value env ''SP_ENDPOINT'', pr_Region = env_value env ''SP_REGION'',
                 pr_Zone = env_value env ''SP_ZONE''\<rparr>,
               cf_DCM = \<lparr>dcm_RegistrationURL = env_value env ''DCM_REGISTRATION_URL''\<rparr>,
               cf_Kubernetes = \<lparr>ku_Namespace = env_value env ''SP_K8S_NAMESPACE'',
                 ku_Kubeconfig = env_value env ''SP_K8S_KUBECONFIG'',
                 ku_DefaultStorageClass = env_value env ''SP_K8S_DEFAULT_STORAGE_CLASS'',
                 ku_DefaultAccessMode = env_value env ''SP_K8S_DEFAULT_ACCESS_MODE''\<rparr>,
               cf_NATS = \<lparr>nats_URL = env_value env ''SP_NATS_URL''\<rparr>,
               cf_Monitoring = \<lparr>mo_DebounceMs = 500, mo_ResyncPeriod = 600 * Second,
                 mo_PublishMaxAttempts = 5\<rparr>\<rparr>)"

interpretation ref_env: env_parser ref_Parse
proof unfold_locales
  fix name d and env :: environment
  assume a: "(name, True, d) \<in> set env_tags" and e: "env name = None \<or> env name = Some ''''"
  have "\<exists>x. x \<in> set env_tags \<and>
      (case x of (name, notEmpty, _) \<Rightarrow> notEmpty \<and> (env name = None \<or> env name = Some ''''))"
    by (rule exI [of _ "(name, True, d)"]) (use a e in simp)
  then have "List.find (\<lambda>(name, notEmpty, _). notEmpty \<and> (env name = None \<or> env name = Some '''')) env_tags \<noteq> None"
    unfolding find_None_iff by blast
  then show "\<exists>err. ref_Parse env = Inl err" by (auto simp: ref_Parse_def)
qed (auto simp: ref_Parse_def split: option.splits)

definition ref_env :: environment where
  "ref_env =
     map_of [(''SP_NAME'', ''k8s-storage-sp''), (''SP_ENDPOINT'', ''http://sp''),
             (''DCM_REGISTRATION_URL'', ''http://dcm''), (''SP_NATS_URL'', ''nats://bus'')]"

end
