(* ===== verification/Monitor.thy ===== *)
theory Monitor
  imports Debouncer Config
begin

text \<open>
  The status monitor: \<^verbatim>\<open>monitor.go\<close>, \<^verbatim>\<open>k8s_events.go\<close> and \<^verbatim>\<open>config.go\<close> of
  \<^verbatim>\<open>internal/monitoring\<close>. The handlers of the informers compute a status event and queue it
  with the debouncer unless it is a repetition; the debouncer's callback publishes it with
  retries. The informers, the lister and the publisher are parameters.
\<close>

section \<open>State and inputs\<close>

record MonitorConfig =
  mc_Namespace :: string
  mc_DebounceMs :: int
  mc_ResyncPeriod :: duration
  mc_PublishMaxAttempts :: int
  mc_ShutdownPublishTimeout :: duration

record StatusMonitor =
  sm_cfg :: MonitorConfig
  sm_lastPublished :: "string \<rightharpoonup> StatusEvent"
  sm_lastSubmitted :: "string \<rightharpoonup> StatusEvent"

definition NewStatusMonitor :: "MonitorConfig \<Rightarrow> StatusMonitor" where
  "NewStatusMonitor cfg =
     \<lparr>sm_cfg = cfg, sm_lastPublished = (\<lambda>_. None), sm_lastSubmitted = (\<lambda>_. None)\<rparr>"

text \<open>A Kubernetes \<^verbatim>\<open>Event\<close> as the handler reads it.\<close>

record k8s_event =
  ke_Type :: string
  ke_Reason :: string
  ke_Message :: string
  ke_InvolvedKind :: string
  ke_InvolvedNamespace :: string
  ke_InvolvedName :: string
  ke_Labels :: "labels option"

text \<open>
  What an informer can hand to a handler as \<^verbatim>\<open>any\<close>: a PVC, an event, the tombstone of a missed
  deletion around such a value, some other object with metadata, or anything else.
\<close>

datatype 'q informer_obj =
    ObjPVC "'q pvc"
  | ObjEvent k8s_event
  | ObjTombstone "'q informer_obj"
  | ObjMeta "labels option"
  | ObjOther

section \<open>Submitting a change\<close>

text \<open>
  \<^verbatim>\<open>submitIfChanged\<close> up to the release of \<^verbatim>\<open>m.mu\<close>; the flag tells whether \<^verbatim>\<open>debouncer.Submit\<close>
  follows.
\<close>

definition submit_section :: "StatusEvent \<Rightarrow> StatusMonitor \<Rightarrow> StatusMonitor \<times> bool" where
  "submit_section event m =
     (if (case sm_lastPublished m (ev_InstanceID event) of
            Some prev \<Rightarrow> ev_Status prev = ev_Status event \<and> ev_Message prev = ev_Message event
          | None \<Rightarrow> False)
      then (m, False)
      else if (case sm_lastSubmitted m (ev_InstanceID event) of
            Some latest \<Rightarrow> ev_Status latest = FAILED \<and> ev_Status event = PROVISIONING
          | None \<Rightarrow> False)
      then (m, False)
      else (m\<lparr>sm_lastSubmitted := (sm_lastSubmitted m)(ev_InstanceID event \<mapsto> event)\<rparr>, True))"

text \<open>\<open>submit\<close> is \<^verbatim>\<open>Submit\<close> of the debouncer, \<open>'d\<close> the debouncer's state.\<close>

definition submitIfChanged ::
  "(string \<Rightarrow> StatusEvent \<Rightarrow> 'd \<Rightarrow> 'd) \<Rightarrow> StatusEvent \<Rightarrow> StatusMonitor \<times> 'd \<Rightarrow> StatusMonitor \<times> 'd" where
  "submitIfChanged submit event s =
     (case submit_section event (fst s) of
        (m', go) \<Rightarrow> (m', if go then submit (ev_InstanceID event) event (snd s) else snd s))"

section \<open>The handlers\<close>

definition handlePVCEvent ::
  "(string \<Rightarrow> StatusEvent \<Rightarrow> 'd \<Rightarrow> 'd) \<Rightarrow> 'q informer_obj \<Rightarrow> StatusMonitor \<times> 'd \<Rightarrow> StatusMonitor \<times> 'd"
  where
  "handlePVCEvent submit obj s =
     (case obj of
        ObjPVC pvc \<Rightarrow>
          (let instanceID = ExtractInstanceID (pvc_Labels pvc) in
           if instanceID = '''' then s
           else
             (case MapPVCToStatus (Some pvc) of
                (status, msg) \<Rightarrow>
                  submitIfChanged submit
                    \<lparr>ev_InstanceID = instanceID, ev_Status = status, ev_Message = msg\<rparr> s))
      | _ \<Rightarrow> s)"

fun object_labels :: "'q informer_obj \<Rightarrow> labels option option" where
  "object_labels (ObjPVC pvc) = Some (pvc_Labels pvc)"
| "object_labels (ObjEvent e) = Some (ke_Labels e)"
| "object_labels (ObjMeta ls) = Some ls"
| "object_labels _ = None"

definition extractInstanceIDFromDelete :: "'q informer_obj \<Rightarrow> string" where
  "extractInstanceIDFromDelete obj0 =
     (let obj = (case obj0 of ObjTombstone o1 \<Rightarrow> o1 | _ \<Rightarrow> obj0) in
      case object_labels obj of
        None \<Rightarrow> ''''
      | Some ls \<Rightarrow> ExtractInstanceID ls)"

definition handlePVCDelete ::
  "(string \<Rightarrow> StatusEvent \<Rightarrow> 'd \<Rightarrow> 'd) \<Rightarrow> 'q informer_obj \<Rightarrow> StatusMonitor \<times> 'd \<Rightarrow> StatusMonitor \<times> 'd"
  where
  "handlePVCDelete submit obj s =
     (let instanceID = extractInstanceIDFromDelete obj in
      if instanceID = '''' then s
      else submitIfChanged submit
        \<lparr>ev_InstanceID = instanceID, ev_Status = DELETED, ev_Message = ''resource no longer exists''\<rparr> s)"

definition terminalPVCWarningReasons :: "string \<Rightarrow> bool" where
  "terminalPVCWarningReasons r \<longleftrightarrow>
     r \<in> set [''FailedBinding'', ''ProvisioningFailed'', ''FailedProvisioning'', ''AllocationFailed'']"

definition isTerminalPVCWarning :: "k8s_event option \<Rightarrow> bool" where
  "isTerminalPVCWarning event =
     (case event of
        None \<Rightarrow> False
      | Some e \<Rightarrow>
          if ke_Type e \<noteq> ''Warning'' then False
          else if ke_InvolvedKind e \<noteq> ''PersistentVolumeClaim'' then False
          else terminalPVCWarningReasons (ke_Reason e))"

text \<open>\<open>lister ns name\<close> is the lookup in the PVC cache.\<close>

definition handleWarningEvent ::
  "(string \<Rightarrow> string \<Rightarrow> 'e + 'q pvc) \<Rightarrow> (string \<Rightarrow> StatusEvent \<Rightarrow> 'd \<Rightarrow> 'd) \<Rightarrow> 'q informer_obj \<Rightarrow>
     StatusMonitor \<times> 'd \<Rightarrow> StatusMonitor \<times> 'd" where
  "handleWarningEvent lister submit obj s =
     (case obj of
        ObjEvent event \<Rightarrow>
          if \<not> isTerminalPVCWarning (Some event) then s
          else
            (let ns = (if ke_InvolvedNamespace event = '''' then mc_Namespace (sm_cfg (fst s))
                       else ke_InvolvedNamespace event)
             in case lister ns (ke_InvolvedName event) of
                  Inl err \<Rightarrow> s
                | Inr pvc \<Rightarrow>
                    (let instanceID = ExtractInstanceID (pvc_Labels pvc) in
                     if instanceID = '''' then s
                     else
                       (let msg = (if ke_Message event = '''' then ''PVC failure: '' @ ke_Reason event
                                   else ke_Reason event @ '': '' @ ke_Message event)
                        in submitIfChanged submit
                             \<lparr>ev_InstanceID = instanceID, ev_Status = FAILED, ev_Message = msg\<rparr> s)))
      | _ \<Rightarrow> s)"

section \<open>Publishing with retries\<close>

text \<open>
  The loop from attempt \<open>attempt\<close> on. \<open>publish n\<close> is the error of the \<open>n\<close>-th call of \<^verbatim>\<open>Publish\<close>,
  \<open>cancelled n\<close> says that the wait after it ends by the context. The result is whether an attempt
  succeeded, the number of calls made and the waits begun, in order.
\<close>

function publish_attempts ::
  "int \<Rightarrow> (int \<Rightarrow> string option) \<Rightarrow> (int \<Rightarrow> bool) \<Rightarrow> int \<Rightarrow> duration \<Rightarrow> bool \<times> nat \<times> duration list" where
  "publish_attempts maxAttempts publish cancelled attempt backoff =
     (if attempt \<le> maxAttempts then
        (case publish attempt of
           Some err \<Rightarrow>
             if attempt < maxAttempts then
               (if cancelled attempt then (False, 1, [backoff])
                else
                  (case publish_attempts maxAttempts publish cancelled (attempt + 1) (wrap64 (backoff * 2)) of
                     (ok, calls, waits) \<Rightarrow> (ok, Suc calls, backoff # waits)))
             else
               (case publish_attempts maxAttempts publish cancelled (attempt + 1) backoff of
                  (ok, calls, waits) \<Rightarrow> (ok, Suc calls, waits))
         | None \<Rightarrow> (True, 1, []))
      else (False, 0, []))"
  by pat_completeness auto
termination
  by (relation "measure (\<lambda>(maxAttempts, _, _, attempt, _). nat (maxAttempts + 1 - attempt))") auto

declare publish_attempts.simps [simp del]

definition maxAttempts :: "MonitorConfig \<Rightarrow> int" where
  "maxAttempts cfg = (if mc_PublishMaxAttempts cfg < 1 then 5 else mc_PublishMaxAttempts cfg)"

text \<open>The locked section after a publication.\<close>

definition mark_published :: "StatusEvent \<Rightarrow> StatusMonitor \<Rightarrow> StatusMonitor" where
  "mark_published event m =
     (if ev_Status event = DELETED then
        m\<lparr>sm_lastPublished := (sm_lastPublished m)(ev_InstanceID event := None),
          sm_lastSubmitted := (sm_lastSubmitted m)(ev_InstanceID event := None)\<rparr>
      else m\<lparr>sm_lastPublished := (sm_lastPublished m)(ev_InstanceID event \<mapsto> event)\<rparr>)"

definition publishWithRetry ::
  "(int \<Rightarrow> string option) \<Rightarrow> (int \<Rightarrow> bool) \<Rightarrow> StatusEvent \<Rightarrow> StatusMonitor \<Rightarrow>
     StatusMonitor \<times> bool \<times> nat \<times> duration list" where
  "publishWithRetry publish cancelled event m =
     (case publish_attempts (maxAttempts (sm_cfg m)) publish cancelled 1 (10 * Millisecond) of
        (ok, calls, waits) \<Rightarrow> (if ok then mark_published event m else m, ok, calls, waits))"

section \<open>Start and shutdown\<close>

definition shutdownPublishTimeout :: "MonitorConfig \<Rightarrow> duration" where
  "shutdownPublishTimeout cfg =
     (if mc_ShutdownPublishTimeout cfg > 0 then mc_ShutdownPublishTimeout cfg else 30 * Second)"

text \<open>
  The context of one publication: the monitor's while it is alive, else a fresh one with the
  shutdown timeout. \<open>None\<close> stands for no deadline.
\<close>

definition publish_deadline :: "MonitorConfig \<Rightarrow> bool \<Rightarrow> duration option" where
  "publish_deadline cfg ctx_cancelled =
     (if ctx_cancelled then Some (shutdownPublishTimeout cfg) else None)"

text \<open>The interval of the debouncer \<^verbatim>\<open>Start\<close> creates.\<close>

definition debounce_interval :: "MonitorConfig \<Rightarrow> duration" where
  "debounce_interval cfg = wrap64 (mc_DebounceMs cfg * Millisecond)"

text \<open>
  \<open>waitForCacheSync\<close> over the factories in order: \<open>ctx_err n\<close> is the context's error after the
  \<open>n\<close>-th wait, and each factory's result lists its types with whether their cache synced.
\<close>

fun sync_failed :: "(string \<times> bool) list \<Rightarrow> string option" where
  "sync_failed [] = None"
| "sync_failed ((typ, ok) # rest) = (if \<not> ok then Some (''cache sync failed for '' @ typ) else sync_failed rest)"

fun waitForCacheSync :: "(nat \<Rightarrow> string option) \<Rightarrow> nat \<Rightarrow> (string \<times> bool) list list \<Rightarrow> string option" where
  "waitForCacheSync ctx_err n [] = None"
| "waitForCacheSync ctx_err n (synced # factories) =
     (case ctx_err n of
        Some err \<Rightarrow> Some err
      | None \<Rightarrow>
          (case sync_failed synced of
             Some err \<Rightarrow> Some err
           | None \<Rightarrow> waitForCacheSync ctx_err (Suc n) factories))"

text \<open>The monitor's configuration, as \<^verbatim>\<open>main\<close> copies it.\<close>

definition monitorCfg :: "Config \<Rightarrow> MonitorConfig" where
  "monitorCfg cfg =
     \<lparr>mc_Namespace = ku_Namespace (cf_Kubernetes cfg),
      mc_DebounceMs = mo_DebounceMs (cf_Monitoring cfg),
      mc_ResyncPeriod = mo_ResyncPeriod (cf_Monitoring cfg),
      mc_PublishMaxAttempts = mo_PublishMaxAttempts (cf_Monitoring cfg),
      mc_ShutdownPublishTimeout = 0\<rparr>"

section \<open>The event of a notification\<close>

text \<open>Every handler submits at most one event, which depends on the object alone.\<close>

definition pvc_event :: "'q informer_obj \<Rightarrow> StatusEvent option" where
  "pvc_event obj =
     (case obj of
        ObjPVC p \<Rightarrow>
          if ExtractInstanceID (pvc_Labels p) = '''' then None
          else Some \<lparr>ev_InstanceID = ExtractInstanceID (pvc_Labels p),
                     ev_Status = fst (MapPVCToStatus (Some p)), ev_Message = snd (MapPVCToStatus (Some p))\<rparr>
      | _ \<Rightarrow> None)"

definition delete_event :: "'q informer_obj \<Rightarrow> StatusEvent option" where
  "delete_event obj =
     (if extractInstanceIDFromDelete obj = '''' then None
      else Some \<lparr>ev_InstanceID = extractInstanceIDFromDelete obj, ev_Status = DELETED,
                 ev_Message = ''resource no longer exists''\<rparr>)"

definition warning_event ::
  "MonitorConfig \<Rightarrow> (string \<Rightarrow> string \<Rightarrow> 'e + 'q pvc) \<Rightarrow> 'q informer_obj \<Rightarrow> StatusEvent option" where
  "warning_event cfg lister obj =
     (case obj of
        ObjEvent e \<Rightarrow>
          (case lister (if ke_InvolvedNamespace e = '''' then mc_Namespace cfg else ke_InvolvedNamespace e)
                  (ke_InvolvedName e) of
             Inr p \<Rightarrow>
               if isTerminalPVCWarning (Some e) \<and> ExtractInstanceID (pvc_Labels p) \<noteq> '''' then
                 Some \<lparr>ev_InstanceID = ExtractInstanceID (pvc_Labels p), ev_Status = FAILED,
                   ev_Message = (if ke_Message e = '''' then ''PVC failure: '' @ ke_Reason e
                                 else ke_Reason e @ '': '' @ ke_Message e)\<rparr>
               else None
           | Inl _ \<Rightarrow> None)
      | _ \<Rightarrow> None)"

definition submit_event ::
  "(string \<Rightarrow> StatusEvent \<Rightarrow> 'd \<Rightarrow> 'd) \<Rightarrow> StatusEvent option \<Rightarrow> StatusMonitor \<times> 'd \<Rightarrow> StatusMonitor \<times> 'd" where
  "submit_event submit ev s = (case ev of None \<Rightarrow> s | Some e \<Rightarrow> submitIfChanged submit e s)"

lemma handlers_submit_event:
  "handlePVCEvent submit obj s = submit_event submit (pvc_event obj) s"
  "handlePVCDelete submit obj s = submit_event submit (delete_event obj) s"
  "handleWarningEvent lister submit obj s = submit_event submit (warning_event (sm_cfg (fst s)) lister obj) s"
  by (auto simp: handlePVCEvent_def pvc_event_def submit_event_def handlePVCDelete_def delete_event_def
      handleWarningEvent_def warning_event_def Let_def split: informer_obj.splits sum.splits prod.splits)

definition event_ok :: "StatusEvent \<Rightarrow> bool" where
  "event_ok e \<longleftrightarrow> ev_InstanceID e \<noteq> '''' \<and> StorageStatus_Valid (ev_Status e)"

lemma MapPVCToStatus_valid: "StorageStatus_Valid (fst (MapPVCToStatus p))"
proof (cases p)
  case None
  then show ?thesis by (simp add: MapPVCToStatus_def StorageStatus_Valid_def)
next
  case (Some q)
  then show ?thesis by (simp add: MapPVCToStatus_fst StorageStatus_Valid_def)
qed

lemma handler_events_ok:
  "pvc_event obj = Some e \<Longrightarrow> event_ok e"
  "delete_event obj = Some e \<Longrightarrow> event_ok e"
  "warning_event cfg lister obj = Some e \<Longrightarrow> event_ok e"
  by (auto simp: pvc_event_def delete_event_def warning_event_def event_ok_def MapPVCToStatus_valid
      split: informer_obj.splits sum.splits if_splits) (auto simp: StorageStatus_Valid_def)

section \<open>What a submission does\<close>

text \<open>
  \<open>repeats\<close> and \<open>latched\<close> are the two reasons to drop an event: it equals the last published
  one, or it would report provisioning after a failure that is the last submitted one.
\<close>

definition repeats :: "StatusMonitor \<Rightarrow> StatusEvent \<Rightarrow> bool" where
  "repeats m e \<longleftrightarrow>
     (\<exists>p. sm_lastPublished m (ev_InstanceID e) = Some p \<and> ev_Status p = ev_Status e \<and>
        ev_Message p = ev_Message e)"

definition latched :: "StatusMonitor \<Rightarrow> StatusEvent \<Rightarrow> bool" where
  "latched m e \<longleftrightarrow>
     (\<exists>l. sm_lastSubmitted m (ev_InstanceID e) = Some l \<and> ev_Status l = FAILED \<and>
        ev_Status e = PROVISIONING)"

lemma submit_section_cases:
  "submit_section e m =
     (if repeats m e \<or> latched m e then (m, False)
      else (m\<lparr>sm_lastSubmitted := (sm_lastSubmitted m)(ev_InstanceID e \<mapsto> e)\<rparr>, True))"
  by (auto simp: submit_section_def repeats_def latched_def split: option.splits)

context event_queue
begin

lemma submitIfChanged_dropped:
  "repeats m e \<or> latched m e \<Longrightarrow> submitIfChanged submit e (m, d) = (m, d)"
  by (simp add: submitIfChanged_def submit_section_cases)

lemma submitIfChanged_queued:
  assumes "\<not> repeats m e" and "\<not> latched m e" and "\<not> closed d"
    and "submitIfChanged submit e (m, d) = (m', d')"
  shows "pending d' = (pending d)(ev_InstanceID e \<mapsto> e)"
    and "sm_lastSubmitted m' = (sm_lastSubmitted m)(ev_InstanceID e \<mapsto> e)"
    and "sm_lastPublished m' = sm_lastPublished m"
  using assms by (auto simp: submitIfChanged_def submit_section_cases pending_submit)

text \<open>Handlers that run one after another keep the queue and \<^verbatim>\<open>lastSubmitted\<close> together.\<close>

definition in_step :: "StatusMonitor \<times> 'd \<Rightarrow> bool" where
  "in_step s \<longleftrightarrow>
     (\<forall>i e. pending (snd s) i = Some e \<longrightarrow> sm_lastSubmitted (fst s) i = Some e \<and> ev_InstanceID e = i)"

lemma in_step_submit:
  assumes "in_step (m, d)" and "\<not> closed d"
  shows "in_step (submitIfChanged submit e (m, d))"
  using assms by (auto simp: in_step_def submitIfChanged_def submit_section_cases pending_submit)

text \<open>A pending failure is not replaced by a report of provisioning.\<close>

lemma in_step_latch:
  assumes "in_step (m, d)" and "pending d i = Some f" and "ev_Status f = FAILED"
    and "ev_Status e = PROVISIONING" and "submitIfChanged submit e (m, d) = (m', d')" and "\<not> closed d"
  shows "pending d' i = Some f"
proof (cases "ev_InstanceID e = i")
  case True
  then have "latched m e" using assms(1-4) by (auto simp: in_step_def latched_def)
  then show ?thesis using assms(2,5) submitIfChanged_dropped by simp
next
  case False
  then show ?thesis using assms(2,5,6)
    by (auto simp: submitIfChanged_def submit_section_cases pending_submit split: if_splits)
qed

end

section \<open>What the retry loop does\<close>

lemma publish_attempts_ok:
  "fst (publish_attempts n p c a b) \<longleftrightarrow>
     (\<exists>j. a \<le> j \<and> j \<le> n \<and> p j = None \<and> (\<forall>k. a \<le> k \<and> k < j \<longrightarrow> p k \<noteq> None \<and> \<not> c k))"
proof (induction n p c a b rule: publish_attempts.induct)
  case (1 n p c a b)
  show ?case
  proof (cases "a \<le> n")
    case False
    then show ?thesis by (subst publish_attempts.simps) auto
  next
    case le: True
    show ?thesis
    proof (cases "p a")
      case None
      then show ?thesis using le by (subst publish_attempts.simps) auto
    next
      case (Some err)
      have later: "(\<exists>j. a \<le> j \<and> j \<le> n \<and> p j = None \<and> (\<forall>k. a \<le> k \<and> k < j \<longrightarrow> p k \<noteq> None \<and> \<not> c k)) \<longleftrightarrow>
          \<not> c a \<and> (\<exists>j. a + 1 \<le> j \<and> j \<le> n \<and> p j = None \<and>
            (\<forall>k. a + 1 \<le> k \<and> k < j \<longrightarrow> p k \<noteq> None \<and> \<not> c k))" (is "?l \<longleftrightarrow> ?r")
      proof
        assume ?l
        then obtain j where j: "a \<le> j" "j \<le> n" "p j = None" "\<forall>k. a \<le> k \<and> k < j \<longrightarrow> p k \<noteq> None \<and> \<not> c k"
          by blast
        then have "a < j" using Some by (cases "j = a") auto
        then show ?r using j by (intro conjI exI [of _ j]) auto
      next
        assume r: ?r
        then obtain j where j: "a + 1 \<le> j" "j \<le> n" "p j = None"
          "\<forall>k. a + 1 \<le> k \<and> k < j \<longrightarrow> p k \<noteq> None \<and> \<not> c k" by blast
        have "p k \<noteq> None \<and> \<not> c k" if "a \<le> k" "k < j" for k
          using that j(4) r Some by (cases "k = a") auto
        then show ?l using j by (intro exI [of _ j]) auto
      qed
      show ?thesis
      proof (cases "a < n")
        case True
        then show ?thesis
          using 1(1) [OF le Some True] later le Some
          by (subst publish_attempts.simps) (auto split: prod.splits)
      next
        case False
        then show ?thesis
          using 1(2) [OF le Some False] later le Some
          by (subst publish_attempts.simps) (auto split: prod.splits)
      qed
    qed
  qed
qed

lemma publish_attempts_calls:
  "publish_attempts n p c a b = (ok, calls, waits) \<Longrightarrow>
     calls \<le> nat (n + 1 - a) \<and> (a \<le> n \<longrightarrow> 1 \<le> calls) \<and> length waits \<le> nat (n - a) \<and>
     (calls = length waits \<or> calls = Suc (length waits))"
proof (induction n p c a b arbitrary: ok calls waits rule: publish_attempts.induct)
  case (1 n p c a b)
  show ?case
  proof (cases "a \<le> n")
    case False
    then show ?thesis using 1(3) by (subst (asm) publish_attempts.simps) auto
  next
    case le: True
    show ?thesis
    proof (cases "p a")
      case None
      then show ?thesis using le 1(3) by (subst (asm) publish_attempts.simps) auto
    next
      case (Some err)
      consider (last) "\<not> a < n" | (stop) "a < n" "c a" | (go) "a < n" "\<not> c a" by blast
      then show ?thesis
      proof cases
        case last
        then have "publish_attempts n p c (a + 1) b = (False, 0, [])"
          by (subst publish_attempts.simps) auto
        then show ?thesis using last le Some 1(3) by (subst (asm) publish_attempts.simps) auto
      next
        case stop
        then show ?thesis using le Some 1(3) by (subst (asm) publish_attempts.simps) auto
      next
        case go
        obtain ok' calls' waits' where
          r: "publish_attempts n p c (a + 1) (wrap64 (b * 2)) = (ok', calls', waits')"
          by (metis prod_cases3)
        then have "publish_attempts n p c a b = (ok', Suc calls', b # waits')"
          using go le Some by (subst publish_attempts.simps) simp
        then have "calls = Suc calls'" "waits = b # waits'" using 1(3) by simp_all
        then show ?thesis using 1(1) [OF le Some go r] go by auto
      qed
    qed
  qed
qed

lemma publish_attempts_waits:
  "publish_attempts n p c a b = (ok, calls, waits) \<Longrightarrow> wrap64 b = b \<Longrightarrow> i < length waits \<Longrightarrow>
     waits ! i = wrap64 (b * 2 ^ i)"
proof (induction n p c a b arbitrary: ok calls waits i rule: publish_attempts.induct)
  case (1 n p c a b)
  show ?case
  proof (cases "a \<le> n \<and> p a \<noteq> None \<and> a < n")
    case False
    have "publish_attempts n p c (a + 1) b = (False, 0, [])" if "\<not> a < n"
      using that by (subst publish_attempts.simps) auto
    then have "waits = []"
      using False 1(3) by (subst (asm) publish_attempts.simps) (auto split: if_splits option.splits)
    then show ?thesis using 1(5) by simp
  next
    case True
    then obtain err where Some: "p a = Some err" by auto
    show ?thesis
    proof (cases "c a")
      case stop: True
      then have "waits = [b]" using True Some 1(3) by (subst (asm) publish_attempts.simps) auto
      then show ?thesis using 1(4,5) by simp
    next
      case go: False
      obtain ok' calls' waits' where
        r: "publish_attempts n p c (a + 1) (wrap64 (b * 2)) = (ok', calls', waits')"
        by (metis prod_cases3)
      then have "publish_attempts n p c a b = (ok', Suc calls', b # waits')"
        using go True Some by (subst publish_attempts.simps) simp
      then have w: "waits = b # waits'" using 1(3) by simp
      have id: "wrap64 (wrap64 (b * 2)) = wrap64 (b * 2)"
        using wrap64_mult [of "b * 2" 1] by simp
      show ?thesis
      proof (cases i)
        case 0
        then show ?thesis using 1(4) by (simp add: w)
      next
        case (Suc k)
        then have "waits' ! k = wrap64 (wrap64 (b * 2) * 2 ^ k)"
          using 1(1) [OF _ Some _ go r id] True 1(5) w by simp
        then show ?thesis by (simp add: w Suc mult.assoc)
      qed
    qed
  qed
qed

text \<open>The retry loop as a whole.\<close>

lemma publishWithRetry_spec:
  assumes "publishWithRetry publish cancelled event m = (m', ok, calls, waits)"
  shows "ok \<longleftrightarrow> (\<exists>j. 1 \<le> j \<and> j \<le> maxAttempts (sm_cfg m) \<and> publish j = None \<and>
      (\<forall>k. 1 \<le> k \<and> k < j \<longrightarrow> publish k \<noteq> None \<and> \<not> cancelled k))"
    and "m' = (if ok then mark_published event m else m)"
    and "1 \<le> calls" and "int calls \<le> maxAttempts (sm_cfg m)"
    and "int (length waits) < maxAttempts (sm_cfg m)"
    and "waits = map (\<lambda>i. wrap64 (10 * Millisecond * 2 ^ i)) [0 ..< length waits]"
proof -
  obtain r: "publish_attempts (maxAttempts (sm_cfg m)) publish cancelled 1 (10 * Millisecond) = (ok, calls, waits)"
    and m': "m' = (if ok then mark_published event m else m)"
    using assms by (auto simp: publishWithRetry_def split: prod.splits)
  have pos: "1 \<le> maxAttempts (sm_cfg m)" by (simp add: maxAttempts_def)
  show "ok \<longleftrightarrow> (\<exists>j. 1 \<le> j \<and> j \<le> maxAttempts (sm_cfg m) \<and> publish j = None \<and>
      (\<forall>k. 1 \<le> k \<and> k < j \<longrightarrow> publish k \<noteq> None \<and> \<not> cancelled k))"
    using publish_attempts_ok [of "maxAttempts (sm_cfg m)" publish cancelled 1 "10 * Millisecond"] r by simp
  show "m' = (if ok then mark_published event m else m)" by (rule m')
  show "1 \<le> calls" "int calls \<le> maxAttempts (sm_cfg m)" "int (length waits) < maxAttempts (sm_cfg m)"
    using publish_attempts_calls [OF r] pos by auto
  have "wrap64 (10 * Millisecond) = 10 * Millisecond" by (simp add: wrap64_def Millisecond_def)
  then show "waits = map (\<lambda>i. wrap64 (10 * Millisecond * 2 ^ i)) [0 ..< length waits]"
    using publish_attempts_waits [OF r] by (intro nth_equalityI) simp_all
qed

text \<open>Handlers one after another, each at its own time, from the start of the monitor.\<close>

definition handle_all ::
  "(gotime \<times> StatusEvent) list \<Rightarrow> StatusMonitor \<times> Debouncer \<Rightarrow> StatusMonitor \<times> Debouncer" where
  "handle_all es s = foldl (\<lambda>s (now, e). submitIfChanged (Submit now) e s) s es"

lemma handle_all_in_step:
  "deb.in_step s \<Longrightarrow> \<not> db_stopped (snd s) \<Longrightarrow>
   deb.in_step (handle_all es s) \<and> \<not> db_stopped (snd (handle_all es s))"
proof (induction es arbitrary: s)
  case Nil
  then show ?case by (simp add: handle_all_def)
next
  case (Cons x es)
  obtain now e where x: "x = (now, e)" by (cases x)
  obtain m d where s: "s = (m, d)" by (cases s)
  have "deb.in_step (submitIfChanged (Submit now) e s)"
    using deb.in_step_submit [of m d now e] Cons.prems by (simp add: s)
  moreover have "\<not> db_stopped (snd (submitIfChanged (Submit now) e s))"
    using Cons.prems deb.closed_submit by (auto simp: submitIfChanged_def split: prod.splits)
  ultimately show ?case using Cons.IH by (simp add: handle_all_def x)
qed

end
