(* ===== verification/Monitor_System.thy ===== *)
theory Monitor_System
  imports Monitor
begin

text \<open>
  The monitor in operation (\<^verbatim>\<open>Start\<close> in \<^verbatim>\<open>internal/monitoring/monitor.go\<close>): the goroutine that
  delivers PVC notifications, the one that delivers Warning Events, the timers of the
  debouncer, the publications and the shutdown, interleaved at the granularity of the locks.
\<close>

section \<open>State and steps\<close>

text \<open>
  A call of one of the informers' handlers. \<open>cache\<close> is the indexer of the PVC informer, which the
  lister reads; its only error is that an object is not there.
\<close>

type_synonym 'q pvc_cache = "string \<Rightarrow> string \<Rightarrow> 'q pvc option"

definition lister :: "'q pvc_cache \<Rightarrow> string \<Rightarrow> string \<Rightarrow> unit + 'q pvc" where
  "lister cache ns name = (case cache ns name of None \<Rightarrow> Inl () | Some p \<Rightarrow> Inr p)"

datatype 'q notification =
    PVCChanged "'q informer_obj"
  | PVCDeleted "'q informer_obj"
  | EventSeen "'q informer_obj"

fun note_event :: "MonitorConfig \<Rightarrow> 'q pvc_cache \<Rightarrow> 'q notification \<Rightarrow> StatusEvent option" where
  "note_event cfg cache (PVCChanged obj) = pvc_event obj"
| "note_event cfg cache (PVCDeleted obj) = delete_event obj"
| "note_event cfg cache (EventSeen obj) = warning_event cfg (lister cache) obj"

text \<open>The two delivering goroutines.\<close>

datatype deliverer = PVCInformer | EventInformer

fun note_deliverer :: "'q notification \<Rightarrow> deliverer" where
  "note_deliverer (PVCChanged _) = PVCInformer"
| "note_deliverer (PVCDeleted _) = PVCInformer"
| "note_deliverer (EventSeen _) = EventInformer"

text \<open>
  \<open>ms_slot g\<close> is the event a goroutine is about to submit: it has left the locked section of
  \<^verbatim>\<open>submitIfChanged\<close> and not yet called \<^verbatim>\<open>Submit\<close>. \<open>ms_bus\<close> are the events NATS accepted, in order.
  \<open>ms_sent\<close> and \<open>ms_flush_sent\<close> tell which running publications have succeeded and have not yet
  taken \<^verbatim>\<open>m.mu\<close> to record it.
\<close>

record 'q mon_sys =
  ms_cache :: "'q pvc_cache"
  ms_m :: StatusMonitor
  ms_d :: deb_sys
  ms_slot :: "deliverer \<Rightarrow> StatusEvent option"
  ms_bus :: "StatusEvent list"
  ms_sent :: "nat list"
  ms_flush_sent :: bool

definition mon_init :: "MonitorConfig \<Rightarrow> gotime \<Rightarrow> 'q mon_sys" where
  "mon_init cfg now =
     \<lparr>ms_cache = (\<lambda>_ _. None), ms_m = NewStatusMonitor cfg,
      ms_d = deb_init (debounce_interval cfg) now,
      ms_slot = (\<lambda>_. None), ms_bus = [], ms_sent = [], ms_flush_sent = False\<rparr>"

definition timer_event :: "'q mon_sys \<Rightarrow> nat \<Rightarrow> StatusEvent option" where
  "timer_event s t =
     (if t < length (db_timers (sy_d (ms_d s))) then
        (case tm_phase (db_timers (sy_d (ms_d s)) ! t) of Publishing e \<Rightarrow> Some e | _ \<Rightarrow> None)
      else None)"

definition flush_event :: "'q mon_sys \<Rightarrow> StatusEvent option" where
  "flush_event s = (case sy_stop (ms_d s) of Flushing (e # _) \<Rightarrow> Some e | _ \<Rightarrow> None)"

datatype 'q mon_label =
    Cache string string "'q pvc option"
  | Notify "'q notification"
  | Enqueue deliverer
  | Internal label
  | Send nat
  | SendFlush
  | Finish nat
  | FinishFlush

fun internal :: "label \<Rightarrow> bool" where
  "internal (Tick _) = True"
| "internal (Fires _) = True"
| "internal (Locks _) = True"
| "internal (Stops _) = True"
| "internal Waits = True"
| "internal _ = False"

fun mon_enabled :: "'q mon_sys \<Rightarrow> 'q mon_label \<Rightarrow> bool" where
  "mon_enabled s (Cache ns name p) = True"
| "mon_enabled s (Notify n) = (ms_slot s (note_deliverer n) = None)"
| "mon_enabled s (Enqueue g) = (ms_slot s g \<noteq> None)"
| "mon_enabled s (Internal l) = (internal l \<and> enabled (ms_d s) l)"
| "mon_enabled s (Send t) = (timer_event s t \<noteq> None \<and> t \<notin> set (ms_sent s))"
| "mon_enabled s SendFlush = (flush_event s \<noteq> None \<and> \<not> ms_flush_sent s)"
| "mon_enabled s (Finish t) = (timer_event s t \<noteq> None)"
| "mon_enabled s FinishFlush = (flush_event s \<noteq> None)"

text \<open>
  \<open>Send\<close> is the attempt that succeeds; a publication that finishes without it has used up its
  attempts or was cancelled. The two \<open>Finish\<close> steps are the end of \<^verbatim>\<open>publishWithRetry\<close>.
\<close>

fun mon_perform :: "'q mon_sys \<Rightarrow> 'q mon_label \<Rightarrow> 'q mon_sys" where
  "mon_perform s (Cache ns name p) =
     s\<lparr>ms_cache := (ms_cache s)(ns := (ms_cache s ns)(name := p))\<rparr>"
| "mon_perform s (Notify n) =
     (case note_event (sm_cfg (ms_m s)) (ms_cache s) n of
        None \<Rightarrow> s
      | Some e \<Rightarrow>
          (case submit_section e (ms_m s) of
             (m', go) \<Rightarrow> s\<lparr>ms_m := m',
               ms_slot := (ms_slot s)(note_deliverer n := (if go then Some e else None))\<rparr>))"
| "mon_perform s (Enqueue g) =
     (case ms_slot s g of
        None \<Rightarrow> s
      | Some e \<Rightarrow> s\<lparr>ms_d := sys_submit (ev_InstanceID e) e (ms_d s), ms_slot := (ms_slot s)(g := None)\<rparr>)"
| "mon_perform s (Internal l) = s\<lparr>ms_d := perform (ms_d s) l\<rparr>"
| "mon_perform s (Send t) =
     (case timer_event s t of
        None \<Rightarrow> s
      | Some e \<Rightarrow> s\<lparr>ms_bus := ms_bus s @ [e], ms_sent := t # ms_sent s\<rparr>)"
| "mon_perform s SendFlush =
     (case flush_event s of None \<Rightarrow> s | Some e \<Rightarrow> s\<lparr>ms_bus := ms_bus s @ [e], ms_flush_sent := True\<rparr>)"
| "mon_perform s (Finish t) =
     (case timer_event s t of
        None \<Rightarrow> s
      | Some e \<Rightarrow> s\<lparr>ms_d := perform (ms_d s) (Returns t),
          ms_m := (if t \<in> set (ms_sent s) then mark_published e (ms_m s) else ms_m s),
          ms_sent := removeAll t (ms_sent s)\<rparr>)"
| "mon_perform s FinishFlush =
     (case flush_event s of
        None \<Rightarrow> s
      | Some e \<Rightarrow> s\<lparr>ms_d := perform (ms_d s) Flushes,
          ms_m := (if ms_flush_sent s then mark_published e (ms_m s) else ms_m s),
          ms_flush_sent := False\<rparr>)"

inductive mon_reachable :: "MonitorConfig \<Rightarrow> gotime \<Rightarrow> 'q mon_sys \<Rightarrow> bool" for cfg start where
  init: "mon_reachable cfg start (mon_init cfg start)"
| step: "mon_reachable cfg start s \<Longrightarrow> mon_enabled s l \<Longrightarrow> mon_reachable cfg start (mon_perform s l)"

fun mon_run :: "'q mon_sys \<Rightarrow> 'q mon_label list \<Rightarrow> 'q mon_sys option" where
  "mon_run s [] = Some s"
| "mon_run s (l # ls) = (if mon_enabled s l then mon_run (mon_perform s l) ls else None)"

section \<open>The invariant\<close>

text \<open>
  The debouncer inside the monitor runs as in \<^verbatim>\<open>Debouncer\<close>; its running publications that have
  reached the bus are accounted for by \<open>ms_sent\<close> and \<open>ms_flush_sent\<close>.
\<close>

definition sent_events :: "'q mon_sys \<Rightarrow> StatusEvent multiset" where
  "sent_events s =
     image_mset (\<lambda>t. the (timer_event s t)) (mset (ms_sent s)) +
     (if ms_flush_sent s then {#the (flush_event s)#} else {#})"

definition sends_inv :: "'q mon_sys \<Rightarrow> bool" where
  "sends_inv s \<longleftrightarrow>
     distinct (ms_sent s) \<and> (\<forall>t \<in> set (ms_sent s). timer_event s t \<noteq> None) \<and>
     (ms_flush_sent s \<longrightarrow> flush_event s \<noteq> None) \<and>
     mset (ms_bus s) \<subseteq># sent_events s + mset (sy_out (ms_d s)) \<and>
     set_mset (sent_events s) \<subseteq> set (ms_bus s)"

definition published_inv :: "'q mon_sys \<Rightarrow> bool" where
  "published_inv s \<longleftrightarrow>
     (\<forall>i e. sm_lastPublished (ms_m s) i = Some e \<longrightarrow>
        ev_InstanceID e = i \<and> ev_Status e \<noteq> DELETED \<and> e \<in> set (ms_bus s))"

definition events_inv :: "'q mon_sys \<Rightarrow> bool" where
  "events_inv s \<longleftrightarrow>
     (\<forall>e. e \<in># sy_accepted (ms_d s) \<longrightarrow> event_ok e) \<and> (\<forall>g e. ms_slot s g = Some e \<longrightarrow> event_ok e)"

lemma timer_event_eqI:
  "db_timers (sy_d (ms_d s')) = db_timers (sy_d (ms_d s)) \<Longrightarrow> timer_event s' t = timer_event s t"
  by (simp add: timer_event_def)

lemma timer_event_Some:
  "timer_event s t = Some e \<longleftrightarrow>
     t < length (db_timers (sy_d (ms_d s))) \<and> tm_phase (db_timers (sy_d (ms_d s)) ! t) = Publishing e"
  by (auto simp: timer_event_def split: phase.splits)

lemma timer_event_persists:
  assumes "deb_inv (ms_d s)" and "enabled (ms_d s) l" and "timer_event s t = Some e"
    and "l \<noteq> Returns t" and "ms_d s' = perform (ms_d s) l"
  shows "timer_event s' t = Some e"
  using publishing_persists [OF assms(1,2) _ _ assms(4)] assms(3,5) by (simp add: timer_event_Some)

text \<open>The step of the debouncer a step of the monitor makes, if any.\<close>

fun deb_label :: "'q mon_sys \<Rightarrow> 'q mon_label \<Rightarrow> label option" where
  "deb_label s (Enqueue g) = map_option (\<lambda>e. Submits (ev_InstanceID e) e) (ms_slot s g)"
| "deb_label s (Internal l) = Some l"
| "deb_label s (Finish t) = Some (Returns t)"
| "deb_label s FinishFlush = Some Flushes"
| "deb_label s _ = None"

lemma mon_deb_step:
  assumes "mon_enabled s l"
  shows "case deb_label s l of
      None \<Rightarrow> ms_d (mon_perform s l) = ms_d s
    | Some dl \<Rightarrow> enabled (ms_d s) dl \<and> ms_d (mon_perform s l) = perform (ms_d s) dl"
  using assms
  by (cases l) (auto simp: timer_event_def flush_event_def
      split: option.splits prod.splits phase.splits stop_pc.splits list.splits if_splits)

lemma mon_deb_reachable:
  "mon_reachable cfg start s \<Longrightarrow> deb_reachable (debounce_interval cfg) start (ms_d s)"
proof (induction rule: mon_reachable.induct)
  case init
  then show ?case by (simp add: mon_init_def deb_reachable.init)
next
  case (step s l)
  from mon_deb_step [OF step.hyps(2)] step.IH show ?case
    by (cases "deb_label s l") (auto intro: deb_reachable.step deb_step.intros)
qed

lemma mon_deb_inv: "mon_reachable cfg start s \<Longrightarrow> deb_inv (ms_d s)"
  using mon_deb_reachable deb_reachable_inv by blast

lemma sent_events_frame:
  assumes "ms_sent s' = ms_sent s" and "ms_flush_sent s' = ms_flush_sent s"
    and "\<And>t. t \<in> set (ms_sent s) \<Longrightarrow> timer_event s' t = timer_event s t"
    and "ms_flush_sent s \<Longrightarrow> flush_event s' = flush_event s"
  shows "sent_events s' = sent_events s"
proof -
  have "image_mset (\<lambda>t. the (timer_event s' t)) (mset (ms_sent s)) =
      image_mset (\<lambda>t. the (timer_event s t)) (mset (ms_sent s))"
    using assms(3) by (intro image_mset_cong) simp
  then show ?thesis using assms(1,2,4) by (simp add: sent_events_def)
qed

lemma sends_inv_frame:
  assumes "sends_inv s" and "ms_sent s' = ms_sent s" and "ms_flush_sent s' = ms_flush_sent s"
    and "ms_bus s' = ms_bus s" and "sy_out (ms_d s') = sy_out (ms_d s)"
    and "\<And>t. t \<in> set (ms_sent s) \<Longrightarrow> timer_event s' t = timer_event s t"
    and "ms_flush_sent s \<Longrightarrow> flush_event s' = flush_event s"
  shows "sends_inv s'"
proof -
  have "sent_events s' = sent_events s" using assms(2,3,6,7) by (rule sent_events_frame)
  then show ?thesis using assms unfolding sends_inv_def by simp
qed

lemma internal_frame:
  assumes inv: "deb_inv (ms_d s)" and en: "enabled (ms_d s) l" and "sends_inv s"
    and l: "internal l \<or> (\<exists>i e. l = Submits i e)" and d: "ms_d s' = perform (ms_d s) l"
    and o: "ms_sent s' = ms_sent s" "ms_flush_sent s' = ms_flush_sent s" "ms_bus s' = ms_bus s"
  shows "sends_inv s'"
proof (rule sends_inv_frame [OF assms(3) o])
  show "sy_out (ms_d s') = sy_out (ms_d s)"
    using l en by (cases l) (auto simp: d sys_submit_def split: prod.splits)
next
  fix t assume "t \<in> set (ms_sent s)"
  then obtain e where e: "timer_event s t = Some e" using assms(3) by (auto simp: sends_inv_def)
  have "l \<noteq> Returns t" using l by auto
  then have "timer_event s' t = Some e" by (rule timer_event_persists [OF inv en e _ d])
  with e show "timer_event s' t = timer_event s t" by simp
next
  assume "ms_flush_sent s"
  then obtain e es where "sy_stop (ms_d s) = Flushing (e # es)"
    using assms(3) by (auto simp: sends_inv_def flush_event_def split: stop_pc.splits list.splits)
  moreover from this have "sy_stop (ms_d s') = sy_stop (ms_d s)"
    using l en by (cases l) (auto simp: d sys_submit_def)
  ultimately show "flush_event s' = flush_event s" by (simp add: flush_event_def)
qed

lemma sends_inv_send:
  assumes "sends_inv s" and "timer_event s t = Some e" and "t \<notin> set (ms_sent s)"
  shows "sends_inv (s\<lparr>ms_bus := ms_bus s @ [e], ms_sent := t # ms_sent s\<rparr>)"
proof -
  define s' where "s' = s\<lparr>ms_bus := ms_bus s @ [e], ms_sent := t # ms_sent s\<rparr>"
  have te: "timer_event s' u = timer_event s u" for u by (rule timer_event_eqI) (simp add: s'_def)
  have fe: "flush_event s' = flush_event s" by (simp add: flush_event_def s'_def)
  have "sent_events s' = add_mset e (sent_events s)"
    using assms(2) te fe by (simp add: sent_events_def s'_def)
  then have "sends_inv s'"
    using assms te fe by (auto simp: sends_inv_def s'_def)
  then show ?thesis by (simp add: s'_def)
qed

lemma sends_inv_send_flush:
  assumes "sends_inv s" and "flush_event s = Some e" and "\<not> ms_flush_sent s"
  shows "sends_inv (s\<lparr>ms_bus := ms_bus s @ [e], ms_flush_sent := True\<rparr>)"
proof -
  define s' where "s' = s\<lparr>ms_bus := ms_bus s @ [e], ms_flush_sent := True\<rparr>"
  have te: "timer_event s' u = timer_event s u" for u by (rule timer_event_eqI) (simp add: s'_def)
  have fe: "flush_event s' = flush_event s" by (simp add: flush_event_def s'_def)
  have "sent_events s' = add_mset e (sent_events s)"
    using assms(2,3) te fe by (simp add: sent_events_def s'_def)
  then have "sends_inv s'"
    using assms te fe by (auto simp: sends_inv_def s'_def)
  then show ?thesis by (simp add: s'_def)
qed

lemma mset_removeAll:
  "distinct xs \<Longrightarrow> mset xs = (if x \<in> set xs then {#x#} else {#}) + mset (removeAll x xs)"
proof (induction xs)
  case Nil
  then show ?case by simp
next
  case (Cons y ys)
  show ?case
  proof (cases "x = y")
    case True
    then have "removeAll x ys = ys" using Cons.prems by (intro removeAll_id) simp
    then show ?thesis using True by simp
  next
    case False
    then show ?thesis using Cons by simp
  qed
qed

lemma sends_inv_finish:
  assumes inv: "deb_inv (ms_d s)" and "sends_inv s" and e: "timer_event s t = Some e"
    and d: "ms_d s' = perform (ms_d s) (Returns t)" and o: "ms_sent s' = removeAll t (ms_sent s)"
      "ms_flush_sent s' = ms_flush_sent s" "ms_bus s' = ms_bus s"
  shows "sends_inv s'"
proof -
  from e have en: "enabled (ms_d s) (Returns t)"
    and ph: "tm_phase (db_timers (sy_d (ms_d s)) ! t) = Publishing e" by (simp_all add: timer_event_Some)
  have out: "sy_out (ms_d s') = sy_out (ms_d s) @ [e]" and stop: "sy_stop (ms_d s') = sy_stop (ms_d s)"
    using ph by (simp_all add: d)
  have fe: "flush_event s' = flush_event s" by (simp add: flush_event_def stop)
  have te: "timer_event s' u = timer_event s u" if u: "u \<in> set (ms_sent s)" "u \<noteq> t" for u
  proof -
    obtain e' where e': "timer_event s u = Some e'" using u assms(2) by (auto simp: sends_inv_def)
    have "Returns t \<noteq> Returns u" using u by simp
    then have "timer_event s' u = Some e'" by (rule timer_event_persists [OF inv en e' _ d])
    with e' show ?thesis by simp
  qed
  have dist: "distinct (ms_sent s)" using assms(2) by (simp add: sends_inv_def)
  have "image_mset (\<lambda>t. the (timer_event s' t)) (mset (removeAll t (ms_sent s))) =
      image_mset (\<lambda>t. the (timer_event s t)) (mset (removeAll t (ms_sent s)))"
    using te by (intro image_mset_cong) auto
  moreover have "mset (ms_sent s) = (if t \<in> set (ms_sent s) then {#t#} else {#}) + mset (removeAll t (ms_sent s))"
    by (rule mset_removeAll [OF dist])
  ultimately have "sent_events s = (if t \<in> set (ms_sent s) then {#e#} else {#}) + sent_events s'"
    using e fe by (simp add: sent_events_def o)
  then have "sent_events s + mset (sy_out (ms_d s)) \<subseteq># sent_events s' + mset (sy_out (ms_d s'))"
    and "set_mset (sent_events s') \<subseteq> set_mset (sent_events s)"
    by (auto simp: out)
  then show ?thesis
    using assms(2) te fe dist unfolding sends_inv_def o
    by (auto intro: subset_mset.order_trans simp: distinct_removeAll)
qed

lemma sends_inv_finish_flush:
  assumes inv: "deb_inv (ms_d s)" and "sends_inv s" and e: "flush_event s = Some e"
    and d: "ms_d s' = perform (ms_d s) Flushes" and o: "ms_sent s' = ms_sent s"
      "ms_flush_sent s' = False" "ms_bus s' = ms_bus s"
  shows "sends_inv s'"
proof -
  from e obtain es where f: "sy_stop (ms_d s) = Flushing (e # es)"
    by (auto simp: flush_event_def split: stop_pc.splits list.splits)
  have out: "sy_out (ms_d s') = sy_out (ms_d s) @ [e]" using f by (simp add: d)
  have te: "timer_event s' u = timer_event s u" for u by (rule timer_event_eqI) (simp add: d f)
  have "sent_events s = (if ms_flush_sent s then {#e#} else {#}) + sent_events s'"
    using e te by (simp add: sent_events_def o)
  then have "sent_events s + mset (sy_out (ms_d s)) \<subseteq># sent_events s' + mset (sy_out (ms_d s'))"
    and "set_mset (sent_events s') \<subseteq> set_mset (sent_events s)"
    by (auto simp: out)
  then show ?thesis
    using assms(2) te unfolding sends_inv_def o by (auto intro: subset_mset.order_trans)
qed

lemma mon_sends_inv: "mon_reachable cfg start s \<Longrightarrow> sends_inv s"
proof (induction rule: mon_reachable.induct)
  case init
  then show ?case by (simp add: mon_init_def sends_inv_def sent_events_def)
next
  case (step s l)
  note inv = mon_deb_inv [OF step.hyps(1)] and n = step.IH
  show ?case
  proof (cases l)
    case (Cache ns name p)
    then show ?thesis
      by (intro sends_inv_frame [OF n]) (simp_all add: timer_event_def flush_event_def)
  next
    case (Notify nt)
    then show ?thesis
      by (intro sends_inv_frame [OF n])
        (auto simp: timer_event_def flush_event_def split: option.splits prod.splits)
  next
    case (Enqueue g)
    then obtain e where "ms_slot s g = Some e" using step.hyps(2) by auto
    then show ?thesis using Enqueue
      by (intro internal_frame [OF inv _ n, where l = "Submits (ev_InstanceID e) e"]) simp_all
  next
    case (Internal dl)
    then show ?thesis using step.hyps(2) by (intro internal_frame [OF inv _ n, where l = dl]) simp_all
  next
    case (Send t)
    then obtain e where "timer_event s t = Some e" using step.hyps(2) by auto
    then show ?thesis using Send step.hyps(2) sends_inv_send [OF n] by simp
  next
    case SendFlush
    then obtain e where "flush_event s = Some e" using step.hyps(2) by auto
    then show ?thesis using SendFlush step.hyps(2) sends_inv_send_flush [OF n] by simp
  next
    case (Finish t)
    then obtain e where "timer_event s t = Some e" using step.hyps(2) by auto
    then show ?thesis using Finish by (intro sends_inv_finish [OF inv n]) (simp_all del: perform.simps)
  next
    case FinishFlush
    then obtain e where "flush_event s = Some e" using step.hyps(2) by auto
    then show ?thesis using FinishFlush
      by (intro sends_inv_finish_flush [OF inv n]) (simp_all del: perform.simps)
  qed
qed

section \<open>What reaches the bus\<close>

lemma sent_in_flight:
  assumes "sends_inv s"
  shows "sent_events s \<subseteq># in_flight (db_timers (sy_d (ms_d s))) + mset (flushing (sy_stop (ms_d s)))"
proof -
  have "image_mset (\<lambda>t. the (timer_event s t)) (mset (ms_sent s)) \<subseteq># in_flight (db_timers (sy_d (ms_d s)))"
  proof (rule in_flight_among)
    show "distinct (ms_sent s)" using assms by (simp add: sends_inv_def)
  next
    fix t assume "t \<in> set (ms_sent s)"
    then obtain e where e: "timer_event s t = Some e" using assms by (auto simp: sends_inv_def)
    then have "t < length (db_timers (sy_d (ms_d s)))"
      "tm_phase (db_timers (sy_d (ms_d s)) ! t) = Publishing e" by (simp_all add: timer_event_Some)
    with e show "t < length (db_timers (sy_d (ms_d s))) \<and>
        published_by (tm_phase (db_timers (sy_d (ms_d s)) ! t)) = {#the (timer_event s t)#}" by simp
  qed
  moreover have "(if ms_flush_sent s then {#the (flush_event s)#} else {#}) \<subseteq># mset (flushing (sy_stop (ms_d s)))"
    using assms by (auto simp: sends_inv_def flush_event_def split: stop_pc.splits list.splits)
  ultimately show ?thesis unfolding sent_events_def by (rule subset_mset.add_mono)
qed

text \<open>Every event on the bus was submitted, and each submission reaches the bus at most once.\<close>

lemma bus_submitted:
  assumes "mon_reachable cfg start s"
  shows "mset (ms_bus s) \<subseteq># sy_accepted (ms_d s)"
proof -
  note i = mon_sends_inv [OF assms]
  have "mset (ms_bus s) \<subseteq># sent_events s + mset (sy_out (ms_d s))" using i by (simp add: sends_inv_def)
  also have "\<dots> \<subseteq># in_flight (db_timers (sy_d (ms_d s))) + mset (flushing (sy_stop (ms_d s))) + mset (sy_out (ms_d s))"
    using sent_in_flight [OF i] by (rule subset_mset.add_right_mono)
  also have "\<dots> \<subseteq># sy_accepted (ms_d s)"
    using mon_deb_inv [OF assms] unfolding deb_inv_def accounted_def
    by (auto simp: subseteq_mset_def)
  finally show ?thesis .
qed

lemma note_event_ok: "note_event cfg cache n = Some e \<Longrightarrow> event_ok e"
  by (cases n) (auto intro: handler_events_ok)

lemma mon_events_inv: "mon_reachable cfg start s \<Longrightarrow> events_inv s"
proof (induction rule: mon_reachable.induct)
  case init
  then show ?case by (simp add: mon_init_def events_inv_def deb_init_def)
next
  case (step s l)
  have keep: "sy_accepted (perform d dl) = sy_accepted d" if "\<forall>i e. dl \<noteq> Submits i e" for d dl
    using that by (cases dl) (auto split: prod.splits phase.splits stop_pc.splits list.splits)
  show ?case
  proof (cases l)
    case (Cache ns name p)
    then show ?thesis using step.IH by (simp add: events_inv_def)
  next
    case (Notify n)
    then show ?thesis using step.IH note_event_ok
      by (auto simp: events_inv_def submit_section_cases split: option.splits if_splits)
  next
    case (Enqueue g)
    then obtain e where e: "ms_slot s g = Some e" using step.hyps(2) by auto
    then show ?thesis using step.IH Enqueue by (auto simp: events_inv_def sys_submit_def)
  next
    case (Internal dl)
    then have "\<forall>i e. dl \<noteq> Submits i e" using step.hyps(2) by (cases dl) auto
    then show ?thesis using step.IH Internal keep by (simp add: events_inv_def)
  next
    case (Send t)
    then show ?thesis using step.IH by (auto simp: events_inv_def split: option.splits)
  next
    case SendFlush
    then show ?thesis using step.IH by (auto simp: events_inv_def split: option.splits)
  next
    case (Finish t)
    then show ?thesis using step.IH keep [of "Returns t"]
      by (auto simp: events_inv_def simp del: perform.simps split: option.splits)
  next
    case FinishFlush
    then show ?thesis using step.IH keep [of Flushes]
      by (auto simp: events_inv_def simp del: perform.simps split: option.splits)
  qed
qed

lemma bus_events_ok:
  assumes "mon_reachable cfg start s" and "e \<in> set (ms_bus s)"
  shows "event_ok e"
proof -
  have "e \<in># sy_accepted (ms_d s)"
    using bus_submitted [OF assms(1)] assms(2) by (metis mset_subset_eqD set_mset_mset)
  then show ?thesis using mon_events_inv [OF assms(1)] by (simp add: events_inv_def)
qed

lemma mon_published_inv: "mon_reachable cfg start s \<Longrightarrow> published_inv s"
proof (induction rule: mon_reachable.induct)
  case init
  then show ?case by (simp add: mon_init_def published_inv_def NewStatusMonitor_def)
next
  case (step s l)
  note i = mon_sends_inv [OF step.hyps(1)]
  have sent: "the (timer_event s t) \<in> set (ms_bus s)" if "t \<in> set (ms_sent s)" for t
    using that i by (auto simp: sends_inv_def sent_events_def)
  have flush: "the (flush_event s) \<in> set (ms_bus s)" if "ms_flush_sent s"
    using that i by (auto simp: sends_inv_def sent_events_def)
  show ?case
  proof (cases l)
    case (Finish t)
    then obtain e where "timer_event s t = Some e" using step.hyps(2) by auto
    then show ?thesis using step.IH sent [of t] Finish
      by (auto simp: published_inv_def mark_published_def simp del: perform.simps)
  next
    case FinishFlush
    then obtain e where "flush_event s = Some e" using step.hyps(2) by auto
    then show ?thesis using step.IH flush FinishFlush
      by (auto simp: published_inv_def mark_published_def simp del: perform.simps)
  qed (use step.IH in \<open>auto simp: published_inv_def submit_section_cases split: option.splits if_splits\<close>)
qed

section \<open>Sample runs\<close>

definition sample_cfg :: MonitorConfig where
  "sample_cfg = \<lparr>mc_Namespace = ''default'', mc_DebounceMs = 500, mc_ResyncPeriod = 600 * Second,
     mc_PublishMaxAttempts = 5, mc_ShutdownPublishTimeout = 0\<rparr>"

definition sample_pvc :: "string \<Rightarrow> unit pvc" where
  "sample_pvc phase = \<lparr>pvc_Name = ''vol'', pvc_Namespace = ''default'', pvc_Labels = Some (Labels ''vol''),
     pvc_CreationTimestamp = 1, pvc_DeletionTimestamp = None, pvc_AccessModes = [],
     pvc_StorageRequest = None, pvc_StorageClassName = None, pvc_VolumeMode = None,
     pvc_VolumeName = '''', pvc_Phase = phase, pvc_Conditions = []\<rparr>"

definition sample_warning :: k8s_event where
  "sample_warning = \<lparr>ke_Type = ''Warning'', ke_Reason = ''ProvisioningFailed'', ke_Message = ''no space'',
     ke_InvolvedKind = ''PersistentVolumeClaim'', ke_InvolvedNamespace = ''default'',
     ke_InvolvedName = ''vol'', ke_Labels = None\<rparr>"

definition sample_failed :: StatusEvent where
  "sample_failed = \<lparr>ev_InstanceID = ''vol'', ev_Status = FAILED, ev_Message = ''PVC is lost''\<rparr>"

text \<open>
  Two handlers cross between the locked section and \<^verbatim>\<open>Submit\<close>: the report of provisioning, which
  came first, replaces the failure in the debouncer.
\<close>

definition race_run :: "unit mon_label list" where
  "race_run =
     [Cache ''default'' ''vol'' (Some (sample_pvc ClaimPending)),
      Notify (PVCChanged (ObjPVC (sample_pvc ClaimPending))),
      Notify (EventSeen (ObjEvent sample_warning)),
      Enqueue EventInformer, Enqueue PVCInformer,
      Internal (Tick 500000000), Internal (Fires 1), Internal (Locks 1), Send 1, Finish 1]"

lemma race_run_result:
  "case mon_run (mon_init sample_cfg 0) race_run of
     None \<Rightarrow> False
   | Some s \<Rightarrow> map ev_Status (ms_bus s) = [PROVISIONING] \<and>
       map_option ev_Status (sm_lastSubmitted (ms_m s) ''vol'') = Some FAILED \<and>
       db_instances (sy_d (ms_d s)) = [] \<and> ms_slot s PVCInformer = None \<and> ms_slot s EventInformer = None"
  by code_simp

text \<open>A volume that is running, resized and running again within one window.\<close>

definition sample_bound :: "bool \<Rightarrow> unit pvc" where
  "sample_bound resizing = (sample_pvc ClaimBound)\<lparr>pvc_Conditions :=
     (if resizing then [\<lparr>cond_Type = PVC_Resizing, cond_Status = ConditionTrue, cond_LastTransitionTime = 2\<rparr>]
      else [])\<rparr>"

definition publish_run :: "nat \<Rightarrow> gotime \<Rightarrow> unit mon_label list" where
  "publish_run t now = [Internal (Tick now), Internal (Fires t), Internal (Locks t), Send t, Finish t]"

definition back_run :: "unit mon_label list" where
  "back_run =
     [Notify (PVCChanged (ObjPVC (sample_bound False))), Enqueue PVCInformer] @ publish_run 0 500000000 @
     [Notify (PVCChanged (ObjPVC (sample_bound True))), Enqueue PVCInformer,
      Cache ''default'' ''vol'' (Some (sample_bound False)),
      Notify (PVCChanged (ObjPVC (sample_bound False)))] @ publish_run 1 1000000000"

lemma back_run_result:
  "case mon_run (mon_init sample_cfg 0) back_run of
     None \<Rightarrow> False
   | Some s \<Rightarrow> map ev_Status (ms_bus s) = [RUNNING, PROVISIONING] \<and>
       fst (MapPVCToStatus (ms_cache s ''default'' ''vol'')) = RUNNING \<and>
       db_instances (sy_d (ms_d s)) = [] \<and> ms_slot s PVCInformer = None \<and> ms_slot s EventInformer = None"
  by code_simp

text \<open>A Warning Event from before the volume was bound, delivered again by a resync.\<close>

definition old_warning_run :: "unit mon_label list" where
  "old_warning_run =
     [Cache ''default'' ''vol'' (Some (sample_bound False)),
      Notify (PVCChanged (ObjPVC (sample_bound False))), Enqueue PVCInformer] @ publish_run 0 500000000 @
     [Notify (EventSeen (ObjEvent sample_warning)), Enqueue EventInformer] @ publish_run 1 1000000000"

lemma old_warning_run_result:
  "case mon_run (mon_init sample_cfg 0) old_warning_run of
     None \<Rightarrow> False
   | Some s \<Rightarrow> map ev_Status (ms_bus s) = [RUNNING, FAILED] \<and>
       fst (MapPVCToStatus (ms_cache s ''default'' ''vol'')) = RUNNING \<and>
       db_instances (sy_d (ms_d s)) = [] \<and> ms_slot s PVCInformer = None \<and> ms_slot s EventInformer = None"
  by code_simp

lemma mon_run_reachable:
  "mon_reachable cfg start s \<Longrightarrow> mon_run s ls = Some t \<Longrightarrow> mon_reachable cfg start t"
  by (induction ls arbitrary: s) (auto intro: mon_reachable.step split: if_splits)

lemma mon_run_witness:
  assumes "case mon_run (mon_init cfg start) ls of None \<Rightarrow> False | Some s \<Rightarrow> P s"
  shows "\<exists>s. mon_reachable cfg start s \<and> P s"
  using assms mon_run_reachable [OF mon_reachable.init, of cfg start ls] by (auto split: option.splits)

end
