(* ===== verification/Json_Codec.thy ===== *)
theory Json_Codec
  imports Api_Types "HOL-Library.AList" "HOL-Library.Char_ord" "HOL-Library.List_Lexorder"
begin

text \<open>
  The JSON form of the API's types: the struct tags of \<^verbatim>\<open>api/v1alpha1/types.gen.go\<close> as
  \<^verbatim>\<open>encoding/json\<close> reads them, and the methods \<^verbatim>\<open>MarshalJSON\<close>, \<^verbatim>\<open>UnmarshalJSON\<close>, \<^verbatim>\<open>Get\<close> and \<^verbatim>\<open>Set\<close> of
  \<^verbatim>\<open>ProviderHints\<close>. A document is a \<open>json_value\<close>; its bytes are not modelled. The text of an
  instant depends on the time zone of the process, so it is a parameter.
\<close>

section \<open>The package \<open>encoding/json\<close>\<close>

text \<open>
  A decoder updates the value it decodes into, as \<^verbatim>\<open>json.Unmarshal\<close> does: \<^verbatim>\<open>null\<close> leaves anything
  but a pointer as it is, members with the same name are decoded one after the other into the
  same field, members without a field are skipped. \<open>None\<close> is an error.
\<close>

type_synonym 'a decoder = "json_value \<Rightarrow> 'a \<Rightarrow> 'a option"

definition dec_string :: "string decoder" where
  "dec_string j cur = (case j of JString s \<Rightarrow> Some s | JNull \<Rightarrow> Some cur | _ \<Rightarrow> None)"

definition dec_pointer :: "'a \<Rightarrow> 'a decoder \<Rightarrow> 'a option decoder" where
  "dec_pointer zero d j cur =
     (if j = JNull then Some None
      else map_option Some (d j (case cur of None \<Rightarrow> zero | Some x \<Rightarrow> x)))"

definition dec_into :: "('r \<Rightarrow> 'a) \<Rightarrow> (('a \<Rightarrow> 'a) \<Rightarrow> 'r \<Rightarrow> 'r) \<Rightarrow> 'a decoder \<Rightarrow> 'r decoder" where
  "dec_into get upd d j r = map_option (\<lambda>x. upd (\<lambda>_. x) r) (d j (get r))"

text \<open>A member goes to the field of its name, else to the first one whose name differs in case only.\<close>

definition struct_field :: "(string \<times> 'f) list \<Rightarrow> string \<Rightarrow> 'f option" where
  "struct_field fs k =
     (case map_of fs k of
        Some f \<Rightarrow> Some f
      | None \<Rightarrow> map_option snd (List.find (\<lambda>(n, _). to_lower n = to_lower k) fs))"

fun dec_members :: "(string \<times> 'r decoder) list \<Rightarrow> (string \<times> json_value) list \<Rightarrow> 'r \<Rightarrow> 'r option" where
  "dec_members fs [] r = Some r"
| "dec_members fs ((k, j) # ms) r =
     (case struct_field fs k of
        None \<Rightarrow> dec_members fs ms r
      | Some d \<Rightarrow> Option.bind (d j r) (dec_members fs ms))"

definition dec_struct :: "(string \<times> 'r decoder) list \<Rightarrow> 'r decoder" where
  "dec_struct fs j r =
     (case j of JObject ms \<Rightarrow> dec_members fs ms r | JNull \<Rightarrow> Some r | _ \<Rightarrow> None)"

text \<open>A map: every member sets its key. A member \<^verbatim>\<open>null\<close> sets the zero value.\<close>

fun dec_entries :: "'a \<Rightarrow> 'a decoder \<Rightarrow> (string \<times> json_value) list \<Rightarrow> (string \<times> 'a) list \<Rightarrow>
    (string \<times> 'a) list option" where
  "dec_entries zero d [] m = Some m"
| "dec_entries zero d ((k, j) # ms) m =
     Option.bind (d j zero) (\<lambda>x. dec_entries zero d ms (AList.update k x m))"

definition dec_map :: "'a \<Rightarrow> 'a decoder \<Rightarrow> (string \<times> 'a) list decoder" where
  "dec_map zero d j m =
     (case j of JObject ms \<Rightarrow> dec_entries zero d ms m | JNull \<Rightarrow> Some m | _ \<Rightarrow> None)"

definition go_map :: "(string \<times> 'a) list \<Rightarrow> (string \<times> 'a) list" where
  "go_map kvs = fold (\<lambda>(k, v). AList.update k v) kvs []"

text \<open>
  A value decoded into \<^verbatim>\<open>interface{}\<close> is the document itself, with the last of the members of
  one name (numbers are kept as text). Encoding sorts the members.
\<close>

fun any_of :: "json_value \<Rightarrow> json_value" where
  "any_of (JObject ms) = JObject (go_map (map (\<lambda>(k, j). (k, any_of j)) ms))"
| "any_of (JArray js) = JArray (map any_of js)"
| "any_of j = j"

definition sort_members :: "(string \<times> 'a) list \<Rightarrow> (string \<times> 'a) list" where
  "sort_members ms = sort_key fst ms"

fun enc_any :: "json_value \<Rightarrow> json_value" where
  "enc_any (JObject ms) = JObject (sort_members (map (\<lambda>(k, j). (k, enc_any j)) ms))"
| "enc_any (JArray js) = JArray (map enc_any js)"
| "enc_any j = j"

definition member :: "string \<Rightarrow> ('a \<Rightarrow> json_value) \<Rightarrow> 'a option \<Rightarrow> (string \<times> json_value) list" where
  "member k enc v = (case v of None \<Rightarrow> [] | Some x \<Rightarrow> [(k, enc x)])"

section \<open>The types of the API\<close>

definition Marshal_Error :: "Error \<Rightarrow> json_value" where
  "Marshal_Error e = JObject
     (member ''detail'' JString (err_Detail e) @
      member ''instance'' JString (err_Instance e) @
      member ''status'' (\<lambda>n. JNumber (show_int (sint n))) (err_Status e) @
      [(''title'', JString (err_Title e)), (''type'', JString (err_Type e))])"

definition Marshal_Health :: "Health \<Rightarrow> json_value" where
  "Marshal_Health h = JObject
     (member ''path'' JString (hl_Path h) @
      [(''status'', JString (hl_Status h))] @
      member ''type'' JString (hl_Type h) @
      member ''uptime'' (\<lambda>n. JNumber (show_int n)) (hl_Uptime h) @
      member ''version'' JString (hl_Version h))"

definition Marshal_KubernetesProviderHints :: "KubernetesProviderHints \<Rightarrow> json_value" where
  "Marshal_KubernetesProviderHints h = JObject
     (member ''access_mode'' JString (kh_AccessMode h) @
      member ''storage_class'' JString (kh_StorageClass h) @
      member ''volume_mode'' JString (kh_VolumeMode h))"

definition Unmarshal_KubernetesProviderHints :: "KubernetesProviderHints decoder" where
  "Unmarshal_KubernetesProviderHints = dec_struct
     [(''access_mode'', dec_into kh_AccessMode kh_AccessMode_update (dec_pointer [] dec_string)),
      (''storage_class'', dec_into kh_StorageClass kh_StorageClass_update (dec_pointer [] dec_string)),
      (''volume_mode'', dec_into kh_VolumeMode kh_VolumeMode_update (dec_pointer [] dec_string))]"

definition zero_kubernetes_hints :: KubernetesProviderHints where
  "zero_kubernetes_hints = \<lparr>kh_AccessMode = None, kh_StorageClass = None, kh_VolumeMode = None\<rparr>"

definition zero_hints :: ProviderHints where
  "zero_hints = \<lparr>ph_Kubernetes = None, ph_AdditionalProperties = None\<rparr>"

text \<open>The accessors of the additional properties.\<close>

definition ProviderHints_Get :: "ProviderHints \<Rightarrow> string \<Rightarrow> json_value option" where
  "ProviderHints_Get a fieldName =
     (case ph_AdditionalProperties a of None \<Rightarrow> None | Some m \<Rightarrow> map_of m fieldName)"

definition ProviderHints_Set :: "string \<Rightarrow> json_value \<Rightarrow> ProviderHints \<Rightarrow> ProviderHints" where
  "ProviderHints_Set fieldName v a =
     (let m = (case ph_AdditionalProperties a of None \<Rightarrow> [] | Some m \<Rightarrow> m)
      in a\<lparr>ph_AdditionalProperties := Some (AList.update fieldName v m)\<rparr>)"

text \<open>
  \<^verbatim>\<open>UnmarshalJSON\<close>. \<open>object\<close> is the map of raw members; the ones that are left after the
  \<^verbatim>\<open>kubernetes\<close> one are decoded one by one (a value that has been parsed decodes without error).
\<close>

definition ProviderHints_UnmarshalJSON :: "ProviderHints decoder" where
  "ProviderHints_UnmarshalJSON j a =
     (case j of
        JObject ms \<Rightarrow>
          (let object = go_map ms in
           case (case map_of object ''kubernetes'' of
                   Some raw \<Rightarrow>
                     (case dec_pointer zero_kubernetes_hints Unmarshal_KubernetesProviderHints raw
                             (ph_Kubernetes a) of
                        None \<Rightarrow> None
                      | Some k \<Rightarrow> Some (a\<lparr>ph_Kubernetes := k\<rparr>, AList.delete ''kubernetes'' object))
                 | None \<Rightarrow> Some (a, object)) of
             None \<Rightarrow> None
           | Some (a', rest) \<Rightarrow>
               Some (if rest \<noteq> []
                     then a'\<lparr>ph_AdditionalProperties :=
                            Some (go_map (map (\<lambda>(k, v). (k, any_of v)) rest))\<rparr>
                     else a'))
      | JNull \<Rightarrow> Some a
      | _ \<Rightarrow> None)"

definition ProviderHints_MarshalJSON :: "ProviderHints \<Rightarrow> json_value" where
  "ProviderHints_MarshalJSON a =
     (let object = member ''kubernetes'' Marshal_KubernetesProviderHints (ph_Kubernetes a);
          props = (case ph_AdditionalProperties a of None \<Rightarrow> [] | Some m \<Rightarrow> m)
      in JObject (sort_members
           (fold (\<lambda>(fieldName, field). AList.update fieldName (enc_any field)) props object)))"

definition Marshal_VolumeMetadata :: "VolumeMetadata \<Rightarrow> json_value" where
  "Marshal_VolumeMetadata m = JObject
     (member ''labels'' (\<lambda>ls. JObject (sort_members (map (\<lambda>(k, v). (k, JString v)) ls))) (md_Labels m) @
      [(''name'', JString (md_Name m))] @
      member ''namespace'' JString (md_Namespace m) @
      member ''storage_class'' JString (md_StorageClass m) @
      member ''volume_name'' JString (md_VolumeName m))"

definition Unmarshal_VolumeMetadata :: "VolumeMetadata decoder" where
  "Unmarshal_VolumeMetadata = dec_struct
     [(''labels'', dec_into md_Labels md_Labels_update (dec_pointer [] (dec_map [] dec_string))),
      (''name'', dec_into md_Name md_Name_update dec_string),
      (''namespace'', dec_into md_Namespace md_Namespace_update (dec_pointer [] dec_string)),
      (''storage_class'', dec_into md_StorageClass md_StorageClass_update (dec_pointer [] dec_string)),
      (''volume_name'', dec_into md_VolumeName md_VolumeName_update (dec_pointer [] dec_string))]"

definition Marshal_StorageSpec :: "StorageSpec \<Rightarrow> json_value" where
  "Marshal_StorageSpec s = JObject
     ([(''capacity'', JString (spec_Capacity s)),
       (''metadata'', Marshal_VolumeMetadata (spec_Metadata s))] @
      member ''provider_hints'' ProviderHints_MarshalJSON (spec_ProviderHints s) @
      [(''service_type'', JString (spec_ServiceType s))])"

definition Unmarshal_StorageSpec :: "StorageSpec decoder" where
  "Unmarshal_StorageSpec = dec_struct
     [(''capacity'', dec_into spec_Capacity spec_Capacity_update dec_string),
      (''metadata'', dec_into spec_Metadata spec_Metadata_update Unmarshal_VolumeMetadata),
      (''provider_hints'', dec_into spec_ProviderHints spec_ProviderHints_update
         (dec_pointer zero_hints ProviderHints_UnmarshalJSON)),
      (''service_type'', dec_into spec_ServiceType spec_ServiceType_update dec_string)]"

section \<open>Instants\<close>

text \<open>
  \<^verbatim>\<open>time.Time\<close> in JSON: its text, or an error for a year the format cannot show.
\<close>

record time_text =
  tt_Format :: "gotime \<Rightarrow> string option"
  tt_Parse :: "string \<Rightarrow> gotime option"

locale time_texts =
  fixes T :: time_text
  assumes parse_format: "tt_Format T t = Some s \<Longrightarrow> tt_Parse T s = Some t"

definition dec_time :: "time_text \<Rightarrow> gotime decoder" where
  "dec_time T j cur = (case j of JString s \<Rightarrow> tt_Parse T s | JNull \<Rightarrow> Some cur | _ \<Rightarrow> None)"

definition time_member ::
  "time_text \<Rightarrow> string \<Rightarrow> gotime option \<Rightarrow> (string \<times> json_value) list option" where
  "time_member T k v =
     (case v of None \<Rightarrow> Some []
      | Some t \<Rightarrow> map_option (\<lambda>s. [(k, JString s)]) (tt_Format T t))"

definition Marshal_Volume :: "time_text \<Rightarrow> Volume \<Rightarrow> json_value option" where
  "Marshal_Volume T v =
     (case (time_member T ''create_time'' (vol_CreateTime v),
            time_member T ''update_time'' (vol_UpdateTime v)) of
        (Some created, Some updated) \<Rightarrow>
          Some (JObject
            (created @
             member ''id'' JString (vol_Id v) @
             member ''path'' JString (vol_Path v) @
             [(''spec'', Marshal_StorageSpec (vol_Spec v))] @
             member ''status'' JString (vol_Status v) @
             updated))
      | _ \<Rightarrow> None)"

definition Unmarshal_Volume :: "time_text \<Rightarrow> Volume decoder" where
  "Unmarshal_Volume T = dec_struct
     [(''create_time'', dec_into vol_CreateTime vol_CreateTime_update (dec_pointer 0 (dec_time T))),
      (''id'', dec_into vol_Id vol_Id_update (dec_pointer [] dec_string)),
      (''path'', dec_into vol_Path vol_Path_update (dec_pointer [] dec_string)),
      (''spec'', dec_into vol_Spec vol_Spec_update Unmarshal_StorageSpec),
      (''status'', dec_into vol_Status vol_Status_update (dec_pointer [] dec_string)),
      (''update_time'', dec_into vol_UpdateTime vol_UpdateTime_update (dec_pointer 0 (dec_time T)))]"

text \<open>An array stops at the first item that cannot be encoded.\<close>

fun enc_items :: "('a \<Rightarrow> json_value option) \<Rightarrow> 'a list \<Rightarrow> json_value list option" where
  "enc_items enc [] = Some []"
| "enc_items enc (x # xs) =
     Option.bind (enc x) (\<lambda>j. map_option ((#) j) (enc_items enc xs))"

definition Marshal_VolumeList :: "time_text \<Rightarrow> VolumeList \<Rightarrow> json_value option" where
  "Marshal_VolumeList T l =
     (let token = member ''next_page_token'' JString (vl_NextPageToken l) in
      case vl_Volumes l of
        None \<Rightarrow> Some (JObject token)
      | Some vs \<Rightarrow> map_option (\<lambda>js. JObject (token @ [(''volumes'', JArray js)]))
                     (enc_items (Marshal_Volume T) vs))"

definition zero_metadata :: VolumeMetadata where
  "zero_metadata = \<lparr>md_Labels = None, md_Name = [], md_Namespace = None, md_StorageClass = None,
                    md_VolumeName = None\<rparr>"

definition zero_spec :: StorageSpec where
  "zero_spec = \<lparr>spec_Capacity = [], spec_Metadata = zero_metadata, spec_ProviderHints = None,
                spec_ServiceType = []\<rparr>"

definition zero_volume :: Volume where
  "zero_volume = \<lparr>vol_CreateTime = None, vol_Id = None, vol_Path = None, vol_Spec = zero_spec,
                  vol_Status = None, vol_UpdateTime = None\<rparr>"

section \<open>Decoders of the answers\<close>

text \<open>
  An integer of \<open>n\<close> bits: a number written without fraction and exponent, in range. A slice is
  decoded item by item into new zero values.
\<close>

definition dec_int :: "nat \<Rightarrow> int decoder" where
  "dec_int n j cur =
     (case j of
        JNumber s \<Rightarrow>
          (case parse_int s of
             Some i \<Rightarrow> if - (2 ^ (n - 1)) \<le> i \<and> i < 2 ^ (n - 1) then Some i else None
           | None \<Rightarrow> None)
      | JNull \<Rightarrow> Some cur
      | _ \<Rightarrow> None)"

definition dec_int32 :: "int32 decoder" where
  "dec_int32 j cur = map_option of_int (dec_int 32 j (sint cur))"

fun dec_items :: "'a \<Rightarrow> 'a decoder \<Rightarrow> json_value list \<Rightarrow> 'a list option" where
  "dec_items zero d [] = Some []"
| "dec_items zero d (j # js) = Option.bind (d j zero) (\<lambda>x. map_option ((#) x) (dec_items zero d js))"

definition dec_slice :: "'a \<Rightarrow> 'a decoder \<Rightarrow> 'a list decoder" where
  "dec_slice zero d j cur = (case j of JArray js \<Rightarrow> dec_items zero d js | JNull \<Rightarrow> Some [] | _ \<Rightarrow> None)"

definition Unmarshal_Error :: "Error decoder" where
  "Unmarshal_Error = dec_struct
     [(''detail'', dec_into err_Detail err_Detail_update (dec_pointer [] dec_string)),
      (''instance'', dec_into err_Instance err_Instance_update (dec_pointer [] dec_string)),
      (''status'', dec_into err_Status err_Status_update (dec_pointer 0 dec_int32)),
      (''title'', dec_into err_Title err_Title_update dec_string),
      (''type'', dec_into err_Type err_Type_update dec_string)]"

definition Unmarshal_Health :: "Health decoder" where
  "Unmarshal_Health = dec_struct
     [(''path'', dec_into hl_Path hl_Path_update (dec_pointer [] dec_string)),
      (''status'', dec_into hl_Status hl_Status_update dec_string),
      (''type'', dec_into hl_Type hl_Type_update (dec_pointer [] dec_string)),
      (''uptime'', dec_into hl_Uptime hl_Uptime_update (dec_pointer 0 (dec_int 64))),
      (''version'', dec_into hl_Version hl_Version_update (dec_pointer [] dec_string))]"

definition Unmarshal_VolumeList :: "time_text \<Rightarrow> VolumeList decoder" where
  "Unmarshal_VolumeList T = dec_struct
     [(''next_page_token'', dec_into vl_NextPageToken vl_NextPageToken_update (dec_pointer [] dec_string)),
      (''volumes'', dec_into vl_Volumes vl_Volumes_update
         (dec_pointer [] (dec_slice zero_volume (Unmarshal_Volume T))))]"

definition zero_error :: Error where
  "zero_error = \<lparr>err_Detail = None, err_Instance = None, err_Status = None, err_Title = [], err_Type = []\<rparr>"

definition zero_health :: Health where
  "zero_health = \<lparr>hl_Path = None, hl_Status = [], hl_Type = None, hl_Uptime = None, hl_Version = None\<rparr>"

definition zero_list :: VolumeList where
  "zero_list = \<lparr>vl_NextPageToken = None, vl_Volumes = None\<rparr>"

section \<open>Round trip\<close>

text \<open>
  A Go map has one list that stands for it and is strictly sorted by key. A value is \<open>canonical\<close>
  when all its maps are such lists. Additional properties that were decoded are never empty and
  have no member \<^verbatim>\<open>kubernetes\<close>.
\<close>

definition sorted_keys :: "(string \<times> 'a) list \<Rightarrow> bool" where
  "sorted_keys m = sorted_wrt (<) (map fst m)"

fun canonical :: "json_value \<Rightarrow> bool" where
  "canonical (JObject ms) \<longleftrightarrow> sorted_keys ms \<and> list_all (\<lambda>(k, j). canonical j) ms"
| "canonical (JArray js) \<longleftrightarrow> list_all canonical js"
| "canonical j \<longleftrightarrow> True"

definition canonical_hints :: "ProviderHints \<Rightarrow> bool" where
  "canonical_hints h \<longleftrightarrow>
     (case ph_AdditionalProperties h of None \<Rightarrow> True
      | Some m \<Rightarrow> m \<noteq> [] \<and> sorted_keys m \<and> list_all (\<lambda>(k, j). k \<noteq> ''kubernetes'' \<and> canonical j) m)"

definition canonical_volume :: "Volume \<Rightarrow> bool" where
  "canonical_volume v \<longleftrightarrow>
     pred_option sorted_keys (md_Labels (spec_Metadata (vol_Spec v))) \<and>
     pred_option canonical_hints (spec_ProviderHints (vol_Spec v))"

lemma sorted_keys_distinct: "sorted_keys m \<Longrightarrow> distinct (map fst m)"
  by (simp add: sorted_keys_def strict_sorted_iff)

lemma sort_members_sorted: "sorted_keys m \<Longrightarrow> sort_members m = m"
  by (simp add: sorted_keys_def strict_sorted_iff sort_members_def sort_key_id_if_sorted)

lemma sorted_keys_sort: "distinct (map fst m) \<Longrightarrow> sorted_keys (sort_members m)"
  by (simp add: sorted_keys_def strict_sorted_iff sort_members_def distinct_map)

lemma sorted_keys_map [simp]: "sorted_keys (map (\<lambda>(k, x). (k, f x)) m) = sorted_keys m"
  by (simp add: sorted_keys_def case_prod_unfold comp_def)

lemma update_fresh: "k \<notin> fst ` set m \<Longrightarrow> AList.update k x m = m @ [(k, x)]"
  by (induction m) auto

lemma fold_update_fresh:
  "distinct (map fst m) \<Longrightarrow> fst ` set m \<inter> fst ` set m0 = {} \<Longrightarrow>
   fold (\<lambda>(k, x). AList.update k (f x)) m m0 = m0 @ map (\<lambda>(k, x). (k, f x)) m"
proof (induction m arbitrary: m0)
  case Nil
  then show ?case by simp
next
  case (Cons p m)
  then show ?case by (cases p) (auto simp: update_fresh)
qed

lemma go_map_distinct: "distinct (map fst m) \<Longrightarrow> go_map m = m"
  using fold_update_fresh [of m "[]" "\<lambda>x. x"] by (simp add: go_map_def)

lemma any_of_canonical: "canonical j \<Longrightarrow> any_of j = j"
proof (induction j rule: any_of.induct)
  case (1 ms)
  then have "map (\<lambda>(k, j). (k, any_of j)) ms = ms"
    by (intro map_idI) (force simp: list_all_iff)
  with 1 show ?case by (simp add: go_map_distinct sorted_keys_distinct)
qed (auto simp: list_all_iff intro!: map_idI)

lemma enc_any_canonical: "canonical j \<Longrightarrow> enc_any j = j"
proof (induction j rule: enc_any.induct)
  case (1 ms)
  then have "map (\<lambda>(k, j). (k, enc_any j)) ms = ms"
    by (intro map_idI) (force simp: list_all_iff)
  with 1 show ?case by (simp add: sort_members_sorted)
qed (auto simp: list_all_iff intro!: map_idI)

lemma dec_entries_strings:
  "distinct (map fst ls) \<Longrightarrow> fst ` set ls \<inter> fst ` set m = {} \<Longrightarrow>
   dec_entries [] dec_string (map (\<lambda>(k, v). (k, JString v)) ls) m = Some (m @ ls)"
proof (induction ls arbitrary: m)
  case Nil
  then show ?case by simp
next
  case (Cons p ls)
  then show ?case by (cases p) (auto simp: update_fresh dec_string_def)
qed

lemmas decode_defs = dec_struct_def struct_field_def dec_into_def dec_pointer_def dec_string_def member_def

lemma KubernetesProviderHints_roundtrip:
  "Unmarshal_KubernetesProviderHints (Marshal_KubernetesProviderHints h) zero_kubernetes_hints = Some h"
  by (cases h; cases "kh_AccessMode h"; cases "kh_StorageClass h"; cases "kh_VolumeMode h")
    (simp_all add: Unmarshal_KubernetesProviderHints_def Marshal_KubernetesProviderHints_def
      zero_kubernetes_hints_def decode_defs)

text \<open>
  What \<^verbatim>\<open>MarshalJSON\<close> writes of canonical hints: the sorted members, from which the other
  method takes \<^verbatim>\<open>kubernetes\<close> out again.
\<close>

lemma hints_object:
  assumes "canonical_hints h"
  shows "ProviderHints_MarshalJSON h = JObject (sort_members
    (member ''kubernetes'' Marshal_KubernetesProviderHints (ph_Kubernetes h) @
     (case ph_AdditionalProperties h of None \<Rightarrow> [] | Some m \<Rightarrow> m)))"
proof (cases "ph_AdditionalProperties h")
  case None
  then show ?thesis by (simp add: ProviderHints_MarshalJSON_def)
next
  case (Some m)
  with assms have m: "sorted_keys m" "\<And>k j. (k, j) \<in> set m \<Longrightarrow> k \<noteq> ''kubernetes'' \<and> canonical j"
    by (auto simp: canonical_hints_def list_all_iff)
  have "fst ` set m \<inter> fst ` set (member ''kubernetes'' Marshal_KubernetesProviderHints (ph_Kubernetes h)) = {}"
    using m(2) by (force simp: member_def split: option.splits)
  moreover have "map (\<lambda>(k, j). (k, enc_any j)) m = m"
    using m(2) by (intro map_idI) (auto simp: enc_any_canonical)
  ultimately show ?thesis using Some m(1)
    by (simp add: ProviderHints_MarshalJSON_def fold_update_fresh sorted_keys_distinct)
qed

lemma delete_sorted:
  assumes "sorted_keys m" and "k \<notin> fst ` set m"
  shows "AList.delete k (sort_members ((k, x) # m)) = m" and "AList.delete k m = m"
proof -
  have "filter (\<lambda>(k', _). k \<noteq> k') m = m"
    using assms(2) by (force simp: filter_id_conv)
  moreover have "filter (\<lambda>(k', _). k \<noteq> k') (sort_members ((k, x) # m)) =
      sort_members (filter (\<lambda>(k', _). k \<noteq> k') m)"
    by (simp add: sort_members_def filter_sort del: sort_key_simps)
  ultimately show "AList.delete k (sort_members ((k, x) # m)) = m" "AList.delete k m = m"
    using sort_members_sorted [OF assms(1)] by (simp_all add: AList.delete_eq)
qed

lemma ProviderHints_roundtrip:
  assumes "canonical_hints h"
  shows "ProviderHints_UnmarshalJSON (ProviderHints_MarshalJSON h) zero_hints = Some h"
proof -
  define m where "m = (case ph_AdditionalProperties h of None \<Rightarrow> [] | Some m \<Rightarrow> m)"
  have m: "sorted_keys m" "''kubernetes'' \<notin> fst ` set m" "map (\<lambda>(k, v). (k, any_of v)) m = m"
    "ph_AdditionalProperties h = (if m = [] then None else Some m)"
    using assms by (auto simp: m_def canonical_hints_def list_all_iff sorted_keys_def any_of_canonical
        split: option.splits intro!: map_idI)
  show ?thesis
  proof (cases "ph_Kubernetes h")
    case None
    then have j: "ProviderHints_MarshalJSON h = JObject m"
      using hints_object [OF assms] m(1) by (simp add: m_def [symmetric] member_def sort_members_sorted)
    have "map_of m ''kubernetes'' = None" using m(2) by (simp add: map_of_eq_None_iff)
    then have "ProviderHints_UnmarshalJSON (ProviderHints_MarshalJSON h) zero_hints =
        Some \<lparr>ph_Kubernetes = None, ph_AdditionalProperties = (if m = [] then None else Some m)\<rparr>"
      using m by (simp add: ProviderHints_UnmarshalJSON_def zero_hints_def j go_map_distinct
          sorted_keys_distinct)
    then show ?thesis using None m(4) by (cases h) simp
  next
    case (Some kh)
    let ?p = "(''kubernetes'', Marshal_KubernetesProviderHints kh)"
    have j: "ProviderHints_MarshalJSON h = JObject (sort_members (?p # m))"
      using hints_object [OF assms] Some by (simp add: m_def [symmetric] member_def)
    have d: "distinct (map fst (?p # m))" using m sorted_keys_distinct by simp
    from sorted_keys_distinct [OF sorted_keys_sort [OF d]]
    have o: "go_map (sort_members (?p # m)) = sort_members (?p # m)" by (rule go_map_distinct)
    have k: "map_of (sort_members (?p # m)) ''kubernetes'' = Some (Marshal_KubernetesProviderHints kh)"
      using sorted_keys_distinct [OF sorted_keys_sort [OF d]]
      by (simp add: map_of_eq_Some_iff sort_members_def del: sort_key_simps)
    have "Marshal_KubernetesProviderHints kh \<noteq> JNull" by (simp add: Marshal_KubernetesProviderHints_def)
    then have "ProviderHints_UnmarshalJSON (ProviderHints_MarshalJSON h) zero_hints =
        Some \<lparr>ph_Kubernetes = Some kh, ph_AdditionalProperties = (if m = [] then None else Some m)\<rparr>"
      using m by (simp add: ProviderHints_UnmarshalJSON_def zero_hints_def j o k dec_pointer_def
          KubernetesProviderHints_roundtrip delete_sorted [OF m(1,2)] go_map_distinct
          sorted_keys_distinct)
    then show ?thesis using Some m(4) by (cases h) simp
  qed
qed

lemma VolumeMetadata_roundtrip:
  assumes "pred_option sorted_keys (md_Labels m)"
  shows "Unmarshal_VolumeMetadata (Marshal_VolumeMetadata m) zero_metadata = Some m"
proof -
  have "dec_map [] dec_string (JObject (sort_members (map (\<lambda>(k, v). (k, JString v)) ls))) [] = Some ls"
    if "md_Labels m = Some ls" for ls
    using that assms
    by (simp add: dec_map_def sort_members_sorted dec_entries_strings sorted_keys_distinct)
  then show ?thesis
    by (cases m; cases "md_Labels m"; cases "md_Namespace m"; cases "md_StorageClass m";
        cases "md_VolumeName m")
      (simp_all add: Unmarshal_VolumeMetadata_def Marshal_VolumeMetadata_def zero_metadata_def decode_defs)
qed

lemma StorageSpec_roundtrip:
  assumes "pred_option sorted_keys (md_Labels (spec_Metadata s))"
    and "pred_option canonical_hints (spec_ProviderHints s)"
  shows "Unmarshal_StorageSpec (Marshal_StorageSpec s) zero_spec = Some s"
proof -
  have "ProviderHints_MarshalJSON h \<noteq> JNull" for h
    by (simp add: ProviderHints_MarshalJSON_def Let_def)
  then show ?thesis
    using assms VolumeMetadata_roundtrip [OF assms(1)]
    by (cases s; cases "spec_ProviderHints s")
      (simp_all add: Unmarshal_StorageSpec_def Marshal_StorageSpec_def zero_spec_def decode_defs
        ProviderHints_roundtrip)
qed

lemma Error_roundtrip: "Unmarshal_Error (Marshal_Error e) zero_error = Some e"
proof -
  have "dec_int32 (JNumber (show_int (sint n))) 0 = Some n" for n :: int32
    using sint_ge [of n] sint_lt [of n] by (simp add: dec_int32_def dec_int_def parse_show_int)
  then show ?thesis
    by (cases e; cases "err_Detail e"; cases "err_Instance e"; cases "err_Status e")
      (simp_all add: Unmarshal_Error_def Marshal_Error_def zero_error_def decode_defs)
qed

lemma Health_roundtrip:
  assumes "pred_option (\<lambda>n. - (2 ^ 63) \<le> n \<and> n < 2 ^ 63) (hl_Uptime h)"
  shows "Unmarshal_Health (Marshal_Health h) zero_health = Some h"
proof -
  have "dec_int 64 (JNumber (show_int n)) 0 = Some n" if "hl_Uptime h = Some n" for n
    using that assms by (simp add: dec_int_def parse_show_int)
  then show ?thesis
    by (cases h; cases "hl_Path h"; cases "hl_Type h"; cases "hl_Uptime h"; cases "hl_Version h")
      (simp_all add: Unmarshal_Health_def Marshal_Health_def zero_health_def decode_defs)
qed

text \<open>A list whose volumes are canonical.\<close>

definition canonical_list :: "VolumeList \<Rightarrow> bool" where
  "canonical_list l \<longleftrightarrow> pred_option (list_all canonical_volume) (vl_Volumes l)"

context time_texts
begin

lemma time_member_text:
  assumes "time_member T k v = Some ms"
  obtains "v = None" "ms = []"
    | t s where "v = Some t" "ms = [(k, JString s)]" "tt_Parse T s = Some t"
  using assms parse_format by (cases v) (auto simp: time_member_def)

lemma Volume_roundtrip:
  assumes "canonical_volume v" and "Marshal_Volume T v = Some j"
  shows "Unmarshal_Volume T j zero_volume = Some v"
proof -
  have spec: "Unmarshal_StorageSpec (Marshal_StorageSpec (vol_Spec v)) zero_spec = Some (vol_Spec v)"
    using assms(1) by (simp add: canonical_volume_def StorageSpec_roundtrip)
  from assms(2) obtain c u where c: "time_member T ''create_time'' (vol_CreateTime v) = Some c"
    and u: "time_member T ''update_time'' (vol_UpdateTime v) = Some u"
    and j: "j = JObject (c @ member ''id'' JString (vol_Id v) @ member ''path'' JString (vol_Path v) @
      [(''spec'', Marshal_StorageSpec (vol_Spec v))] @ member ''status'' JString (vol_Status v) @ u)"
    by (auto simp: Marshal_Volume_def split: option.splits)
  note simps = Unmarshal_Volume_def zero_volume_def decode_defs dec_time_def
  show ?thesis
    unfolding j
    by (rule time_member_text [OF c]; rule time_member_text [OF u]; insert spec; cases v;
        cases "vol_Id v"; cases "vol_Path v"; cases "vol_Status v") (simp_all add: simps)
qed

lemma items_roundtrip:
  "list_all canonical_volume vs \<Longrightarrow> enc_items (Marshal_Volume T) vs = Some js \<Longrightarrow>
   dec_items zero_volume (Unmarshal_Volume T) js = Some vs"
proof (induction vs arbitrary: js)
  case (Cons v vs)
  then obtain j js' where j: "Marshal_Volume T v = Some j" and "enc_items (Marshal_Volume T) vs = Some js'" "js = j # js'"
    by (auto simp: bind_eq_Some_conv)
  then show ?case using Cons Volume_roundtrip [OF _ j] by simp
qed simp

lemma VolumeList_roundtrip:
  assumes "canonical_list l" and "Marshal_VolumeList T l = Some j"
  shows "Unmarshal_VolumeList T j zero_list = Some l"
proof (cases "vl_Volumes l")
  case None
  with assms(2) have "j = JObject (member ''next_page_token'' JString (vl_NextPageToken l))"
    by (simp add: Marshal_VolumeList_def)
  then show ?thesis using None
    by (cases l; cases "vl_NextPageToken l") (simp_all add: Unmarshal_VolumeList_def zero_list_def decode_defs)
next
  case (Some vs)
  with assms(2) obtain js where js: "enc_items (Marshal_Volume T) vs = Some js"
    and j: "j = JObject (member ''next_page_token'' JString (vl_NextPageToken l) @ [(''volumes'', JArray js)])"
    by (auto simp: Marshal_VolumeList_def)
  have "dec_items zero_volume (Unmarshal_Volume T) js = Some vs"
    using items_roundtrip [OF _ js] assms(1) Some by (simp add: canonical_list_def)
  then show ?thesis using Some j
    by (cases l; cases "vl_NextPageToken l")
      (simp_all add: Unmarshal_VolumeList_def zero_list_def decode_defs dec_slice_def)
qed

end

end
