(* ===== verification/Volume_Handler.thy ===== *)
theory Volume_Handler
  imports Store_Errors Dcm_Labels
begin

text \<open>
  The package \<^verbatim>\<open>internal/handlers/volume\<close>: request validation (\<^verbatim>\<open>validation.go\<close>), the mapping of
  store errors to RFC 9457 responses (\<^verbatim>\<open>errors.go\<close>) and the four handlers (\<^verbatim>\<open>handler.go\<close>). A
  handler returns \<open>(response, error)\<close>, here \<open>error + response\<close>, and is called with the
  repository it was constructed with. Debug and error logging is left out.
\<close>

section \<open>The identifier pattern\<close>

text \<open>
  The part of \<^verbatim>\<open>regexp\<close> the pattern uses: \<open>re_run r s\<close> lists what can remain of \<open>s\<close> after a
  match of \<open>r\<close> at its beginning; a pattern anchored at both ends matches when nothing remains.
\<close>

datatype regex = Chars string | Cat regex regex | Opt regex | Rep nat nat regex

fun rep_run :: "(string \<Rightarrow> string list) \<Rightarrow> nat \<Rightarrow> nat \<Rightarrow> string \<Rightarrow> string list" where
  "rep_run f lo 0 s = (if lo = 0 then [s] else [])"
| "rep_run f lo (Suc hi) s =
     (if lo = 0 then [s] else []) @ concat (map (rep_run f (lo - 1) hi) (f s))"

fun re_run :: "regex \<Rightarrow> string \<Rightarrow> string list" where
  "re_run (Chars cs) s = (case s of [] \<Rightarrow> [] | c # t \<Rightarrow> if c \<in> set cs then [t] else [])"
| "re_run (Cat a b) s = concat (map (re_run b) (re_run a s))"
| "re_run (Opt a) s = s # re_run a s"
| "re_run (Rep lo hi a) s = rep_run (re_run a) lo hi s"

definition MatchString :: "regex \<Rightarrow> string \<Rightarrow> bool" where
  "MatchString r s \<longleftrightarrow> [] \<in> set (re_run r s)"

definition alnum :: string where
  "alnum = ''abcdefghijklmnopqrstuvwxyz0123456789''"

definition aep122IDPattern :: regex where
  "aep122IDPattern =
     Cat (Chars alnum) (Opt (Cat (Rep 0 61 (Chars (alnum @ ''-''))) (Chars alnum)))"

definition aep122 :: "string \<Rightarrow> bool" where
  "aep122 s \<longleftrightarrow> s \<noteq> [] \<and> length s \<le> 63 \<and> set s \<subseteq> set (alnum @ ''-'') \<and>
     hd s \<in> set alnum \<and> last s \<in> set alnum"

lemma rep_run_Chars:
  assumes f: "\<And>s. f s = (case s of [] \<Rightarrow> [] | c # t \<Rightarrow> if c \<in> set cs then [t] else [])"
  shows "t \<in> set (rep_run f 0 n s) \<longleftrightarrow> (\<exists>u. s = u @ t \<and> length u \<le> n \<and> set u \<subseteq> set cs)"
proof (induction n arbitrary: s)
  case 0
  then show ?case by auto
next
  case (Suc n)
  show ?case
  proof (cases s)
    case Nil
    then show ?thesis by (auto simp: f)
  next
    case (Cons c s')
    have "f s = (if c \<in> set cs then [s'] else [])" using f [of s] Cons by simp
    then have "t \<in> set (rep_run f 0 (Suc n) s) \<longleftrightarrow>
        t = s \<or> c \<in> set cs \<and> (\<exists>u. s' = u @ t \<and> length u \<le> n \<and> set u \<subseteq> set cs)"
      using Suc.IH [of s'] by auto
    also have "\<dots> \<longleftrightarrow> (\<exists>u. s = u @ t \<and> length u \<le> Suc n \<and> set u \<subseteq> set cs)"
      (is "?l \<longleftrightarrow> ?r")
    proof
      assume ?l
      then show ?r
      proof
        assume "t = s"
        then show ?r by (intro exI [of _ "[]"]) simp
      next
        assume "c \<in> set cs \<and> (\<exists>u. s' = u @ t \<and> length u \<le> n \<and> set u \<subseteq> set cs)"
        then obtain u where "c \<in> set cs" "s' = u @ t" "length u \<le> n" "set u \<subseteq> set cs" by blast
        then show ?r using Cons by (intro exI [of _ "c # u"]) simp
      qed
    next
      assume ?r
      then obtain u where "s = u @ t" "length u \<le> Suc n" "set u \<subseteq> set cs" by blast
      then show ?l using Cons by (cases u) auto
    qed
    finally show ?thesis .
  qed
qed

lemma aep122_shape:
  "aep122 s \<longleftrightarrow> (\<exists>c \<in> set alnum. s = [c] \<or>
     (\<exists>u. \<exists>d \<in> set alnum. s = c # u @ [d] \<and> length u \<le> 61 \<and> set u \<subseteq> set (alnum @ ''-'')))"
    (is "_ \<longleftrightarrow> ?r")
proof
  assume a: "aep122 s"
  then obtain c t where s: "s = c # t" by (cases s) (auto simp: aep122_def)
  show ?r
  proof (cases t rule: rev_cases)
    case Nil
    with a s show ?thesis by (auto simp: aep122_def)
  next
    case (snoc u d)
    with a s show ?thesis by (auto simp: aep122_def)
  qed
next
  assume ?r
  then show "aep122 s" by (auto simp: aep122_def)
qed

lemma MatchString_aep122: "MatchString aep122IDPattern s \<longleftrightarrow> aep122 s"
proof (cases s)
  case Nil
  then show ?thesis by (simp add: MatchString_def aep122IDPattern_def aep122_def)
next
  case (Cons c t)
  have "[] \<in> set (re_run (Cat (Rep 0 61 (Chars (alnum @ ''-''))) (Chars alnum)) t) \<longleftrightarrow>
      (\<exists>r. (\<exists>u. t = u @ r \<and> length u \<le> 61 \<and> set u \<subseteq> set (alnum @ ''-'')) \<and>
           (\<exists>d \<in> set alnum. r = [d]))"
    using rep_run_Chars [of "re_run (Chars (alnum @ ''-''))" "alnum @ ''-''" _ 61 t]
    by (simp only: re_run.simps set_concat set_map UN_iff bex_simps image_iff)
      (auto split: list.splits if_splits)
  then show ?thesis
    unfolding Cons MatchString_def aep122IDPattern_def aep122_shape by auto
qed

section \<open>Validation\<close>

definition reservedVolumeIDs :: "string \<Rightarrow> bool" where
  "reservedVolumeIDs i \<longleftrightarrow> i = ''health''"

definition validateVolumeID :: "string \<Rightarrow> string option" where
  "validateVolumeID i =
     (if reservedVolumeIDs i
      then Some (''volume ID '' @ go_quote i @ '' is reserved and cannot be used'')
      else if \<not> MatchString aep122IDPattern i
      then Some (''volume ID '' @ go_quote i @ '' must match AEP-122 pattern'')
      else None)"

definition validateCreateSpec :: "StorageSpec \<Rightarrow> string option" where
  "validateCreateSpec spec =
     (if spec_ServiceType spec \<noteq> Storage then Some (''service_type must be '' @ go_quote Storage)
      else if spec_Capacity spec = '''' then Some ''capacity is required''
      else if md_Name (spec_Metadata spec) = '''' then Some ''metadata.name is required''
      else None)"

definition validateUserLabels :: "labels option \<Rightarrow> string option" where
  "validateUserLabels labels =
     (case labels of None \<Rightarrow> None
      | Some ls \<Rightarrow>
          (case List.find (\<lambda>(k, v). ReservedLabelKeys k) ls of
             None \<Rightarrow> None
           | Some (k, v) \<Rightarrow>
               Some (''label '' @ go_quote k @ '' is reserved by DCM and cannot be set by the user'')))"

lemma validateVolumeID_None: "validateVolumeID i = None \<longleftrightarrow> aep122 i \<and> i \<noteq> ''health''"
  by (simp add: validateVolumeID_def reservedVolumeIDs_def MatchString_aep122)

lemma validateUserLabels_None:
  "validateUserLabels labels = None \<longleftrightarrow>
     (\<forall>ls k. labels = Some ls \<longrightarrow> ReservedLabelKeys k \<longrightarrow> map_of ls k = None)"
proof (cases labels)
  case None
  then show ?thesis by (simp add: validateUserLabels_def)
next
  case (Some ls)
  then have "validateUserLabels labels = None \<longleftrightarrow> List.find (\<lambda>(k, v). ReservedLabelKeys k) ls = None"
    by (auto simp: validateUserLabels_def split: option.splits)
  also have "\<dots> \<longleftrightarrow> (\<forall>k. ReservedLabelKeys k \<longrightarrow> map_of ls k = None)"
    by (force simp: find_None_iff map_of_eq_None_iff)
  finally show ?thesis using Some by simp
qed

section \<open>Responses\<close>

definition InternalTitle :: string where "InternalTitle = ''Internal Server Error''"
definition InternalDetail :: string where "InternalDetail = ''an unexpected error occurred''"

datatype CreateVolumeResponse =
    CreateVolume201 Volume
  | CreateVolume400 Error
  | CreateVolume409 Error
  | CreateVolume422 Error
  | CreateVolume500 Error

datatype GetVolumeResponse = GetVolume200 Volume | GetVolume404 Error | GetVolume500 Error

datatype DeleteVolumeResponse = DeleteVolume204 | DeleteVolume404 Error | DeleteVolume500 Error

datatype ListVolumesResponse = ListVolumes200 VolumeList | ListVolumes400 Error | ListVolumes500 Error

abbreviation problem :: "ErrorType \<Rightarrow> string \<Rightarrow> int32 \<Rightarrow> string \<Rightarrow> string \<Rightarrow> Error" where
  "problem t title code detail path \<equiv>
     \<lparr>err_Detail = Some detail, err_Instance = Some path, err_Status = Some code,
      err_Title = title, err_Type = t\<rparr>"

definition newCreateError400 :: "string \<Rightarrow> string \<Rightarrow> CreateVolumeResponse" where
  "newCreateError400 detail requestPath =
     CreateVolume400 (problem INVALIDARGUMENT ''Invalid argument'' 400 detail requestPath)"

text \<open>
  \<^verbatim>\<open>err.Error()\<close> is only called for the typed errors, so the text of other errors is not
  needed: \<open>store_error_Error\<close> gets the empty text for them.
\<close>

abbreviation err_text :: "'e store_error \<Rightarrow> string" where
  "err_text \<equiv> store_error_Error (\<lambda>_. '''')"

definition mapCreateError :: "'e store_error \<Rightarrow> string \<Rightarrow> CreateVolumeResponse" where
  "mapCreateError err requestPath =
     (case err of
        ConflictError _ \<Rightarrow>
          CreateVolume409 (problem ALREADYEXISTS ''Already exists'' 409 (err_text err) requestPath)
      | FailedPreconditionError _ \<Rightarrow>
          CreateVolume422 (problem FAILEDPRECONDITION ''Failed precondition'' 422 (err_text err) requestPath)
      | InvalidArgumentError _ \<Rightarrow> newCreateError400 (err_text err) requestPath
      | _ \<Rightarrow> CreateVolume500 (problem INTERNAL InternalTitle 500 InternalDetail requestPath))"

definition mapGetError :: "'e store_error \<Rightarrow> string \<Rightarrow> GetVolumeResponse" where
  "mapGetError err requestPath =
     (case err of
        NotFoundError _ \<Rightarrow> GetVolume404 (problem NOTFOUND ''Not found'' 404 (err_text err) requestPath)
      | _ \<Rightarrow> GetVolume500 (problem INTERNAL InternalTitle 500 InternalDetail requestPath))"

definition mapDeleteError :: "'e store_error \<Rightarrow> string \<Rightarrow> DeleteVolumeResponse" where
  "mapDeleteError err requestPath =
     (case err of
        NotFoundError _ \<Rightarrow> DeleteVolume404 (problem NOTFOUND ''Not found'' 404 (err_text err) requestPath)
      | _ \<Rightarrow> DeleteVolume500 (problem INTERNAL InternalTitle 500 InternalDetail requestPath))"

definition mapListVolumesError :: "'e store_error \<Rightarrow> string \<Rightarrow> ListVolumesResponse" where
  "mapListVolumesError err requestPath =
     (case err of
        InvalidArgumentError _ \<Rightarrow>
          ListVolumes400 (problem INVALIDARGUMENT ''Invalid argument'' 400 (err_text err) requestPath)
      | _ \<Rightarrow> ListVolumes500 (problem INTERNAL InternalTitle 500 InternalDetail requestPath))"

section \<open>Handlers\<close>

type_synonym 'r strict_result = "string + 'r"

record CreateVolumeRequestObject =
  cvr_Params :: CreateVolumeParams
  cvr_Body :: "Volume option"

definition volumesBasePath :: string where
  "volumesBasePath = ''/api/v1alpha1/volumes''"

definition CreateVolume ::
  "('w, 'e) VolumeRepository \<Rightarrow> CreateVolumeRequestObject \<Rightarrow> 'w \<Rightarrow>
     CreateVolumeResponse strict_result \<times> 'w" where
  "CreateVolume R req w =
     (let requestPath = volumesBasePath in
      case cvr_Body req of
        None \<Rightarrow> (Inr (newCreateError400 ''request body is required'' requestPath), w)
      | Some body \<Rightarrow>
          (let spec0 = vol_Spec body;
               (i, spec) = (case cp_Id (cvr_Params req) of
                              Some i \<Rightarrow> (i, set_name i spec0)
                            | None \<Rightarrow> (md_Name (spec_Metadata spec0), spec0))
           in case validateCreateSpec spec of
                Some err \<Rightarrow> (Inr (newCreateError400 err requestPath), w)
              | None \<Rightarrow>
             (case validateVolumeID i of
                Some err \<Rightarrow> (Inr (newCreateError400 err requestPath), w)
              | None \<Rightarrow>
             (case validateUserLabels (md_Labels (spec_Metadata spec)) of
                Some err \<Rightarrow> (Inr (newCreateError400 err requestPath), w)
              | None \<Rightarrow>
             (case repo_Create R spec i w of
                (Inl err, w') \<Rightarrow> (Inr (mapCreateError err requestPath), w')
              | (Inr result, w') \<Rightarrow> (Inr (CreateVolume201 result), w'))))))"

definition GetVolume ::
  "('w, 'e) VolumeRepository \<Rightarrow> string \<Rightarrow> 'w \<Rightarrow> GetVolumeResponse strict_result" where
  "GetVolume R volumeId w =
     (let requestPath = volumesBasePath @ ''/'' @ volumeId in
      case repo_Get R volumeId w of
        Inl err \<Rightarrow> Inr (mapGetError err requestPath)
      | Inr result \<Rightarrow> Inr (GetVolume200 result))"

definition DeleteVolume ::
  "('w, 'e) VolumeRepository \<Rightarrow> string \<Rightarrow> 'w \<Rightarrow> DeleteVolumeResponse strict_result \<times> 'w" where
  "DeleteVolume R volumeId w =
     (let requestPath = volumesBasePath @ ''/'' @ volumeId in
      case repo_Delete R volumeId w of
        (Some err, w') \<Rightarrow> (Inr (mapDeleteError err requestPath), w')
      | (None, w') \<Rightarrow> (Inr DeleteVolume204, w'))"

definition ListVolumes ::
  "('w, 'e) VolumeRepository \<Rightarrow> ListVolumesParams \<Rightarrow> 'w \<Rightarrow> ListVolumesResponse strict_result" where
  "ListVolumes R params w =
     (let maxPageSize = (case lp_MaxPageSize params of Some n \<Rightarrow> n | None \<Rightarrow> 0);
          pageToken = (case lp_PageToken params of Some t \<Rightarrow> t | None \<Rightarrow> '''')
      in case repo_List R maxPageSize pageToken w of
           Inl err \<Rightarrow> Inr (mapListVolumesError err volumesBasePath)
         | Inr result \<Rightarrow> Inr (ListVolumes200 result))"

section \<open>What a create request asks for\<close>

text \<open>
  The id and specification a request stands for, and the specification of an acceptable one,
  in terms of the documents: a storage service, a capacity, an AEP-122 name that is not the
  reserved one, no reserved label.
\<close>

definition request_id :: "CreateVolumeRequestObject \<Rightarrow> Volume \<Rightarrow> string" where
  "request_id req body =
     (case cp_Id (cvr_Params req) of Some i \<Rightarrow> i | None \<Rightarrow> md_Name (spec_Metadata (vol_Spec body)))"

definition acceptable :: "string \<Rightarrow> StorageSpec \<Rightarrow> bool" where
  "acceptable i spec \<longleftrightarrow>
     spec_ServiceType spec = ''storage'' \<and> spec_Capacity spec \<noteq> '''' \<and>
     aep122 i \<and> i \<noteq> ''health'' \<and>
     (\<forall>ls k. md_Labels (spec_Metadata spec) = Some ls \<longrightarrow> ReservedLabelKeys k \<longrightarrow> map_of ls k = None)"

lemma set_name_same: "set_name (md_Name (spec_Metadata s)) s = s"
  by (simp add: set_name_def)

lemma CreateVolume_body:
  assumes "cvr_Body req = Some body"
  shows "CreateVolume R req w =
    (let i = request_id req body; spec = set_name i (vol_Spec body) in
     case validateCreateSpec spec of
       Some err \<Rightarrow> (Inr (newCreateError400 err volumesBasePath), w)
     | None \<Rightarrow>
    (case validateVolumeID i of
       Some err \<Rightarrow> (Inr (newCreateError400 err volumesBasePath), w)
     | None \<Rightarrow>
    (case validateUserLabels (md_Labels (spec_Metadata spec)) of
       Some err \<Rightarrow> (Inr (newCreateError400 err volumesBasePath), w)
     | None \<Rightarrow>
    (case repo_Create R spec i w of
       (Inl err, w') \<Rightarrow> (Inr (mapCreateError err volumesBasePath), w')
     | (Inr result, w') \<Rightarrow> (Inr (CreateVolume201 result), w')))))"
  using assms by (cases "cp_Id (cvr_Params req)")
    (simp_all add: CreateVolume_def request_id_def set_name_same Let_def cong del: option.case_cong_weak)

lemma validations_pass:
  "validateCreateSpec (set_name i s) = None \<and> validateVolumeID i = None \<and>
     validateUserLabels (md_Labels (spec_Metadata s)) = None \<longleftrightarrow> acceptable i s"
  by (auto simp: acceptable_def validateCreateSpec_def validateVolumeID_None validateUserLabels_None
      consts_def aep122_def split: if_splits)

lemma CreateVolume_accepted:
  assumes "cvr_Body req = Some body" and "acceptable (request_id req body) (vol_Spec body)"
  shows "CreateVolume R req w =
    (case repo_Create R (set_name (request_id req body) (vol_Spec body)) (request_id req body) w of
       (Inl err, w') \<Rightarrow> (Inr (mapCreateError err volumesBasePath), w')
     | (Inr result, w') \<Rightarrow> (Inr (CreateVolume201 result), w'))"
  using assms validations_pass [of "request_id req body" "vol_Spec body"]
  by (simp add: CreateVolume_body [OF assms(1)] Let_def)

lemma CreateVolume_rejected:
  assumes "cvr_Body req = Some body" and "\<not> acceptable (request_id req body) (vol_Spec body)"
  shows "\<exists>detail. CreateVolume R req w = (Inr (newCreateError400 detail volumesBasePath), w)"
  using assms validations_pass [of "request_id req body" "vol_Spec body"]
  by (auto simp: CreateVolume_body [OF assms(1)] Let_def split: option.splits)

lemma CreateVolume_no_body:
  "cvr_Body req = None \<Longrightarrow>
   CreateVolume R req w = (Inr (newCreateError400 ''request body is required'' volumesBasePath), w)"
  by (simp add: CreateVolume_def)

lemma mapCreateError_not_201 [simp]: "mapCreateError e p \<noteq> CreateVolume201 v"
  by (cases e) (simp_all add: mapCreateError_def newCreateError400_def)

lemma CreateVolume_201:
  "CreateVolume R req w = (Inr (CreateVolume201 v), w') \<longleftrightarrow>
     (\<exists>body. cvr_Body req = Some body \<and> acceptable (request_id req body) (vol_Spec body) \<and>
        repo_Create R (set_name (request_id req body) (vol_Spec body)) (request_id req body) w =
          (Inr v, w'))"
proof (cases "cvr_Body req")
  case None
  then show ?thesis by (simp add: CreateVolume_no_body newCreateError400_def)
next
  case (Some body)
  show ?thesis
  proof (cases "acceptable (request_id req body) (vol_Spec body)")
    case True
    then show ?thesis using Some
      by (auto simp: CreateVolume_accepted split: sum.splits prod.splits)
  next
    case False
    then show ?thesis
      using Some CreateVolume_rejected [OF Some False, of R w] by (auto simp: newCreateError400_def)
  qed
qed

section \<open>The handlers over a repository that keeps its contract\<close>

context volume_repository
begin

lemma handler_get:
  assumes "ready w"
  shows "GetVolume R i w =
    (case vols w i of
       Some v \<Rightarrow> Inr (GetVolume200 v)
     | None \<Rightarrow> Inr (GetVolume404 (problem NOTFOUND ''Not found'' 404
         (''volume '' @ go_quote i @ '' not found'') (volumesBasePath @ ''/'' @ i))))"
  using get_found [OF assms, of i] get_missing [OF assms, of i]
  by (cases "vols w i") (simp_all add: GetVolume_def mapGetError_def)

lemma handler_create_get:
  assumes "ready w" and "CreateVolume R req w = (Inr (CreateVolume201 v), w')"
    and "cvr_Body req = Some body"
  shows "GetVolume R (request_id req body) w' = Inr (GetVolume200 v)"
    and "vol_Id v = Some (request_id req body)"
    and "j \<noteq> request_id req body \<Longrightarrow> GetVolume R j w' = GetVolume R j w"
proof -
  from assms obtain c: "repo_Create R (set_name (request_id req body) (vol_Spec body))
      (request_id req body) w = (Inr v, w')"
    by (auto simp: CreateVolume_201)
  note ok = create_ok [OF assms(1) c]
  show "GetVolume R (request_id req body) w' = Inr (GetVolume200 v)"
    and "vol_Id v = Some (request_id req body)"
    using ok by (simp_all add: handler_get)
  show "GetVolume R j w' = GetVolume R j w" if "j \<noteq> request_id req body"
    using create_frame [OF assms(1) c that] by (simp add: GetVolume_def)
qed

lemma handler_create_twice:
  assumes "ready w" and "CreateVolume R req w = (Inr (CreateVolume201 v), w')"
    and "cvr_Body req = Some body" and "cvr_Body req' = Some body'"
    and "request_id req' body' = request_id req body"
  shows "fst (CreateVolume R req' w') \<noteq> Inr (CreateVolume201 v')"
proof
  assume "fst (CreateVolume R req' w') = Inr (CreateVolume201 v')"
  then obtain w'' where "CreateVolume R req' w' = (Inr (CreateVolume201 v'), w'')"
    by (cases "CreateVolume R req' w'") auto
  then have "repo_Create R (set_name (request_id req body) (vol_Spec body')) (request_id req body) w' =
      (Inr v', w'')"
    using assms(4,5) by (auto simp: CreateVolume_201)
  moreover from assms obtain c: "repo_Create R (set_name (request_id req body) (vol_Spec body))
      (request_id req body) w = (Inr v, w')"
    by (auto simp: CreateVolume_201)
  ultimately show False using create_twice [OF assms(1) c] by (metis Inl_Inr_False fst_conv)
qed

lemma handler_delete:
  assumes "ready w"
  shows "if vols w i = None
    then DeleteVolume R i w = (Inr (DeleteVolume404 (problem NOTFOUND ''Not found'' 404
         (''volume '' @ go_quote i @ '' not found'') (volumesBasePath @ ''/'' @ i))), w)
    else \<exists>w'. DeleteVolume R i w = (Inr DeleteVolume204, w') \<and>
      ((\<exists>e. GetVolume R i w' = Inr (GetVolume404 e)) \<or>
       (\<exists>v. GetVolume R i w' = Inr (GetVolume200 v) \<and> vol_Status v = Some DELETING)) \<and>
      (\<forall>j. j \<noteq> i \<longrightarrow> GetVolume R j w' = GetVolume R j w)"
proof (cases "vols w i")
  case None
  then show ?thesis using delete_missing [OF assms None] by (simp add: DeleteVolume_def mapDeleteError_def)
next
  case (Some v)
  from delete_then_get [OF assms Some] obtain w' where d: "repo_Delete R i w = (None, w')"
    and g: "repo_Get R i w' = Inl (NotFoundError i) \<or>
      (\<exists>v'. repo_Get R i w' = Inr v' \<and> vol_Status v' = Some DELETING)"
    and o: "\<And>j. j \<noteq> i \<Longrightarrow> repo_Get R j w' = repo_Get R j w"
    by blast
  from g have "(\<exists>e. GetVolume R i w' = Inr (GetVolume404 e)) \<or>
      (\<exists>v. GetVolume R i w' = Inr (GetVolume200 v) \<and> vol_Status v = Some DELETING)"
    by (auto simp: GetVolume_def mapGetError_def)
  moreover have "DeleteVolume R i w = (Inr DeleteVolume204, w')"
    using d by (simp add: DeleteVolume_def)
  ultimately show ?thesis using Some o by (auto simp: GetVolume_def)
qed

end

end
