(* ===== verification/Health_Handler.thy ===== *)
theory Health_Handler
  imports Volume_Handler
begin

text \<open>
  The health handler (\<^verbatim>\<open>internal/handlers/health\<close>) and the composite handler that joins it with
  the volume handlers behind one interface (\<^verbatim>\<open>internal/handlers/composite\<close>).
\<close>

record 'w HealthHandler =
  hh_checker :: "('w \<Rightarrow> string option) option"
  hh_startTime :: gotime
  hh_version :: string

datatype GetHealthResponse = GetHealth200 Health

text \<open>
  \<^verbatim>\<open>int(d.Seconds())\<close>: whole seconds, truncated towards zero (the rounding of \<^verbatim>\<open>float64\<close> is not
  modelled).
\<close>

definition whole_seconds :: "duration \<Rightarrow> int" where
  "whole_seconds d = sgn d * (\<bar>d\<bar> div Second)"

definition GetHealth :: "'w HealthHandler \<Rightarrow> gotime \<Rightarrow> 'w \<Rightarrow> GetHealthResponse strict_result" where
  "GetHealth h now w =
     (let status = (case hh_checker h of
                      None \<Rightarrow> ''healthy''
                    | Some check \<Rightarrow> (case check w of Some err \<Rightarrow> ''unhealthy'' | None \<Rightarrow> ''healthy''));
          uptime = max 0 (whole_seconds (now - hh_startTime h))
      in Inr (GetHealth200
           \<lparr>hl_Path = Some ''health'',
            hl_Status = status,
            hl_Type = Some ''k8s-storage-service-provider.dcm.io/health'',
            hl_Uptime = Some uptime,
            hl_Version = Some (hh_version h)\<rparr>))"

text \<open>The repository as the checker of the health handler, as \<^verbatim>\<open>main\<close> wires it.\<close>

definition repo_checker :: "('w, 'e) VolumeRepository \<Rightarrow> 'w \<Rightarrow> string option" where
  "repo_checker R w = map_option (store_error_Error (\<lambda>_. '''')) (repo_CheckHealth R w)"

section \<open>The composite handler\<close>

record ('w, 'e) CompositeHandler =
  ch_health :: "'w HealthHandler"
  ch_volume :: "('w, 'e) VolumeRepository"

text \<open>One call of the strict interface, and its answer.\<close>

datatype strict_request =
    ReqGetHealth
  | ReqListVolumes ListVolumesParams
  | ReqCreateVolume CreateVolumeRequestObject
  | ReqGetVolume string
  | ReqDeleteVolume string

datatype strict_response =
    RespGetHealth GetHealthResponse
  | RespListVolumes ListVolumesResponse
  | RespCreateVolume CreateVolumeResponse
  | RespGetVolume GetVolumeResponse
  | RespDeleteVolume DeleteVolumeResponse

definition composite_handle ::
  "('w, 'e) CompositeHandler \<Rightarrow> gotime \<Rightarrow> strict_request \<Rightarrow> 'w \<Rightarrow> strict_response strict_result \<times> 'w"
  where
  "composite_handle h now req w =
     (case req of
        ReqGetHealth \<Rightarrow> (map_sum id RespGetHealth (GetHealth (ch_health h) now w), w)
      | ReqListVolumes params \<Rightarrow> (map_sum id RespListVolumes (ListVolumes (ch_volume h) params w), w)
      | ReqCreateVolume r \<Rightarrow>
          (case CreateVolume (ch_volume h) r w of (resp, w') \<Rightarrow> (map_sum id RespCreateVolume resp, w'))
      | ReqGetVolume i \<Rightarrow> (map_sum id RespGetVolume (GetVolume (ch_volume h) i w), w)
      | ReqDeleteVolume i \<Rightarrow>
          (case DeleteVolume (ch_volume h) i w of (resp, w') \<Rightarrow> (map_sum id RespDeleteVolume resp, w')))"

section \<open>Status codes of the responses\<close>

text \<open>The status line the generated visitors write for a response, and its problem document.\<close>

fun response_status :: "strict_response \<Rightarrow> int32" where
  "response_status (RespGetHealth (GetHealth200 _)) = 200"
| "response_status (RespListVolumes (ListVolumes200 _)) = 200"
| "response_status (RespListVolumes (ListVolumes400 _)) = 400"
| "response_status (RespListVolumes (ListVolumes500 _)) = 500"
| "response_status (RespCreateVolume (CreateVolume201 _)) = 201"
| "response_status (RespCreateVolume (CreateVolume400 _)) = 400"
| "response_status (RespCreateVolume (CreateVolume409 _)) = 409"
| "response_status (RespCreateVolume (CreateVolume422 _)) = 422"
| "response_status (RespCreateVolume (CreateVolume500 _)) = 500"
| "response_status (RespGetVolume (GetVolume200 _)) = 200"
| "response_status (RespGetVolume (GetVolume404 _)) = 404"
| "response_status (RespGetVolume (GetVolume500 _)) = 500"
| "response_status (RespDeleteVolume DeleteVolume204) = 204"
| "response_status (RespDeleteVolume (DeleteVolume404 _)) = 404"
| "response_status (RespDeleteVolume (DeleteVolume500 _)) = 500"

fun response_problem :: "strict_response \<Rightarrow> Error option" where
  "response_problem (RespListVolumes (ListVolumes400 e)) = Some e"
| "response_problem (RespListVolumes (ListVolumes500 e)) = Some e"
| "response_problem (RespCreateVolume (CreateVolume400 e)) = Some e"
| "response_problem (RespCreateVolume (CreateVolume409 e)) = Some e"
| "response_problem (RespCreateVolume (CreateVolume422 e)) = Some e"
| "response_problem (RespCreateVolume (CreateVolume500 e)) = Some e"
| "response_problem (RespGetVolume (GetVolume404 e)) = Some e"
| "response_problem (RespGetVolume (GetVolume500 e)) = Some e"
| "response_problem (RespDeleteVolume (DeleteVolume404 e)) = Some e"
| "response_problem (RespDeleteVolume (DeleteVolume500 e)) = Some e"
| "response_problem _ = None"

text \<open>The error table of the specification: which type goes with which status.\<close>

definition error_table :: "(ErrorType \<times> int32) list" where
  "error_table = [(INVALIDARGUMENT, 400), (NOTFOUND, 404), (ALREADYEXISTS, 409),
                  (FAILEDPRECONDITION, 422), (INTERNAL, 500)]"

definition problem_ok :: "strict_response \<Rightarrow> bool" where
  "problem_ok resp \<longleftrightarrow>
     (case response_problem resp of
        None \<Rightarrow> response_status resp \<in> {200, 201, 204}
      | Some e \<Rightarrow> err_Status e = Some (response_status resp) \<and>
          (err_Type e, response_status resp) \<in> set error_table \<and> err_Instance e \<noteq> None \<and>
          (err_Type e = INTERNAL \<longrightarrow>
             err_Title e = InternalTitle \<and> err_Detail e = Some InternalDetail))"

lemma error_types_distinct [simp]:
  "INVALIDARGUMENT \<noteq> INTERNAL" "NOTFOUND \<noteq> INTERNAL" "ALREADYEXISTS \<noteq> INTERNAL"
  "FAILEDPRECONDITION \<noteq> INTERNAL"
  by (simp_all add: consts_def)

lemmas problem_defs = problem_ok_def error_table_def newCreateError400_def

lemma mapCreateError_ok: "problem_ok (RespCreateVolume (mapCreateError e p))"
  by (cases e) (simp_all add: mapCreateError_def problem_defs)

lemma mapGetError_ok: "problem_ok (RespGetVolume (mapGetError e p))"
  by (cases e) (simp_all add: mapGetError_def problem_defs)

lemma mapDeleteError_ok: "problem_ok (RespDeleteVolume (mapDeleteError e p))"
  by (cases e) (simp_all add: mapDeleteError_def problem_defs)

lemma mapListVolumesError_ok: "problem_ok (RespListVolumes (mapListVolumesError e p))"
  by (cases e) (simp_all add: mapListVolumesError_def problem_defs)

lemma CreateVolume_ok: "\<exists>resp. fst (CreateVolume R req w) = Inr resp \<and> problem_ok (RespCreateVolume resp)"
proof -
  have bad: "problem_ok (RespCreateVolume (newCreateError400 d p))" for d p
    by (simp add: problem_defs)
  have good: "problem_ok (RespCreateVolume (CreateVolume201 v))" for v
    by (simp add: problem_ok_def)
  show ?thesis
  proof (cases "cvr_Body req")
    case None
    then show ?thesis using bad by (simp add: CreateVolume_no_body)
  next
    case (Some body)
    show ?thesis
    proof (cases "acceptable (request_id req body) (vol_Spec body)")
      case True
      then show ?thesis using Some good mapCreateError_ok
        by (auto simp: CreateVolume_accepted split: prod.splits sum.splits)
    next
      case False
      then show ?thesis using CreateVolume_rejected [OF Some False, of R w] bad by auto
    qed
  qed
qed

lemma ListVolumes_ok: "\<exists>resp. ListVolumes R params w = Inr resp \<and> problem_ok (RespListVolumes resp)"
proof -
  have "problem_ok (RespListVolumes (ListVolumes200 l))" for l by (simp add: problem_ok_def)
  then show ?thesis using mapListVolumesError_ok by (auto simp: ListVolumes_def Let_def split: sum.splits)
qed

lemma GetVolume_ok: "\<exists>resp. GetVolume R i w = Inr resp \<and> problem_ok (RespGetVolume resp)"
proof -
  have "problem_ok (RespGetVolume (GetVolume200 v))" for v by (simp add: problem_ok_def)
  then show ?thesis using mapGetError_ok by (auto simp: GetVolume_def Let_def split: sum.splits)
qed

lemma DeleteVolume_ok: "\<exists>resp. fst (DeleteVolume R i w) = Inr resp \<and> problem_ok (RespDeleteVolume resp)"
proof -
  have "problem_ok (RespDeleteVolume DeleteVolume204)" by (simp add: problem_ok_def)
  then show ?thesis using mapDeleteError_ok
    by (auto simp: DeleteVolume_def Let_def split: prod.splits option.splits)
qed

end
