(* ===== verification/Http.thy ===== *)
theory Http
  imports Json_Codec Health_Handler
begin

text \<open>
  What the server uses of \<^verbatim>\<open>net/http\<close>: requests, the response writer and handlers, which may panic;
  \<^verbatim>\<open>statusRecordingResponseWriter\<close> of \<^verbatim>\<open>internal/apiserver/server.go\<close>, which wraps a writer; and
  \<^verbatim>\<open>WriteResponse\<close> of \<^verbatim>\<open>internal/httperror/write.go\<close>. A body is a JSON document or plain text. The
  escapes of URLs are not modelled: a query is the list of its parameters.
\<close>

section \<open>Requests\<close>

text \<open>
  \<open>rq_URI\<close> is \<^verbatim>\<open>r.URL.RequestURI()\<close>; \<open>rq_Body\<close> is \<open>None\<close> when the body is not a JSON document;
  \<open>rq_URLParams\<close> are the path parameters the router found; \<open>rq_Deadline\<close> is the deadline of the
  request's context.
\<close>

record http_request =
  rq_Method :: string
  rq_Path :: string
  rq_Query :: "(string \<times> string) list"
  rq_URI :: string
  rq_Body :: "json_value option"
  rq_URLParams :: "(string \<times> string) list"
  rq_Deadline :: "gotime option"

section \<open>The response writer\<close>

datatype payload = JsonDoc json_value | PlainText string

text \<open>
  The server's own writer. The header fields are sent with the first status line, and later
  changes of the fields or of the status have no effect. \<open>wr_limit\<close> is the number of writes
  before the connection breaks, \<open>None\<close> when it does not.
\<close>

record wire =
  wr_header :: "string \<rightharpoonup> string"
  wr_sent :: "(int \<times> (string \<rightharpoonup> string)) option"
  wr_body :: "payload list"
  wr_limit :: "nat option"

definition wire_WriteHeader :: "int \<Rightarrow> wire \<Rightarrow> wire" where
  "wire_WriteHeader code w = (if wr_sent w = None then w\<lparr>wr_sent := Some (code, wr_header w)\<rparr> else w)"

definition body_allowed :: "wire \<Rightarrow> bool" where
  "body_allowed w = (case wr_sent w of Some (code, _) \<Rightarrow> code \<noteq> 204 \<and> code \<noteq> 304 | None \<Rightarrow> True)"

definition wire_Write :: "payload \<Rightarrow> wire \<Rightarrow> bool \<times> wire" where
  "wire_Write b w =
     (let w = wire_WriteHeader 200 w in
      if \<not> body_allowed w \<or> wr_limit w = Some 0 then (False, w)
      else (True, w\<lparr>wr_body := wr_body w @ [b], wr_limit := map_option (\<lambda>n. n - 1) (wr_limit w)\<rparr>))"

text \<open>
  A response writer: the server's, or a \<^verbatim>\<open>statusRecordingResponseWriter\<close> around another one with
  its fields \<^verbatim>\<open>wroteHeader\<close> and \<^verbatim>\<open>statusCode\<close>. The server's writer can be flushed.
\<close>

datatype response_writer =
    Wire wire
  | statusRecordingResponseWriter response_writer bool int

fun Header_Set :: "string \<Rightarrow> string \<Rightarrow> response_writer \<Rightarrow> response_writer" where
  "Header_Set k v (Wire w) = Wire (w\<lparr>wr_header := (wr_header w)(k \<mapsto> v)\<rparr>)"
| "Header_Set k v (statusRecordingResponseWriter rw wrote status) =
     statusRecordingResponseWriter (Header_Set k v rw) wrote status"

fun WriteHeader :: "int \<Rightarrow> response_writer \<Rightarrow> response_writer" where
  "WriteHeader code (Wire w) = Wire (wire_WriteHeader code w)"
| "WriteHeader code (statusRecordingResponseWriter rw wrote status) =
     statusRecordingResponseWriter (WriteHeader code rw) True code"

fun Write :: "payload \<Rightarrow> response_writer \<Rightarrow> bool \<times> response_writer" where
  "Write b (Wire w) = apsnd Wire (wire_Write b w)"
| "Write b (statusRecordingResponseWriter rw wrote status) =
     (case Write b rw of
        (ok, rw') \<Rightarrow> (ok, statusRecordingResponseWriter rw' True (if \<not> wrote then 200 else status)))"

fun Flush :: "response_writer \<Rightarrow> response_writer" where
  "Flush (Wire w) = Wire (wire_WriteHeader 200 w)"
| "Flush (statusRecordingResponseWriter rw wrote status) =
     statusRecordingResponseWriter (Flush rw) True status"

fun Unwrap :: "response_writer \<Rightarrow> response_writer" where
  "Unwrap (Wire w) = Wire w"
| "Unwrap (statusRecordingResponseWriter rw wrote status) = rw"

fun wroteHeader :: "response_writer \<Rightarrow> bool" where
  "wroteHeader (Wire w) = (wr_sent w \<noteq> None)"
| "wroteHeader (statusRecordingResponseWriter rw wrote status) = wrote"

fun recorded_status :: "response_writer \<Rightarrow> int" where
  "recorded_status (Wire w) = (case wr_sent w of Some (code, _) \<Rightarrow> code | None \<Rightarrow> 200)"
| "recorded_status (statusRecordingResponseWriter rw wrote status) = status"

fun the_wire :: "response_writer \<Rightarrow> wire" where
  "the_wire (Wire w) = w"
| "the_wire (statusRecordingResponseWriter rw wrote status) = the_wire rw"

section \<open>Handlers\<close>

text \<open>
  A handler works on a response writer, a request and the server's state, and returns or panics.
  \<open>ss_access_log\<close> are the lines of the request log: method, path, status.
\<close>

datatype panic_value = ErrAbortHandler | OtherPanic string

datatype outcome = Completed | Panicked panic_value

record 'w server_state =
  ss_world :: 'w
  ss_access_log :: "(string \<times> string \<times> int) list"

type_synonym 'w http_handler =
  "response_writer \<Rightarrow> http_request \<Rightarrow> 'w server_state \<Rightarrow> outcome \<times> response_writer \<times> 'w server_state"

type_synonym 'w middleware = "'w http_handler \<Rightarrow> 'w http_handler"

text \<open>
  What a handler can do to a response writer: call its methods, in any order and number.
\<close>

inductive rw_calls :: "response_writer \<Rightarrow> response_writer \<Rightarrow> bool" where
  rw_none: "rw_calls rw rw"
| rw_header: "rw_calls rw rw' \<Longrightarrow> rw_calls rw (Header_Set k v rw')"
| rw_status: "rw_calls rw rw' \<Longrightarrow> rw_calls rw (WriteHeader code rw')"
| rw_write: "rw_calls rw rw' \<Longrightarrow> rw_calls rw (snd (Write b rw'))"
| rw_flush: "rw_calls rw rw' \<Longrightarrow> rw_calls rw (Flush rw')"

definition uses_writer :: "'w http_handler \<Rightarrow> bool" where
  "uses_writer h \<longleftrightarrow> (\<forall>rw r s. rw_calls rw (fst (snd (h rw r s))))"

lemma rw_calls_trans: "rw_calls b c \<Longrightarrow> rw_calls a b \<Longrightarrow> rw_calls a c"
  by (induction rule: rw_calls.induct) (auto intro: rw_calls.intros)

lemma uses_writerI: "(\<And>rw r s. rw_calls rw (fst (snd (h rw r s)))) \<Longrightarrow> uses_writer h"
  by (simp add: uses_writer_def)

lemma uses_writerD: "uses_writer h \<Longrightarrow> h rw r s = (out, rw', s') \<Longrightarrow> rw_calls rw rw'"
  unfolding uses_writer_def by (metis fst_conv snd_conv)

text \<open>Calls on a wrapper are calls on what it wraps.\<close>

lemma rw_calls_wrapped:
  assumes "rw_calls (statusRecordingResponseWriter rw wrote status) sw"
  obtains rw' wrote' status' where "sw = statusRecordingResponseWriter rw' wrote' status'"
    and "rw_calls rw rw'" and "wrote \<Longrightarrow> wrote'" and "\<not> wrote' \<Longrightarrow> status' = status"
proof -
  have "\<exists>rw' wrote' status'. sw = statusRecordingResponseWriter rw' wrote' status' \<and> rw_calls rw rw' \<and>
      (wrote \<longrightarrow> wrote') \<and> (\<not> wrote' \<longrightarrow> status' = status)"
    using assms
  proof (induction "statusRecordingResponseWriter rw wrote status" sw rule: rw_calls.induct)
    case rw_none
    then show ?case by (blast intro: rw_calls.rw_none)
  next
    case (rw_header sw k v)
    then show ?case by (fastforce intro: rw_calls.rw_header)
  next
    case (rw_status sw code)
    then show ?case by (fastforce intro: rw_calls.rw_status)
  next
    case (rw_write sw b)
    then obtain rw' wrote' status' where "sw = statusRecordingResponseWriter rw' wrote' status'"
      "rw_calls rw rw'" by blast
    then show ?case using rw_calls.rw_write [of rw rw' b] by (fastforce split: prod.splits)
  next
    case (rw_flush sw)
    then show ?case by (fastforce intro: rw_calls.rw_flush)
  qed
  then show thesis using that by blast
qed

text \<open>
  A recording writer around one that has sent nothing knows whether a status line was sent; a
  status line is sent at most once; before it nothing of a body is.
\<close>

fun recording :: "response_writer \<Rightarrow> bool" where
  "recording (Wire w) \<longleftrightarrow> True"
| "recording (statusRecordingResponseWriter rw wrote status) \<longleftrightarrow>
     recording rw \<and> (wrote \<longleftrightarrow> wr_sent (the_wire rw) \<noteq> None)"

lemma wire_WriteHeader_sent [simp]: "wr_sent (wire_WriteHeader code w) \<noteq> None"
  by (simp add: wire_WriteHeader_def)

lemma the_wire_calls [simp]:
  "the_wire (Header_Set k v rw) = (the_wire rw)\<lparr>wr_header := (wr_header (the_wire rw))(k \<mapsto> v)\<rparr>"
  "the_wire (WriteHeader code rw) = wire_WriteHeader code (the_wire rw)"
  "fst (Write b rw) = fst (wire_Write b (the_wire rw))"
  "the_wire (snd (Write b rw)) = snd (wire_Write b (the_wire rw))"
  "the_wire (Flush rw) = wire_WriteHeader 200 (the_wire rw)"
  by (induction rw) (auto split: prod.splits)

lemma wire_Write_sent [simp]: "wr_sent (snd (wire_Write b w)) = wr_sent (wire_WriteHeader 200 w)"
  by (simp add: wire_Write_def Let_def)

lemma recording_Header_Set [simp]: "recording (Header_Set k v rw) = recording rw"
  by (induction rw) simp_all

lemma recording_WriteHeader: "recording rw \<Longrightarrow> recording (WriteHeader code rw)"
  by (induction rw) simp_all

lemma recording_Write: "recording rw \<Longrightarrow> recording (snd (Write b rw))"
proof (induction rw)
  case (Wire w)
  then show ?case by (simp add: apsnd_def map_prod_def split: prod.splits)
next
  case (statusRecordingResponseWriter rw wrote status)
  then have "recording (snd (Write b rw))" by simp
  moreover have "wr_sent (the_wire (snd (Write b rw))) \<noteq> None" by simp
  ultimately show ?case by (cases "Write b rw") simp
qed

lemma recording_Flush: "recording rw \<Longrightarrow> recording (Flush rw)"
  by (induction rw) simp_all

lemma recording_calls: "rw_calls rw rw' \<Longrightarrow> recording rw \<Longrightarrow> recording rw'"
  by (induction rule: rw_calls.induct)
    (auto intro: recording_WriteHeader recording_Write recording_Flush)

lemma sent_stays:
  "rw_calls rw rw' \<Longrightarrow> wr_sent (the_wire rw) = Some x \<Longrightarrow> wr_sent (the_wire rw') = Some x"
  by (induction rule: rw_calls.induct) (simp_all add: wire_WriteHeader_def)

lemma unsent_body:
  "rw_calls rw rw' \<Longrightarrow> wr_sent (the_wire rw') = None \<Longrightarrow>
   wr_sent (the_wire rw) = None \<and> wr_body (the_wire rw') = wr_body (the_wire rw) \<and>
   wr_limit (the_wire rw') = wr_limit (the_wire rw)"
proof (induction rule: rw_calls.induct)
  case (rw_write rw rw' b)
  then show ?case by (simp add: wire_WriteHeader_def split: if_splits)
qed (simp_all add: wire_WriteHeader_def split: if_splits)

section \<open>Error responses\<close>

text \<open>\<^verbatim>\<open>WriteResponse\<close>; that the encoder's write fails is only logged.\<close>

definition problem_doc :: "int \<Rightarrow> ErrorType \<Rightarrow> string \<Rightarrow> string \<Rightarrow> string option \<Rightarrow> Error" where
  "problem_doc statusCode errType title detail inst =
     \<lparr>err_Detail = Some detail, err_Instance = inst, err_Status = Some (of_int statusCode),
      err_Title = title, err_Type = errType\<rparr>"

definition WriteResponse ::
  "response_writer \<Rightarrow> int \<Rightarrow> ErrorType \<Rightarrow> string \<Rightarrow> string \<Rightarrow> string option \<Rightarrow> response_writer" where
  "WriteResponse rw statusCode errType title detail inst =
     (let resp = problem_doc statusCode errType title detail inst;
          rw = Header_Set ''Content-Type'' ''application/problem+json'' rw;
          rw = WriteHeader statusCode rw
      in snd (Write (JsonDoc (Marshal_Error resp)) rw))"

lemma WriteResponse_calls: "rw_calls rw (WriteResponse rw statusCode errType title detail inst)"
  unfolding WriteResponse_def Let_def by (intro rw_calls.intros)

text \<open>
  What a client receives as the answer with a status, a content type and one document, when
  nothing was sent before and the connection holds.
\<close>

definition answered :: "int \<Rightarrow> string \<Rightarrow> json_value \<Rightarrow> wire \<Rightarrow> bool" where
  "answered code ctype doc w \<longleftrightarrow>
     (\<exists>h. wr_sent w = Some (code, h) \<and> h ''Content-Type'' = Some ctype) \<and> wr_body w = [JsonDoc doc]"

lemma WriteResponse_answered:
  assumes "wr_sent (the_wire rw) = None" and "wr_body (the_wire rw) = []"
    and "wr_limit (the_wire rw) \<noteq> Some 0" and "code \<noteq> 204" and "code \<noteq> 304"
  shows "answered code ''application/problem+json'' (Marshal_Error (problem_doc code t title detail inst))
    (the_wire (WriteResponse rw code t title detail inst))"
  using assms
  by (simp add: WriteResponse_def Let_def answered_def wire_Write_def wire_WriteHeader_def body_allowed_def)

end
