(* ===== verification/Server_Gen.thy ===== *)
theory Server_Gen
  imports Http
begin

text \<open>
  The generated server, \<^verbatim>\<open>internal/api/server/server.gen.go\<close>: the parameter binding of
  \<^verbatim>\<open>ServerInterfaceWrapper\<close>, the routes, the strict handler and the \<^verbatim>\<open>Visit\<close> methods that write the
  responses. The router (\<^verbatim>\<open>go-chi\<close>) and the binding of parameters (\<^verbatim>\<open>oapi-codegen/runtime\<close>) are
  parameters.
\<close>

section \<open>Errors\<close>

text \<open>
  Go errors as this server meets them: the generated types, the two of \<^verbatim>\<open>kin-openapi\<close> that the code
  looks into (a \<^verbatim>\<open>RequestError\<close> with its parameter's name and place, whether it concerns the body,
  its reason and its cause; a \<^verbatim>\<open>SchemaError\<close> with its reason), and errors known by their text only,
  with or without a wrapped cause.
\<close>

datatype go_error =
    PlainError string
  | WrapError string go_error
  | UnescapedCookieParamError string go_error
  | UnmarshalingParamError string go_error
  | RequiredParamError string
  | RequiredHeaderError string go_error
  | InvalidParamFormatError string go_error
  | TooManyValuesForParamError string int
  | RequestError "(string \<times> string) option" bool string "go_error option"
  | SchemaError string

fun Unwrap_error :: "go_error \<Rightarrow> go_error option" where
  "Unwrap_error (WrapError _ err) = Some err"
| "Unwrap_error (UnescapedCookieParamError _ err) = Some err"
| "Unwrap_error (UnmarshalingParamError _ err) = Some err"
| "Unwrap_error (RequiredHeaderError _ err) = Some err"
| "Unwrap_error (InvalidParamFormatError _ err) = Some err"
| "Unwrap_error (RequestError _ _ _ err) = err"
| "Unwrap_error _ = None"

text \<open>\<open>lib\<close> is the text of the library's errors.\<close>

fun go_error_Error :: "(go_error \<Rightarrow> string) \<Rightarrow> go_error \<Rightarrow> string" where
  "go_error_Error lib (PlainError t) = t"
| "go_error_Error lib (WrapError t err) = t @ '': '' @ go_error_Error lib err"
| "go_error_Error lib (UnescapedCookieParamError p err) =
     ''error unescaping cookie parameter '' @ [CHR 0x27] @ p @ [CHR 0x27]"
| "go_error_Error lib (UnmarshalingParamError p err) =
     ''Error unmarshaling parameter '' @ p @ '' as JSON: '' @ go_error_Error lib err"
| "go_error_Error lib (RequiredParamError p) = ''Query argument '' @ p @ '' is required, but not found''"
| "go_error_Error lib (RequiredHeaderError p err) =
     ''Header parameter '' @ p @ '' is required, but not found''"
| "go_error_Error lib (InvalidParamFormatError p err) =
     ''Invalid format for parameter '' @ p @ '': '' @ go_error_Error lib err"
| "go_error_Error lib (TooManyValuesForParamError p count) =
     ''Expected one value for '' @ p @ '', got '' @ show_int count"
| "go_error_Error lib err = lib err"

section \<open>Parameter binding\<close>

record param_binder =
  bind_int32 :: "string \<Rightarrow> (string \<times> string) list \<Rightarrow> go_error + int32 option"
  bind_string :: "string \<Rightarrow> (string \<times> string) list \<Rightarrow> go_error + string option"
  bind_path :: "string \<Rightarrow> string \<Rightarrow> go_error + string"

record 'w ServerInterface =
  si_ListVolumes :: "ListVolumesParams \<Rightarrow> 'w http_handler"
  si_CreateVolume :: "CreateVolumeParams \<Rightarrow> 'w http_handler"
  si_GetHealth :: "'w http_handler"
  si_DeleteVolume :: "string \<Rightarrow> 'w http_handler"
  si_GetVolume :: "string \<Rightarrow> 'w http_handler"

definition not_implemented :: "'w http_handler" where
  "not_implemented rw r s = (Completed, WriteHeader 501 rw, s)"

definition Unimplemented :: "'w ServerInterface" where
  "Unimplemented =
     \<lparr>si_ListVolumes = (\<lambda>_. not_implemented), si_CreateVolume = (\<lambda>_. not_implemented),
      si_GetHealth = not_implemented, si_DeleteVolume = (\<lambda>_. not_implemented),
      si_GetVolume = (\<lambda>_. not_implemented)\<rparr>"

record 'w ServerInterfaceWrapper =
  siw_Handler :: "'w ServerInterface"
  siw_HandlerMiddlewares :: "'w middleware list"
  siw_ErrorHandlerFunc :: "go_error \<Rightarrow> 'w http_handler"

text \<open>The loop over \<^verbatim>\<open>HandlerMiddlewares\<close>, which wraps the handler and serves the request.\<close>

definition wrapped :: "'w ServerInterfaceWrapper \<Rightarrow> 'w http_handler \<Rightarrow> 'w http_handler" where
  "wrapped siw handler = fold (\<lambda>middleware h. middleware h) (siw_HandlerMiddlewares siw) handler"

definition URLParam :: "http_request \<Rightarrow> string \<Rightarrow> string" where
  "URLParam r key = (case map_of (rq_URLParams r) key of Some v \<Rightarrow> v | None \<Rightarrow> '''')"

definition siw_ListVolumes :: "param_binder \<Rightarrow> 'w ServerInterfaceWrapper \<Rightarrow> 'w http_handler" where
  "siw_ListVolumes B siw rw r s =
     (case bind_int32 B ''max_page_size'' (rq_Query r) of
        Inl err \<Rightarrow> siw_ErrorHandlerFunc siw (InvalidParamFormatError ''max_page_size'' err) rw r s
      | Inr maxPageSize \<Rightarrow>
     (case bind_string B ''page_token'' (rq_Query r) of
        Inl err \<Rightarrow> siw_ErrorHandlerFunc siw (InvalidParamFormatError ''page_token'' err) rw r s
      | Inr pageToken \<Rightarrow>
          wrapped siw
            (si_ListVolumes (siw_Handler siw)
              \<lparr>lp_MaxPageSize = maxPageSize, lp_PageToken = pageToken\<rparr>) rw r s))"

definition siw_CreateVolume :: "param_binder \<Rightarrow> 'w ServerInterfaceWrapper \<Rightarrow> 'w http_handler" where
  "siw_CreateVolume B siw rw r s =
     (case bind_string B ''id'' (rq_Query r) of
        Inl err \<Rightarrow> siw_ErrorHandlerFunc siw (InvalidParamFormatError ''id'' err) rw r s
      | Inr i \<Rightarrow> wrapped siw (si_CreateVolume (siw_Handler siw) \<lparr>cp_Id = i\<rparr>) rw r s)"

definition siw_GetHealth :: "'w ServerInterfaceWrapper \<Rightarrow> 'w http_handler" where
  "siw_GetHealth siw rw r s = wrapped siw (si_GetHealth (siw_Handler siw)) rw r s"

definition siw_DeleteVolume :: "param_binder \<Rightarrow> 'w ServerInterfaceWrapper \<Rightarrow> 'w http_handler" where
  "siw_DeleteVolume B siw rw r s =
     (case bind_path B ''volume_id'' (URLParam r ''volume_id'') of
        Inl err \<Rightarrow> siw_ErrorHandlerFunc siw (InvalidParamFormatError ''volume_id'' err) rw r s
      | Inr volumeId \<Rightarrow> wrapped siw (si_DeleteVolume (siw_Handler siw) volumeId) rw r s)"

definition siw_GetVolume :: "param_binder \<Rightarrow> 'w ServerInterfaceWrapper \<Rightarrow> 'w http_handler" where
  "siw_GetVolume B siw rw r s =
     (case bind_path B ''volume_id'' (URLParam r ''volume_id'') of
        Inl err \<Rightarrow> siw_ErrorHandlerFunc siw (InvalidParamFormatError ''volume_id'' err) rw r s
      | Inr volumeId \<Rightarrow> wrapped siw (si_GetVolume (siw_Handler siw) volumeId) rw r s)"

section \<open>Routes\<close>

text \<open>
  A router: the middlewares every request passes, outermost first, and the routes with their
  method and pattern. Which route a request has is the business of \<^verbatim>\<open>chi\<close>.
\<close>

record 'w Router =
  ro_middlewares :: "'w middleware list"
  ro_routes :: "(string \<times> string \<times> 'w http_handler) list"

definition NewRouter :: "'w Router" where
  "NewRouter = \<lparr>ro_middlewares = [], ro_routes = []\<rparr>"

definition Use :: "'w middleware \<Rightarrow> 'w Router \<Rightarrow> 'w Router" where
  "Use m ro = ro\<lparr>ro_middlewares := ro_middlewares ro @ [m]\<rparr>"

definition add_route :: "string \<Rightarrow> string \<Rightarrow> 'w http_handler \<Rightarrow> 'w Router \<Rightarrow> 'w Router" where
  "add_route meth pat h ro = ro\<lparr>ro_routes := ro_routes ro @ [(meth, pat, h)]\<rparr>"

datatype chi_match = RouteFound nat "(string \<times> string) list" | RouteNotFound | MethodNotAllowed

record chi_mux =
  chi_find :: "(string \<times> string) list \<Rightarrow> string \<Rightarrow> string \<Rightarrow> chi_match"
  chi_NotFound :: "response_writer \<Rightarrow> response_writer"
  chi_MethodNotAllowed :: "response_writer \<Rightarrow> response_writer"

definition dispatch :: "chi_mux \<Rightarrow> (string \<times> string \<times> 'w http_handler) list \<Rightarrow> 'w http_handler" where
  "dispatch C routes rw r s =
     (case chi_find C (map (\<lambda>(m, p, _). (m, p)) routes) (rq_Method r) (rq_Path r) of
        RouteFound i params \<Rightarrow> (snd (snd (routes ! i))) rw (r\<lparr>rq_URLParams := params\<rparr>) s
      | RouteNotFound \<Rightarrow> (Completed, chi_NotFound C rw, s)
      | MethodNotAllowed \<Rightarrow> (Completed, chi_MethodNotAllowed C rw, s))"

definition Router_ServeHTTP :: "chi_mux \<Rightarrow> 'w Router \<Rightarrow> 'w http_handler" where
  "Router_ServeHTTP C ro = foldr (\<lambda>m h. m h) (ro_middlewares ro) (dispatch C (ro_routes ro))"

text \<open>\<^verbatim>\<open>http.Error\<close>\<close>

definition http_Error :: "string \<Rightarrow> int \<Rightarrow> response_writer \<Rightarrow> response_writer" where
  "http_Error text code rw =
     snd (Write (PlainText (text @ [CHR 0x0A]))
       (WriteHeader code
         (Header_Set ''X-Content-Type-Options'' ''nosniff''
           (Header_Set ''Content-Type'' ''text/plain; charset=utf-8'' rw))))"

record 'w ChiServerOptions =
  cso_BaseURL :: string
  cso_BaseRouter :: "'w Router option"
  cso_Middlewares :: "'w middleware list"
  cso_ErrorHandlerFunc :: "(go_error \<Rightarrow> 'w http_handler) option"

definition HandlerWithOptions ::
  "(go_error \<Rightarrow> string) \<Rightarrow> param_binder \<Rightarrow> 'w ServerInterface \<Rightarrow> 'w ChiServerOptions \<Rightarrow> 'w Router" where
  "HandlerWithOptions lib B si options =
     (let r = (case cso_BaseRouter options of None \<Rightarrow> NewRouter | Some r \<Rightarrow> r);
          errorHandler = (case cso_ErrorHandlerFunc options of
              None \<Rightarrow> (\<lambda>err rw r s. (Completed, http_Error (go_error_Error lib err) 400 rw, s))
            | Some h \<Rightarrow> h);
          siw = \<lparr>siw_Handler = si, siw_HandlerMiddlewares = cso_Middlewares options,
                 siw_ErrorHandlerFunc = errorHandler\<rparr>;
          base = cso_BaseURL options
      in add_route ''GET'' (base @ ''/api/v1alpha1/volumes/{volume_id}'') (siw_GetVolume B siw)
        (add_route ''DELETE'' (base @ ''/api/v1alpha1/volumes/{volume_id}'') (siw_DeleteVolume B siw)
        (add_route ''GET'' (base @ ''/api/v1alpha1/volumes/health'') (siw_GetHealth siw)
        (add_route ''POST'' (base @ ''/api/v1alpha1/volumes'') (siw_CreateVolume B siw)
        (add_route ''GET'' (base @ ''/api/v1alpha1/volumes'') (siw_ListVolumes B siw) r)))))"

definition Handler ::
  "(go_error \<Rightarrow> string) \<Rightarrow> param_binder \<Rightarrow> 'w ServerInterface \<Rightarrow> 'w Router" where
  "Handler lib B si = HandlerWithOptions lib B si
     \<lparr>cso_BaseURL = '''', cso_BaseRouter = None, cso_Middlewares = [], cso_ErrorHandlerFunc = None\<rparr>"

definition HandlerFromMux ::
  "(go_error \<Rightarrow> string) \<Rightarrow> param_binder \<Rightarrow> 'w ServerInterface \<Rightarrow> 'w Router \<Rightarrow> 'w Router" where
  "HandlerFromMux lib B si r = HandlerWithOptions lib B si
     \<lparr>cso_BaseURL = '''', cso_BaseRouter = Some r, cso_Middlewares = [], cso_ErrorHandlerFunc = None\<rparr>"

definition HandlerFromMuxWithBaseURL ::
  "(go_error \<Rightarrow> string) \<Rightarrow> param_binder \<Rightarrow> 'w ServerInterface \<Rightarrow> 'w Router \<Rightarrow> string \<Rightarrow> 'w Router" where
  "HandlerFromMuxWithBaseURL lib B si r baseURL = HandlerWithOptions lib B si
     \<lparr>cso_BaseURL = baseURL, cso_BaseRouter = Some r, cso_Middlewares = [],
      cso_ErrorHandlerFunc = None\<rparr>"

section \<open>Responses\<close>

text \<open>
  A \<^verbatim>\<open>Visit\<close> method encodes the response into a buffer, and only then writes the header, the status
  and the buffer. It returns the error of the encoder or of the write.
\<close>

definition visit_json ::
  "int \<Rightarrow> string \<Rightarrow> json_value option \<Rightarrow> response_writer \<Rightarrow> string option \<times> response_writer" where
  "visit_json code ctype doc rw =
     (case doc of
        None \<Rightarrow> (Some ''json: unsupported value'', rw)
      | Some j \<Rightarrow>
          (let rw = WriteHeader code (Header_Set ''Content-Type'' ctype rw) in
           case Write (JsonDoc j) rw of
             (True, rw') \<Rightarrow> (None, rw')
           | (False, rw') \<Rightarrow> (Some ''write: connection closed'', rw')))"

definition visit_ok :: "int \<Rightarrow> json_value option \<Rightarrow> response_writer \<Rightarrow> string option \<times> response_writer" where
  "visit_ok code doc = visit_json code ''application/json'' doc"

definition visit_problem :: "int \<Rightarrow> Error \<Rightarrow> response_writer \<Rightarrow> string option \<times> response_writer" where
  "visit_problem code e = visit_json code ''application/problem+json'' (Some (Marshal_Error e))"

fun VisitListVolumesResponse ::
  "time_text \<Rightarrow> ListVolumesResponse \<Rightarrow> response_writer \<Rightarrow> string option \<times> response_writer" where
  "VisitListVolumesResponse T (ListVolumes200 l) rw = visit_ok 200 (Marshal_VolumeList T l) rw"
| "VisitListVolumesResponse T (ListVolumes400 e) rw = visit_problem 400 e rw"
| "VisitListVolumesResponse T (ListVolumes500 e) rw = visit_problem 500 e rw"

fun VisitCreateVolumeResponse ::
  "time_text \<Rightarrow> CreateVolumeResponse \<Rightarrow> response_writer \<Rightarrow> string option \<times> response_writer" where
  "VisitCreateVolumeResponse T (CreateVolume201 v) rw = visit_ok 201 (Marshal_Volume T v) rw"
| "VisitCreateVolumeResponse T (CreateVolume400 e) rw = visit_problem 400 e rw"
| "VisitCreateVolumeResponse T (CreateVolume409 e) rw = visit_problem 409 e rw"
| "VisitCreateVolumeResponse T (CreateVolume422 e) rw = visit_problem 422 e rw"
| "VisitCreateVolumeResponse T (CreateVolume500 e) rw = visit_problem 500 e rw"

fun VisitGetHealthResponse ::
  "GetHealthResponse \<Rightarrow> response_writer \<Rightarrow> string option \<times> response_writer" where
  "VisitGetHealthResponse (GetHealth200 h) rw = visit_ok 200 (Some (Marshal_Health h)) rw"

fun VisitDeleteVolumeResponse ::
  "DeleteVolumeResponse \<Rightarrow> response_writer \<Rightarrow> string option \<times> response_writer" where
  "VisitDeleteVolumeResponse DeleteVolume204 rw = (None, WriteHeader 204 rw)"
| "VisitDeleteVolumeResponse (DeleteVolume404 e) rw = visit_problem 404 e rw"
| "VisitDeleteVolumeResponse (DeleteVolume500 e) rw = visit_problem 500 e rw"

fun VisitGetVolumeResponse ::
  "time_text \<Rightarrow> GetVolumeResponse \<Rightarrow> response_writer \<Rightarrow> string option \<times> response_writer" where
  "VisitGetVolumeResponse T (GetVolume200 v) rw = visit_ok 200 (Marshal_Volume T v) rw"
| "VisitGetVolumeResponse T (GetVolume404 e) rw = visit_problem 404 e rw"
| "VisitGetVolumeResponse T (GetVolume500 e) rw = visit_problem 500 e rw"

section \<open>The strict handler\<close>

text \<open>
  The strict interface takes a request object and returns a response object or nil, or an
  error, or panics. The middlewares see both as \<^verbatim>\<open>interface{}\<close>, so that the sum types of all
  requests and responses stand for them, and the type assertions are case distinctions.
\<close>

datatype strict_call = StrictReturn "string + strict_response option" | StrictPanic panic_value

type_synonym 'w StrictServerInterface = "strict_request \<Rightarrow> 'w \<Rightarrow> strict_call \<times> 'w"

type_synonym 'w StrictHandlerFunc =
  "response_writer \<Rightarrow> http_request \<Rightarrow> strict_request \<Rightarrow> 'w server_state \<Rightarrow>
     strict_call \<times> response_writer \<times> 'w server_state"

record 'w StrictHTTPServerOptions =
  sho_RequestErrorHandlerFunc :: "go_error \<Rightarrow> 'w http_handler"
  sho_ResponseErrorHandlerFunc :: "go_error \<Rightarrow> 'w http_handler"

record 'w strictHandler =
  sh_ssi :: "'w StrictServerInterface"
  sh_middlewares :: "('w StrictHandlerFunc \<Rightarrow> string \<Rightarrow> 'w StrictHandlerFunc) list"
  sh_options :: "'w StrictHTTPServerOptions"

text \<open>
  The call of the interface, which panics when a middleware passes on a request of another
  operation; and what is done with its result.
\<close>

definition strict_call_ssi :: "'w strictHandler \<Rightarrow> (strict_request \<Rightarrow> bool) \<Rightarrow> 'w StrictHandlerFunc" where
  "strict_call_ssi sh expected rw r request s =
     (if expected request
      then case sh_ssi sh request (ss_world s) of (res, w) \<Rightarrow> (res, rw, s\<lparr>ss_world := w\<rparr>)
      else (StrictPanic (OtherPanic ''interface conversion''), rw, s))"

definition strict_serve ::
  "'w strictHandler \<Rightarrow> string \<Rightarrow> (strict_request \<Rightarrow> bool) \<Rightarrow>
     (strict_response \<Rightarrow> (response_writer \<Rightarrow> string option \<times> response_writer) option) \<Rightarrow>
     strict_request \<Rightarrow> 'w http_handler" where
  "strict_serve sh operation expected visit request rw r s =
     (let handler = fold (\<lambda>middleware h. middleware h operation) (sh_middlewares sh)
                      (strict_call_ssi sh expected);
          responseError = sho_ResponseErrorHandlerFunc (sh_options sh)
      in case handler rw r request s of
           (StrictPanic p, rw', s') \<Rightarrow> (Panicked p, rw', s')
         | (StrictReturn (Inl err), rw', s') \<Rightarrow> responseError (PlainError err) rw' r s'
         | (StrictReturn (Inr None), rw', s') \<Rightarrow> (Completed, rw', s')
         | (StrictReturn (Inr (Some response)), rw', s') \<Rightarrow>
             (case visit response of
                None \<Rightarrow> responseError (PlainError ''unexpected response type'') rw' r s'
              | Some v \<Rightarrow>
                  (case v rw' of
                     (None, rw'') \<Rightarrow> (Completed, rw'', s')
                   | (Some err, rw'') \<Rightarrow> responseError (PlainError err) rw'' r s')))"

definition strict_ListVolumes ::
  "time_text \<Rightarrow> 'w strictHandler \<Rightarrow> ListVolumesParams \<Rightarrow> 'w http_handler" where
  "strict_ListVolumes T sh params =
     strict_serve sh ''ListVolumes''
       (\<lambda>req. case req of ReqListVolumes _ \<Rightarrow> True | _ \<Rightarrow> False)
       (\<lambda>resp. case resp of RespListVolumes x \<Rightarrow> Some (VisitListVolumesResponse T x) | _ \<Rightarrow> None)
       (ReqListVolumes params)"

text \<open>
  The body is decoded into a zero volume; a body that is no document, or none of a volume, is a
  request error.
\<close>

definition strict_CreateVolume ::
  "time_text \<Rightarrow> 'w strictHandler \<Rightarrow> CreateVolumeParams \<Rightarrow> 'w http_handler" where
  "strict_CreateVolume T sh params rw r s =
     (case Option.bind (rq_Body r) (\<lambda>j. Unmarshal_Volume T j zero_volume) of
        None \<Rightarrow>
          sho_RequestErrorHandlerFunc (sh_options sh)
            (WrapError (''can'' @ [CHR 0x27] @ ''t decode JSON body'') (PlainError ''invalid JSON'')) rw r s
      | Some body \<Rightarrow>
          strict_serve sh ''CreateVolume''
            (\<lambda>req. case req of ReqCreateVolume _ \<Rightarrow> True | _ \<Rightarrow> False)
            (\<lambda>resp. case resp of RespCreateVolume x \<Rightarrow> Some (VisitCreateVolumeResponse T x) | _ \<Rightarrow> None)
            (ReqCreateVolume \<lparr>cvr_Params = params, cvr_Body = Some body\<rparr>) rw r s)"

definition strict_GetHealth :: "'w strictHandler \<Rightarrow> 'w http_handler" where
  "strict_GetHealth sh =
     strict_serve sh ''GetHealth''
       (\<lambda>req. case req of ReqGetHealth \<Rightarrow> True | _ \<Rightarrow> False)
       (\<lambda>resp. case resp of RespGetHealth x \<Rightarrow> Some (VisitGetHealthResponse x) | _ \<Rightarrow> None)
       ReqGetHealth"

definition strict_DeleteVolume :: "'w strictHandler \<Rightarrow> string \<Rightarrow> 'w http_handler" where
  "strict_DeleteVolume sh volumeId =
     strict_serve sh ''DeleteVolume''
       (\<lambda>req. case req of ReqDeleteVolume _ \<Rightarrow> True | _ \<Rightarrow> False)
       (\<lambda>resp. case resp of RespDeleteVolume x \<Rightarrow> Some (VisitDeleteVolumeResponse x) | _ \<Rightarrow> None)
       (ReqDeleteVolume volumeId)"

definition strict_GetVolume :: "time_text \<Rightarrow> 'w strictHandler \<Rightarrow> string \<Rightarrow> 'w http_handler" where
  "strict_GetVolume T sh volumeId =
     strict_serve sh ''GetVolume''
       (\<lambda>req. case req of ReqGetVolume _ \<Rightarrow> True | _ \<Rightarrow> False)
       (\<lambda>resp. case resp of RespGetVolume x \<Rightarrow> Some (VisitGetVolumeResponse T x) | _ \<Rightarrow> None)
       (ReqGetVolume volumeId)"

definition strict_interface :: "time_text \<Rightarrow> 'w strictHandler \<Rightarrow> 'w ServerInterface" where
  "strict_interface T sh =
     \<lparr>si_ListVolumes = strict_ListVolumes T sh, si_CreateVolume = strict_CreateVolume T sh,
      si_GetHealth = strict_GetHealth sh, si_DeleteVolume = strict_DeleteVolume sh,
      si_GetVolume = strict_GetVolume T sh\<rparr>"

definition NewStrictHandlerWithOptions where
  "NewStrictHandlerWithOptions T ssi middlewares options =
     strict_interface T \<lparr>sh_ssi = ssi, sh_middlewares = middlewares, sh_options = options\<rparr>"

definition NewStrictHandler where
  "NewStrictHandler lib T ssi middlewares =
     strict_interface T \<lparr>sh_ssi = ssi, sh_middlewares = middlewares, sh_options =
       \<lparr>sho_RequestErrorHandlerFunc = (\<lambda>err rw r s. (Completed, http_Error (go_error_Error lib err) 400 rw, s)),
        sho_ResponseErrorHandlerFunc = (\<lambda>err rw r s. (Completed, http_Error (go_error_Error lib err) 500 rw, s))\<rparr>\<rparr>"

end
