(* ===== verification/Net_Url.thy ===== *)
theory Net_Url
  imports Prelude "HOL-Library.Char_ord" "HOL-Library.List_Lexorder"
begin

text \<open>
  What the generated client and the server use of \<^verbatim>\<open>net/url\<close>: the escapes, the parser, references
  relative to a URL, queries and the text of a URL. The authority (\<^verbatim>\<open>host:port\<close>) is kept as it is
  written; its userinfo, brackets and escapes are not looked into. Errors are \<open>None\<close>.
\<close>

section \<open>Cutting strings\<close>

text \<open>\<^verbatim>\<open>strings.Cut\<close> at a byte, and all the parts between the occurrences of a byte.\<close>

definition strings_Cut :: "char \<Rightarrow> string \<Rightarrow> string \<times> string" where
  "strings_Cut c s = (takeWhile (\<lambda>x. x \<noteq> c) s, tl (dropWhile (\<lambda>x. x \<noteq> c) s))"

fun splits :: "char \<Rightarrow> string \<Rightarrow> string list" where
  "splits c [] = [[]]"
| "splits c (x # xs) =
     (if x = c then [] # splits c xs
      else case splits c xs of [] \<Rightarrow> [[x]] | y # ys \<Rightarrow> (x # y) # ys)"

lemma cut_at [simp]: "c \<notin> set a \<Longrightarrow> strings_Cut c (a @ c # b) = (a, b)"
proof -
  assume "c \<notin> set a"
  then have ne: "\<And>x. x \<in> set a \<Longrightarrow> x \<noteq> c" by auto
  then show ?thesis
    using takeWhile_append2 [of a "\<lambda>x. x \<noteq> c" "c # b"] dropWhile_append2 [of a "\<lambda>x. x \<noteq> c" "c # b"]
    by (simp add: strings_Cut_def)
qed


lemma cut_none [simp]: "c \<notin> set a \<Longrightarrow> strings_Cut c a = (a, [])"
  by (metis (mono_tags, lifting) strings_Cut_def dropWhile_eq_Nil_conv list.sel(2) takeWhile_eq_all_conv)

lemma splits_not_Nil [simp]: "splits c s \<noteq> []"
  by (induction s) (auto split: list.splits)

lemma splits_none [simp]: "c \<notin> set s \<Longrightarrow> splits c s = [s]"
  by (induction s) auto

lemma splits_append: "splits c (a @ c # b) = splits c a @ splits c b"
  by (induction a) (auto split: list.splits)

section \<open>Escapes\<close>

datatype encoding = encodePath | encodePathSegment | encodeQueryComponent | encodeFragment

definition is_alnum :: "char \<Rightarrow> bool" where
  "is_alnum c \<longleftrightarrow> (let n = of_char c :: nat in
     97 \<le> n \<and> n \<le> 122 \<or> 65 \<le> n \<and> n \<le> 90 \<or> 48 \<le> n \<and> n \<le> 57)"

fun shouldEscape :: "char \<Rightarrow> encoding \<Rightarrow> bool" where
  "shouldEscape c mode =
     (if is_alnum c \<or> c \<in> set ''-_.~'' then False
      else if c \<in> set ''$&+,/:;=?@'' then
        (case mode of
           encodePath \<Rightarrow> c = CHR ''?''
         | encodePathSegment \<Rightarrow> c \<in> set ''/;,?''
         | encodeQueryComponent \<Rightarrow> True
         | encodeFragment \<Rightarrow> False)
      else if mode = encodeFragment \<and> c \<in> set ''!()*'' then False
      else True)"

declare shouldEscape.simps [simp del]

definition upperhex :: "nat \<Rightarrow> char" where
  "upperhex n = ''0123456789ABCDEF'' ! n"

definition unhex :: "char \<Rightarrow> nat option" where
  "unhex c = (let n = of_char c :: nat in
     if 48 \<le> n \<and> n \<le> 57 then Some (n - 48)
     else if 97 \<le> n \<and> n \<le> 102 then Some (n - 87)
     else if 65 \<le> n \<and> n \<le> 70 then Some (n - 55)
     else None)"

definition escape_char :: "encoding \<Rightarrow> char \<Rightarrow> string" where
  "escape_char mode c =
     (if \<not> shouldEscape c mode then [c]
      else if c = CHR '' '' \<and> mode = encodeQueryComponent then ''+''
      else [CHR ''%'', upperhex (of_char c div 16), upperhex (of_char c mod 16)])"

definition escape :: "encoding \<Rightarrow> string \<Rightarrow> string" where
  "escape mode s = concat (map (escape_char mode) s)"

fun unescape :: "encoding \<Rightarrow> string \<Rightarrow> string option" where
  "unescape mode [] = Some []"
| "unescape mode (c # s) =
     (if c = CHR ''%'' then
        (case s of
           a # b # s' \<Rightarrow>
             (case (unhex a, unhex b) of
                (Some h, Some l) \<Rightarrow> map_option (Cons (char_of (16 * h + l))) (unescape mode s')
              | _ \<Rightarrow> None)
         | _ \<Rightarrow> None)
      else map_option (Cons (if c = CHR ''+'' \<and> mode = encodeQueryComponent then CHR '' '' else c))
             (unescape mode s))"

lemma unhex_upperhex: "n < 16 \<Longrightarrow> unhex (upperhex n) = Some n"
proof -
  have "list_all (\<lambda>n. unhex (upperhex n) = Some n) [0 ..< 16]" by code_simp
  then show "n < 16 \<Longrightarrow> ?thesis" by (simp add: list_all_iff)
qed

lemma not_escaped [simp]: "\<not> shouldEscape c mode \<Longrightarrow> escape_char mode c = [c]"
  by (simp add: escape_char_def)

lemma percent_escaped: "\<not> shouldEscape c mode \<Longrightarrow> c \<noteq> CHR ''%''"
  by (auto simp: shouldEscape.simps is_alnum_def)

lemma plus_escaped: "\<not> shouldEscape c encodeQueryComponent \<Longrightarrow> c \<noteq> CHR ''+''"
  by (auto simp: shouldEscape.simps is_alnum_def)

lemma unescape_escape_char:
  "unescape mode (escape_char mode c @ s) = map_option (Cons c) (unescape mode s)"
proof (cases "shouldEscape c mode")
  case False
  then show ?thesis using percent_escaped [OF False] plus_escaped [of c] by auto
next
  case True
  have lt: "of_char c div 16 < (16::nat)" "of_char c mod 16 < (16::nat)"
    using nat_of_char_less_256 [of c] by (simp_all add: less_mult_imp_div_less)
  have "char_of (16 * (of_char c div 16) + of_char c mod 16 :: nat) = c" by simp
  with True lt show ?thesis by (simp add: escape_char_def unhex_upperhex)
qed

lemma unescape_escape: "unescape mode (escape mode s) = Some s"
  by (induction s) (simp_all add: escape_def unescape_escape_char)

text \<open>A text in which nothing needs an escape.\<close>

lemma escape_plain: "list_all (\<lambda>c. \<not> shouldEscape c mode) s \<Longrightarrow> escape mode s = s"
  by (induction s) (simp_all add: escape_def)

lemma unescape_plain:
  assumes "list_all (\<lambda>c. \<not> shouldEscape c mode) s"
  shows "unescape mode s = Some s"
  using unescape_escape [of mode s] escape_plain [OF assms] by simp

section \<open>URLs\<close>

record url =
  u_Scheme :: string
  u_Opaque :: string
  u_Host :: string
  u_Path :: string
  u_RawPath :: string
  u_OmitHost :: bool
  u_ForceQuery :: bool
  u_RawQuery :: string
  u_Fragment :: string
  u_RawFragment :: string

definition empty_url :: url where
  "empty_url = \<lparr>u_Scheme = [], u_Opaque = [], u_Host = [], u_Path = [], u_RawPath = [],
     u_OmitHost = False, u_ForceQuery = False, u_RawQuery = [], u_Fragment = [], u_RawFragment = []\<rparr>"

definition is_ctl :: "char \<Rightarrow> bool" where
  "is_ctl c \<longleftrightarrow> (let n = of_char c :: nat in n < 32 \<or> n = 127)"

text \<open>
  The raw form of a path or fragment is kept only when it is not the default encoding of the
  decoded one.
\<close>

definition raw_form :: "encoding \<Rightarrow> string \<Rightarrow> string \<Rightarrow> string" where
  "raw_form mode p decoded = (if p = escape mode decoded then [] else p)"

definition setPath :: "string \<Rightarrow> url \<Rightarrow> url option" where
  "setPath p u = map_option (\<lambda>path. u\<lparr>u_Path := path, u_RawPath := raw_form encodePath p path\<rparr>)
     (unescape encodePath p)"

definition setFragment :: "string \<Rightarrow> url \<Rightarrow> url option" where
  "setFragment f u =
     map_option (\<lambda>frag. u\<lparr>u_Fragment := frag, u_RawFragment := raw_form encodeFragment f frag\<rparr>)
       (unescape encodeFragment f)"

definition validEncoded :: "encoding \<Rightarrow> string \<Rightarrow> bool" where
  "validEncoded mode s = list_all (\<lambda>c. c \<in> set ''!$&()*+,;=:@[]%'' \<or> c = CHR 0x27 \<or> \<not> shouldEscape c mode) s"

definition escaped_form :: "encoding \<Rightarrow> string \<Rightarrow> string \<Rightarrow> string" where
  "escaped_form mode raw decoded =
     (if raw \<noteq> [] \<and> validEncoded mode raw \<and> unescape mode raw = Some decoded then raw
      else if mode = encodePath \<and> decoded = ''*'' then ''*''
      else escape mode decoded)"

definition EscapedPath :: "url \<Rightarrow> string" where
  "EscapedPath u = escaped_form encodePath (u_RawPath u) (u_Path u)"

definition EscapedFragment :: "url \<Rightarrow> string" where
  "EscapedFragment u = escaped_form encodeFragment (u_RawFragment u) (u_Fragment u)"

section \<open>The parser\<close>

definition is_alpha :: "char \<Rightarrow> bool" where
  "is_alpha c \<longleftrightarrow> (let n = of_char c :: nat in 97 \<le> n \<and> n \<le> 122 \<or> 65 \<le> n \<and> n \<le> 90)"

definition scheme_char :: "char \<Rightarrow> bool" where
  "scheme_char c \<longleftrightarrow> is_alnum c \<or> c \<in> set ''+-.''"

definition getScheme :: "string \<Rightarrow> (string \<times> string) option" where
  "getScheme raw =
     (let scheme = takeWhile scheme_char raw; rest = dropWhile scheme_char raw in
      if scheme \<noteq> [] \<and> \<not> is_alpha (hd scheme) then Some ([], raw)
      else if prefix '':'' rest then (if scheme = [] then None else Some (scheme, tl rest))
      else Some ([], raw))"

text \<open>The bytes of an authority, and the port after its last colon.\<close>

definition authority_char :: "char \<Rightarrow> bool" where
  "authority_char c \<longleftrightarrow> is_alnum c \<or> 128 \<le> (of_char c :: nat) \<or> c = CHR 0x27 \<or> c = CHR 0x22 \<or>
     c \<in> set ''-_.~!$&()*+,;=:[]<>%@''"

definition authority_ok :: "string \<Rightarrow> bool" where
  "authority_ok a \<longleftrightarrow> list_all authority_char a \<and>
     (CHR ''['' \<in> set a \<or> CHR '':'' \<notin> set a \<or>
      list_all is_digit (rev (takeWhile (\<lambda>c. c \<noteq> CHR '':'') (rev a))))"

definition parse_rest :: "bool \<Rightarrow> string \<Rightarrow> url \<Rightarrow> url option" where
  "parse_rest viaRequest rest u =
     (if \<not> prefix ''/'' rest \<and> u_Scheme u \<noteq> [] then Some (u\<lparr>u_Opaque := rest\<rparr>)
      else if \<not> prefix ''/'' rest \<and> viaRequest then None
      else if \<not> prefix ''/'' rest \<and> CHR '':'' \<in> set (fst (strings_Cut CHR ''/'' rest)) then None
      else if (u_Scheme u \<noteq> [] \<or> \<not> viaRequest \<and> \<not> prefix ''///'' rest) \<and> prefix ''//'' rest then
        (let authority = takeWhile (\<lambda>c. c \<noteq> CHR ''/'') (drop 2 rest);
             path = dropWhile (\<lambda>c. c \<noteq> CHR ''/'') (drop 2 rest)
         in if authority_ok authority then setPath path (u\<lparr>u_Host := authority\<rparr>) else None)
      else setPath rest (u\<lparr>u_OmitHost := u_Scheme u \<noteq> [] \<and> prefix ''/'' rest\<rparr>))"

definition parse_url :: "bool \<Rightarrow> string \<Rightarrow> url option" where
  "parse_url viaRequest raw =
     (if list_ex is_ctl raw \<or> raw = [] \<and> viaRequest then None
      else if raw = ''*'' then Some (empty_url\<lparr>u_Path := ''*''\<rparr>)
      else case getScheme raw of
             None \<Rightarrow> None
           | Some (scheme, rest) \<Rightarrow>
               (let u = empty_url\<lparr>u_Scheme := to_lower scheme\<rparr> in
                if suffix ''?'' rest \<and> count_list rest CHR ''?'' = 1
                then parse_rest viaRequest (butlast rest) (u\<lparr>u_ForceQuery := True\<rparr>)
                else case strings_Cut CHR ''?'' rest of
                       (path, q) \<Rightarrow> parse_rest viaRequest path (u\<lparr>u_RawQuery := q\<rparr>)))"

definition url_Parse :: "string \<Rightarrow> url option" where
  "url_Parse raw =
     (case strings_Cut CHR ''#'' raw of
        (u, frag) \<Rightarrow>
          Option.bind (parse_url False u) (\<lambda>u. if frag = [] then Some u else setFragment frag u))"

text \<open>\<^verbatim>\<open>ParseRequestURI\<close>, the parser of the server for the target of a request.\<close>

definition url_ParseRequestURI :: "string \<Rightarrow> url option" where
  "url_ParseRequestURI raw = parse_url True raw"

section \<open>References\<close>

text \<open>
  \<^verbatim>\<open>resolvePath\<close> goes through the parts of the joined path; \<open>dst\<close> is what it has written,
  \<open>first\<close> whether the next part comes without a slash.
\<close>

definition resolve_step :: "string \<Rightarrow> string \<times> bool \<Rightarrow> string \<times> bool" where
  "resolve_step elem st =
     (case st of (dst, first) \<Rightarrow>
        if elem = ''.'' then (dst, False)
        else if elem = ''..'' then
          (let str = tl dst in
           if CHR ''/'' \<notin> set str then (''/'', True)
           else (''/'' @ rev (tl (dropWhile (\<lambda>c. c \<noteq> CHR ''/'') (rev str))), first))
        else (dst @ (if first then [] else ''/'') @ elem, False))"

definition resolvePath :: "string \<Rightarrow> string \<Rightarrow> string" where
  "resolvePath base ref =
     (let full = (if ref = [] then base
                  else if \<not> prefix ''/'' ref
                  then rev (dropWhile (\<lambda>c. c \<noteq> CHR ''/'') (rev base)) @ ref
                  else ref)
      in if full = [] then []
         else let elems = splits CHR ''/'' full;
                  dst = fst (fold resolve_step elems (''/'', True));
                  r = (if last elems \<in> {''.'', ''..''} then dst @ ''/'' else dst)
              in if prefix ''//'' r then tl r else r)"

definition ResolveReference :: "url \<Rightarrow> url \<Rightarrow> url" where
  "ResolveReference u ref =
     (let url = (if u_Scheme ref = [] then ref\<lparr>u_Scheme := u_Scheme u\<rparr> else ref);
          set = (\<lambda>p url. case setPath p url of Some url' \<Rightarrow> url' | None \<Rightarrow> url)
      in if u_Scheme ref \<noteq> [] \<or> u_Host ref \<noteq> [] then set (resolvePath (EscapedPath ref) []) url
         else if u_Opaque ref \<noteq> [] then url\<lparr>u_Host := [], u_Path := []\<rparr>
         else
           (let url = (if u_Path ref = [] \<and> \<not> u_ForceQuery ref \<and> u_RawQuery ref = []
                       then (if u_Fragment ref = []
                             then url\<lparr>u_RawQuery := u_RawQuery u, u_Fragment := u_Fragment u,
                                      u_RawFragment := u_RawFragment u\<rparr>
                             else url\<lparr>u_RawQuery := u_RawQuery u\<rparr>)
                       else url)
            in if u_Path ref = [] \<and> u_Opaque u \<noteq> []
               then url\<lparr>u_Opaque := u_Opaque u, u_Host := [], u_Path := []\<rparr>
               else set (resolvePath (EscapedPath u) (EscapedPath ref)) (url\<lparr>u_Host := u_Host u\<rparr>)))"

text \<open>The method \<^verbatim>\<open>Parse\<close> of a URL.\<close>

definition url_Parse_ref :: "url \<Rightarrow> string \<Rightarrow> url option" where
  "url_Parse_ref u ref = map_option (ResolveReference u) (url_Parse ref)"

section \<open>Queries\<close>

text \<open>
  \<^verbatim>\<open>url.Values\<close> is the list of the pairs in the order in which they were added. The parser skips
  the pairs it cannot read, and reports an error.
\<close>

type_synonym url_values = "(string \<times> string) list"

definition query_pair :: "string \<Rightarrow> (string \<times> string) option" where
  "query_pair part =
     (if part = [] \<or> CHR '';'' \<in> set part then None
      else case strings_Cut CHR ''='' part of
             (k, v) \<Rightarrow>
               (case (unescape encodeQueryComponent k, unescape encodeQueryComponent v) of
                  (Some k', Some v') \<Rightarrow> Some (k', v')
                | _ \<Rightarrow> None))"

definition parsed_query :: "string \<Rightarrow> url_values" where
  "parsed_query q = List.map_filter query_pair (splits CHR ''&'' q)"

definition url_ParseQuery :: "string \<Rightarrow> url_values option" where
  "url_ParseQuery q =
     (if list_all (\<lambda>part. part = [] \<or> query_pair part \<noteq> None) (splits CHR ''&'' q)
      then Some (parsed_query q) else None)"

definition url_Query :: "url \<Rightarrow> url_values" where
  "url_Query u = parsed_query (u_RawQuery u)"

definition QueryEscape :: "string \<Rightarrow> string" where
  "QueryEscape s = escape encodeQueryComponent s"

definition PathEscape :: "string \<Rightarrow> string" where
  "PathEscape s = escape encodePathSegment s"

fun join_amp :: "string list \<Rightarrow> string" where
  "join_amp [] = []"
| "join_amp [x] = x"
| "join_amp (x # xs) = x @ ''&'' @ join_amp xs"

definition query_frag :: "string \<times> string \<Rightarrow> string" where
  "query_frag kv = QueryEscape (fst kv) @ ''='' @ QueryEscape (snd kv)"

definition Values_Encode :: "url_values \<Rightarrow> string" where
  "Values_Encode vs = join_amp (map query_frag (sort_key fst vs))"

section \<open>The text of a URL\<close>

definition url_String :: "url \<Rightarrow> string" where
  "url_String u =
     (let scheme = (if u_Scheme u \<noteq> [] then u_Scheme u @ '':'' else []);
          authority =
            (if (u_Scheme u \<noteq> [] \<or> u_Host u \<noteq> []) \<and> \<not> (u_OmitHost u \<and> u_Host u = []) \<and>
                (u_Host u \<noteq> [] \<or> u_Path u \<noteq> [])
             then ''//'' @ u_Host u else []);
          path = EscapedPath u;
          slash = (if path \<noteq> [] \<and> \<not> prefix ''/'' path \<and> u_Host u \<noteq> [] then ''/'' else []);
          dot = (if scheme @ authority @ slash = [] \<and> CHR '':'' \<in> set (fst (strings_Cut CHR ''/'' path))
                 then ''./'' else []);
          body = (if u_Opaque u \<noteq> [] then u_Opaque u else authority @ slash @ dot @ path);
          query = (if u_ForceQuery u \<or> u_RawQuery u \<noteq> [] then ''?'' @ u_RawQuery u else []);
          fragment = (if u_Fragment u \<noteq> [] then ''#'' @ EscapedFragment u else [])
      in scheme @ body @ query @ fragment)"

text \<open>\<^verbatim>\<open>RequestURI\<close>, the target of a request for the URL.\<close>

definition RequestURI :: "url \<Rightarrow> string" where
  "RequestURI u =
     (let result = (if u_Opaque u = [] then (if EscapedPath u = [] then ''/'' else EscapedPath u)
                    else if prefix ''//'' (u_Opaque u) then u_Scheme u @ '':'' @ u_Opaque u
                    else u_Opaque u)
      in if u_ForceQuery u \<or> u_RawQuery u \<noteq> [] then result @ ''?'' @ u_RawQuery u else result)"

section \<open>Absolute URLs and request targets\<close>

text \<open>
  URLs as the API's clients use them: a scheme and a host, an absolute path without escapes and
  an encoded query.
\<close>

definition with_query :: "string \<Rightarrow> string" where
  "with_query q = (if q = [] then [] else CHR ''?'' # q)"

definition valid_scheme :: "string \<Rightarrow> bool" where
  "valid_scheme s \<longleftrightarrow> s \<noteq> [] \<and> is_alpha (hd s) \<and> list_all scheme_char s \<and> to_lower s = s"

definition valid_host :: "string \<Rightarrow> bool" where
  "valid_host h \<longleftrightarrow> h \<noteq> [] \<and> authority_ok h"

definition path_char :: "char \<Rightarrow> bool" where
  "path_char c \<longleftrightarrow> \<not> shouldEscape c encodePath"

definition plain_path :: "string \<Rightarrow> bool" where
  "plain_path p \<longleftrightarrow> prefix ''/'' p \<and> \<not> prefix ''//'' p \<and> list_all path_char p"

definition query_char :: "char \<Rightarrow> bool" where
  "query_char c \<longleftrightarrow> \<not> shouldEscape c encodeQueryComponent \<or> c \<in> set ''%+&=''"

definition absolute_url :: "string \<Rightarrow> string \<Rightarrow> string \<Rightarrow> string \<Rightarrow> url" where
  "absolute_url scheme host p q =
     empty_url\<lparr>u_Scheme := scheme, u_Host := host, u_Path := p, u_RawQuery := q\<rparr>"

lemma ctl_escaped: "is_ctl c \<Longrightarrow> \<not> is_alnum c \<and> shouldEscape c mode"
proof -
  assume c: "is_ctl c"
  then have a: "\<not> is_alnum c" by (auto simp: is_ctl_def is_alnum_def Let_def)
  have "\<forall>d \<in> set ''-_.~''. \<not> is_ctl d" "\<forall>d \<in> set ''$&+,/:;=?@''. \<not> is_ctl d" "\<forall>d \<in> set ''!()*''. \<not> is_ctl d"
    by (simp_all add: is_ctl_def)
  with c have "c \<notin> set ''-_.~''" "c \<notin> set ''$&+,/:;=?@''" "c \<notin> set ''!()*''" by blast+
  then show ?thesis using a by (simp only: shouldEscape.simps if_False simp_thms)
qed

lemma ctl_excluded: "is_ctl c \<Longrightarrow> \<not> path_char c \<and> \<not> query_char c \<and> \<not> authority_char c \<and> \<not> scheme_char c"
proof -
  assume c: "is_ctl c"
  have "\<forall>d \<in> set ''%+&=''. \<not> is_ctl d" "\<forall>d \<in> set ''-_.~!$&()*+,;=:[]<>%@''. \<not> is_ctl d"
    "\<forall>d \<in> set ''+-.''. \<not> is_ctl d" "\<not> is_ctl CHR 0x27" "\<not> is_ctl CHR 0x22"
    by (simp_all add: is_ctl_def)
  with c have n: "c \<notin> set ''%+&=''" "c \<notin> set ''-_.~!$&()*+,;=:[]<>%@''" "c \<notin> set ''+-.''"
    "c \<noteq> CHR 0x27" "c \<noteq> CHR 0x22" by blast+
  have "\<not> 128 \<le> (of_char c :: nat)" using c by (auto simp: is_ctl_def Let_def)
  then show ?thesis using n ctl_escaped [OF c]
    by (simp only: path_char_def query_char_def authority_char_def scheme_char_def simp_thms)
qed

lemma separators_excluded:
  "\<not> path_char CHR ''?''" "\<not> path_char CHR ''#''" "\<not> query_char CHR ''?''" "\<not> query_char CHR ''#''"
  "\<not> authority_char CHR ''?''" "\<not> authority_char CHR ''#''" "\<not> authority_char CHR ''/''"
  "\<not> scheme_char CHR ''?''" "\<not> scheme_char CHR ''#''" "\<not> scheme_char CHR '':''"
  by (simp_all add: path_char_def query_char_def authority_char_def scheme_char_def shouldEscape.simps
      is_alnum_def)

lemma path_escape:
  assumes "list_all path_char p"
  shows "escape encodePath p = p" and "unescape encodePath p = Some p"
proof -
  have "list_all (\<lambda>c. \<not> shouldEscape c encodePath) p" using assms by (simp add: list_all_iff path_char_def)
  then show "escape encodePath p = p" "unescape encodePath p = Some p"
    by (simp_all add: escape_plain unescape_plain)
qed

lemma setPath_plain: "list_all path_char p \<Longrightarrow> setPath p u = Some (u\<lparr>u_Path := p, u_RawPath := []\<rparr>)"
  by (simp add: setPath_def raw_form_def path_escape)

lemma EscapedPath_plain:
  "list_all path_char (u_Path u) \<Longrightarrow> u_RawPath u = [] \<Longrightarrow> EscapedPath u = u_Path u"
  by (simp add: EscapedPath_def escaped_form_def path_escape)

lemma not_ctl:
  "list_all path_char p \<Longrightarrow> \<not> list_ex is_ctl p"
  "list_all query_char q \<Longrightarrow> \<not> list_ex is_ctl q"
  "list_all authority_char h \<Longrightarrow> \<not> list_ex is_ctl h"
  "list_all scheme_char s \<Longrightarrow> \<not> list_ex is_ctl s"
  unfolding list_all_iff list_ex_iff using ctl_excluded by blast+

lemma not_in:
  "list_all path_char p \<Longrightarrow> CHR ''?'' \<notin> set p \<and> CHR ''#'' \<notin> set p"
  "list_all query_char q \<Longrightarrow> CHR ''?'' \<notin> set q \<and> CHR ''#'' \<notin> set q"
  "list_all authority_char h \<Longrightarrow> CHR ''?'' \<notin> set h \<and> CHR ''#'' \<notin> set h \<and> CHR ''/'' \<notin> set h"
  "list_all scheme_char s \<Longrightarrow> CHR ''?'' \<notin> set s \<and> CHR ''#'' \<notin> set s \<and> CHR '':'' \<notin> set s"
  unfolding list_all_iff using separators_excluded by blast+

text \<open>The part after the scheme: what precedes the query, and the query.\<close>

lemma cut_query:
  assumes "CHR ''?'' \<notin> set p" and "CHR ''?'' \<notin> set q"
  shows "\<not> (suffix ''?'' (p @ with_query q) \<and> count_list (p @ with_query q) CHR ''?'' = 1)"
    and "strings_Cut CHR ''?'' (p @ with_query q) = (p, q)"
proof -
  have "last (p @ with_query q) \<noteq> CHR ''?'' \<or> p @ with_query q = []"
  proof (cases "q = []")
    case True
    then have "p @ with_query q = p" by (simp add: with_query_def)
    then show ?thesis using assms(1) last_in_set [of p] by metis
  next
    case False
    then have "last (p @ with_query q) = last q" by (simp add: with_query_def)
    then show ?thesis using False assms(2) last_in_set [of q] by metis
  qed
  then have "\<not> suffix ''?'' (p @ with_query q)" by (auto simp: suffix_def)
  then show "\<not> (suffix ''?'' (p @ with_query q) \<and> count_list (p @ with_query q) CHR ''?'' = 1)" by simp
  show "strings_Cut CHR ''?'' (p @ with_query q) = (p, q)"
    using assms by (simp add: with_query_def)
qed

lemma getScheme_none: "getScheme (CHR ''/'' # s) = Some ([], CHR ''/'' # s)"
  by (simp add: getScheme_def scheme_char_def is_alnum_def)

lemma getScheme_some:
  assumes "valid_scheme scheme"
  shows "getScheme (scheme @ '':'' @ s) = Some (scheme, s)"
proof -
  have "\<forall>c \<in> set scheme. scheme_char c" "\<not> scheme_char CHR '':''"
    using assms by (auto simp: valid_scheme_def list_all_iff scheme_char_def is_alnum_def)
  then show ?thesis
    using assms by (simp add: getScheme_def valid_scheme_def takeWhile_append2 dropWhile_append2)
qed

lemma parse_target:
  assumes "plain_path p" and "list_all query_char q"
  shows "url_ParseRequestURI (p @ with_query q) = Some (absolute_url [] [] p q)"
proof -
  obtain r where p: "p = CHR ''/'' # r" and dbl: "\<not> prefix ''/'' r" and pc: "list_all path_char p"
    using assms(1) by (auto simp: plain_path_def prefix_def)
  have nc: "\<not> list_ex is_ctl (p @ with_query q)"
    using not_ctl(1) [OF pc] not_ctl(2) [OF assms(2)] by (simp add: with_query_def is_ctl_def)
  then have nc': "\<not> (list_ex is_ctl (p @ with_query q) \<or> p @ with_query q = [] \<and> True)" by (simp add: p)
  have star: "p @ with_query q \<noteq> ''*''" by (simp add: p)
  note cq = cut_query [OF conjunct1 [OF not_in(1) [OF pc]] conjunct1 [OF not_in(2) [OF assms(2)]]]
  have g: "getScheme (p @ with_query q) = Some ([], p @ with_query q)" by (simp add: p getScheme_none)
  have "parse_url True (p @ with_query q) =
      parse_rest True p (empty_url\<lparr>u_Scheme := [], u_RawQuery := q\<rparr>)"
    unfolding parse_url_def g cq(2) if_not_P [OF nc'] if_not_P [OF star] option.case prod.case Let_def
      if_not_P [OF cq(1)] by (simp add: to_lower_def)
  also have "\<dots> = Some (absolute_url [] [] p q)"
    using pc by (simp add: parse_rest_def p setPath_plain absolute_url_def empty_url_def)
  finally show ?thesis by (simp add: url_ParseRequestURI_def)
qed

lemma parse_absolute:
  assumes "valid_scheme scheme" and "valid_host host" and "plain_path p" and "list_all query_char q"
  shows "url_Parse (scheme @ ''://'' @ host @ p @ with_query q) = Some (absolute_url scheme host p q)"
proof -
  let ?raw = "scheme @ ''://'' @ host @ p @ with_query q"
  have s: "list_all scheme_char scheme" "scheme \<noteq> []" "to_lower scheme = scheme"
    using assms(1) by (simp_all add: valid_scheme_def)
  have h: "list_all authority_char host" "host \<noteq> []" "authority_ok host"
    using assms(2) by (simp_all add: valid_host_def authority_ok_def)
  obtain r where p: "p = CHR ''/'' # r" and pc: "list_all path_char p"
    using assms(3) by (auto simp: plain_path_def prefix_def)
  note nc = not_ctl(1) [OF pc] not_ctl(2) [OF assms(4)] not_ctl(3) [OF h(1)] not_ctl(4) [OF s(1)]
  note ni = not_in(1) [OF pc] not_in(2) [OF assms(4)] not_in(3) [OF h(1)] not_in(4) [OF s(1)]
  have "CHR ''#'' \<notin> set ?raw" using ni by (simp add: with_query_def)
  then have frag: "strings_Cut CHR ''#'' ?raw = (?raw, [])" by (rule cut_none)
  have "\<not> list_ex is_ctl ?raw" using nc by (simp add: with_query_def is_ctl_def)
  then have nc': "\<not> (list_ex is_ctl ?raw \<or> ?raw = [] \<and> False)" by simp
  have star: "?raw \<noteq> ''*''" using s(2) by (cases scheme) auto
  have g: "getScheme ?raw = Some (scheme, (''//'' @ host @ p) @ with_query q)"
    using getScheme_some [OF assms(1), of "''//'' @ host @ p @ with_query q"] by simp
  have "CHR ''?'' \<notin> set (''//'' @ host @ p)" using ni by simp
  note cq = cut_query [OF this conjunct1 [OF ni(2)]]
  have slash: "takeWhile (\<lambda>c. c \<noteq> CHR ''/'') (host @ p) = host" "dropWhile (\<lambda>c. c \<noteq> CHR ''/'') (host @ p) = p"
  proof -
    have "\<And>c. c \<in> set host \<Longrightarrow> c \<noteq> CHR ''/''" using ni(3) by auto
    then show "takeWhile (\<lambda>c. c \<noteq> CHR ''/'') (host @ p) = host" "dropWhile (\<lambda>c. c \<noteq> CHR ''/'') (host @ p) = p"
      by (simp_all add: takeWhile_append2 dropWhile_append2 p)
  qed
  have "parse_url False ?raw =
      parse_rest False (''//'' @ host @ p) (empty_url\<lparr>u_Scheme := scheme, u_RawQuery := q\<rparr>)"
    unfolding parse_url_def g cq(2) if_not_P [OF nc'] if_not_P [OF star] option.case prod.case Let_def
      if_not_P [OF cq(1)] by (simp add: s(3))
  also have "\<dots> = Some (absolute_url scheme host p q)"
    using s(2) h(3) pc slash
    by (simp add: parse_rest_def setPath_plain absolute_url_def empty_url_def Let_def)
  finally show ?thesis unfolding url_Parse_def frag by simp
qed

lemma absolute_String:
  assumes "scheme \<noteq> []" and "host \<noteq> []" and "plain_path p"
  shows "url_String (absolute_url scheme host p q) = scheme @ ''://'' @ host @ p @ with_query q"
  using assms EscapedPath_plain [of "absolute_url scheme host p q"]
  by (simp add: url_String_def absolute_url_def empty_url_def plain_path_def with_query_def Let_def)

lemma absolute_RequestURI:
  assumes "plain_path p"
  shows "RequestURI (absolute_url scheme host p q) = p @ with_query q"
  using assms EscapedPath_plain [of "absolute_url scheme host p q"]
  by (auto simp: RequestURI_def absolute_url_def empty_url_def plain_path_def with_query_def Let_def)

section \<open>Encoded queries\<close>

lemma upperhex_char: "n < 16 \<Longrightarrow> query_char (upperhex n) \<and> upperhex n \<notin> set ''&;=''"
proof -
  have "list_all (\<lambda>n. query_char (upperhex n) \<and> upperhex n \<notin> set ''&;='') [0 ..< 16]" by code_simp
  then show "n < 16 \<Longrightarrow> ?thesis" by (simp add: list_all_iff)
qed

lemma unreserved_char: "\<not> shouldEscape c encodeQueryComponent \<Longrightarrow> c \<notin> set ''&;=''"
  by (auto simp: shouldEscape.simps is_alnum_def)

lemma escape_char_chars:
  "c' \<in> set (escape_char encodeQueryComponent c) \<Longrightarrow> query_char c' \<and> c' \<notin> set ''&;=''"
proof (cases "shouldEscape c encodeQueryComponent")
  case True
  have "of_char c div 16 < (16::nat)" "of_char c mod 16 < (16::nat)"
    using nat_of_char_less_256 [of c] by (simp_all add: less_mult_imp_div_less)
  moreover assume "c' \<in> set (escape_char encodeQueryComponent c)"
  ultimately show ?thesis
    using True upperhex_char [of "of_char c div 16"] upperhex_char [of "of_char c mod 16"]
    by (auto simp: escape_char_def query_char_def split: if_splits)
next
  case False
  moreover assume "c' \<in> set (escape_char encodeQueryComponent c)"
  ultimately show ?thesis using unreserved_char [OF False] by (simp add: query_char_def)
qed

lemma QueryEscape_chars: "c \<in> set (QueryEscape s) \<Longrightarrow> query_char c \<and> c \<notin> set ''&;=''"
  unfolding QueryEscape_def escape_def using escape_char_chars by fastforce

lemma frag_chars: "c \<in> set (query_frag kv) \<Longrightarrow> query_char c \<and> c \<notin> set ''&;''"
  using QueryEscape_chars [of c "fst kv"] QueryEscape_chars [of c "snd kv"]
  by (auto simp: query_frag_def query_char_def)

lemma query_pair_frag: "query_pair (query_frag kv) = Some kv"
proof -
  have ne: "query_frag kv \<noteq> []" by (simp add: query_frag_def)
  have semi: "CHR '';'' \<notin> set (query_frag kv)" using frag_chars [of "CHR '';''" kv] by auto
  have eq: "CHR ''='' \<notin> set (QueryEscape (fst kv))" using QueryEscape_chars [of "CHR ''=''" "fst kv"] by auto
  have "strings_Cut CHR ''='' (query_frag kv) = (QueryEscape (fst kv), QueryEscape (snd kv))"
    using eq by (simp add: query_frag_def)
  then show ?thesis using ne semi by (simp add: query_pair_def QueryEscape_def unescape_escape)
qed

lemma splits_join:
  "xs \<noteq> [] \<Longrightarrow> (\<And>x. x \<in> set xs \<Longrightarrow> CHR ''&'' \<notin> set x) \<Longrightarrow> splits CHR ''&'' (join_amp xs) = xs"
proof (induction xs rule: join_amp.induct)
  case (3 x y ys)
  have "splits CHR ''&'' (join_amp (x # y # ys)) = splits CHR ''&'' x @ splits CHR ''&'' (join_amp (y # ys))"
    by (simp add: splits_append)
  then show ?case using 3 by simp
qed simp_all

lemma join_chars: "c \<in> set (join_amp xs) \<Longrightarrow> c = CHR ''&'' \<or> (\<exists>x \<in> set xs. c \<in> set x)"
  by (induction xs rule: join_amp.induct) auto

lemma Encode_chars: "list_all query_char (Values_Encode vs)"
  unfolding list_all_iff Values_Encode_def
  using frag_chars join_chars by (fastforce simp: query_char_def)

lemma parse_frags: "List.map_filter query_pair (map query_frag vs) = vs"
  by (induction vs) (simp_all add: query_pair_frag List.map_filter_simps)

text \<open>An encoded query is read back, in the order of the keys.\<close>

lemma parsed_Encode:
  "parsed_query (Values_Encode vs) = sort_key fst vs"
  "url_ParseQuery (Values_Encode vs) = Some (sort_key fst vs)"
proof -
  let ?xs = "map query_frag (sort_key fst vs)"
  have parts: "vs \<noteq> [] \<Longrightarrow> splits CHR ''&'' (join_amp ?xs) = ?xs"
  proof (rule splits_join)
    show "vs \<noteq> [] \<Longrightarrow> ?xs \<noteq> []" by (metis length_0_conv length_map length_sort)
    show "x \<in> set ?xs \<Longrightarrow> CHR ''&'' \<notin> set x" for x using frag_chars [of "CHR ''&''"] by auto
  qed
  show p: "parsed_query (Values_Encode vs) = sort_key fst vs"
  proof (cases "vs = []")
    case True
    then show ?thesis by (simp add: parsed_query_def Values_Encode_def query_pair_def List.map_filter_simps)
  next
    case False
    show ?thesis unfolding parsed_query_def Values_Encode_def parts [OF False] by (rule parse_frags)
  qed
  have "list_all (\<lambda>part. part = [] \<or> query_pair part \<noteq> None) (splits CHR ''&'' (Values_Encode vs))"
  proof (cases "vs = []")
    case True
    then show ?thesis by (simp add: Values_Encode_def)
  next
    case False
    show ?thesis unfolding Values_Encode_def parts [OF False] by (simp add: list_all_iff query_pair_frag)
  qed
  then show "url_ParseQuery (Values_Encode vs) = Some (sort_key fst vs)" using p by (simp add: url_ParseQuery_def)
qed

section \<open>References to a path below the root\<close>

definition dot_free :: "string \<Rightarrow> bool" where
  "dot_free p \<longleftrightarrow> ''.'' \<notin> set (splits CHR ''/'' p) \<and> ''..'' \<notin> set (splits CHR ''/'' p)"

lemma concat_splits: "concat (map (Cons c) (splits c s)) = c # s"
  by (induction s) (auto split: list.splits)

lemma fold_plain:
  "''.'' \<notin> set es \<Longrightarrow> ''..'' \<notin> set es \<Longrightarrow>
   fold resolve_step es (dst, False) = (dst @ concat (map (Cons CHR ''/'') es), False)"
  by (induction es arbitrary: dst) (auto simp: resolve_step_def)

lemma resolve_below_root:
  assumes "dot_free r" and "\<not> prefix ''/'' r"
  shows "resolvePath ''/'' (''./'' @ r) = CHR ''/'' # r"
proof -
  have es: "splits CHR ''/'' (''/./'' @ r) = [[], ''.''] @ splits CHR ''/'' r" by simp
  have "fold resolve_step (splits CHR ''/'' (''/./'' @ r)) (''/'', True) = (''//'' @ r, False)"
    unfolding es using assms(1) fold_plain [of "splits CHR ''/'' r" "''/''"] concat_splits [of "CHR ''/''" r]
    by (simp add: resolve_step_def dot_free_def)
  moreover have "last (splits CHR ''/'' (''/./'' @ r)) \<notin> {''.'', ''..''}"
    using assms(1) last_in_set [of "splits CHR ''/'' r"] unfolding es dot_free_def
    by (metis insertE last_appendR singletonD splits_not_Nil)
  ultimately show ?thesis by (simp add: resolvePath_def Let_def)
qed

lemma parse_reference:
  assumes "list_all path_char r"
  shows "url_Parse (''./'' @ r) = Some (absolute_url [] [] (''./'' @ r) [])"
proof -
  let ?raw = "''./'' @ r"
  have pc: "list_all path_char ?raw"
    using assms by (simp add: path_char_def shouldEscape.simps is_alnum_def)
  note ni = not_in(1) [OF pc]
  have nc: "\<not> (list_ex is_ctl ?raw \<or> ?raw = [] \<and> False)" using not_ctl(1) [OF pc] by simp
  have star: "?raw \<noteq> ''*''" by simp
  have g: "getScheme ?raw = Some ([], ?raw @ with_query [])"
    by (simp add: getScheme_def scheme_char_def is_alnum_def is_alpha_def with_query_def)
  have "CHR ''?'' \<notin> set ([] :: string)" by simp
  note cq = cut_query [OF conjunct1 [OF ni] this]
  have "parse_url False ?raw = parse_rest False ?raw (empty_url\<lparr>u_Scheme := [], u_RawQuery := []\<rparr>)"
    unfolding parse_url_def g if_not_P [OF nc] if_not_P [OF star] option.case Let_def prod.case
      if_not_P [OF cq(1)] cq(2) by (simp add: to_lower_def)
  also have "\<dots> = setPath ?raw (empty_url\<lparr>u_OmitHost := False\<rparr>)"
    using cut_at [of "CHR ''/''" "''.''" r] by (simp add: parse_rest_def empty_url_def)
  also have "\<dots> = Some (absolute_url [] [] ?raw [])"
    unfolding setPath_plain [OF pc] by (simp add: absolute_url_def empty_url_def)
  finally show ?thesis unfolding url_Parse_def using ni by simp
qed

lemma reference_below_root:
  assumes "list_all path_char r" and "dot_free r" and "\<not> prefix ''/'' r" and "scheme \<noteq> []"
  shows "url_Parse_ref (absolute_url scheme host ''/'' []) (''./'' @ r) =
    Some (absolute_url scheme host (CHR ''/'' # r) [])"
proof -
  have c: "path_char CHR ''/''" "path_char CHR ''.''"
    by (simp_all add: path_char_def shouldEscape.simps is_alnum_def)
  have "EscapedPath (absolute_url scheme host ''/'' []) = ''/''"
    "EscapedPath (absolute_url [] [] (''./'' @ r) []) = ''./'' @ r"
    using EscapedPath_plain [of "absolute_url scheme host ''/'' []"]
      EscapedPath_plain [of "absolute_url [] [] (''./'' @ r) []"] assms(1) c
    by (simp_all add: absolute_url_def empty_url_def)
  then show ?thesis
    unfolding url_Parse_ref_def parse_reference [OF assms(1)]
    using resolve_below_root [OF assms(2,3)] assms(1) c
    by (simp add: ResolveReference_def setPath_plain absolute_url_def empty_url_def Let_def)
qed

end
