(* ===== verification/Registration.thy ===== *)
theory Registration
  imports Config Volume_Handler Net_Url
begin

text \<open>
  Registration with the DCM control plane (\<^verbatim>\<open>internal/registration/registration.go\<close> and
  \<^verbatim>\<open>api/v1alpha1/paths.go\<close>): the payload, the classification of one attempt, the retry loop with
  its backoff, and the once-only start. The DCM client and the OpenAPI document are parameters.
\<close>

section \<open>The endpoint path\<close>

text \<open>
  \<open>paths\<close> is what the OpenAPI loader gives: an error, or the paths in matching order, each with
  whether it has a POST operation.
\<close>

fun first_post :: "(string \<times> bool) list \<Rightarrow> string option" where
  "first_post [] = None"
| "first_post ((p, post) # ps) = (if post then Some p else first_post ps)"

definition PostPath :: "string + (string \<times> bool) list \<Rightarrow> string + string" where
  "PostPath swagger =
     (case swagger of
        Inl err \<Rightarrow> Inl (''loading OpenAPI spec: '' @ err)
      | Inr paths \<Rightarrow>
          (case first_post paths of
             Some p \<Rightarrow> Inr p
           | None \<Rightarrow> Inl ''no POST path found in OpenAPI spec''))"

text \<open>The paths of \<^verbatim>\<open>api/v1alpha1/openapi.yaml\<close> with their operations' POST flag.\<close>

definition openapi_paths :: "(string \<times> bool) list" where
  "openapi_paths =
     [(''/api/v1alpha1/volumes'', True),
      (''/api/v1alpha1/volumes/health'', False),
      (''/api/v1alpha1/volumes/{volume_id}'', False)]"

lemma first_post_in: "first_post ps = Some q \<Longrightarrow> (q, True) \<in> set ps"
  by (induction ps rule: first_post.induct) (auto split: if_splits)

lemma first_post_None: "first_post ps = None \<longleftrightarrow> (\<forall>p. (p, True) \<notin> set ps)"
  by (induction ps rule: first_post.induct) auto

lemma first_post_unique:
  assumes "(p, True) \<in> set ps" and "\<And>q. (q, True) \<in> set ps \<Longrightarrow> q = p"
  shows "first_post ps = Some p"
proof (cases "first_post ps")
  case None
  then show ?thesis using assms(1) by (simp add: first_post_None)
next
  case (Some q)
  then show ?thesis using assms(2) [OF first_post_in] by simp
qed

lemma PostPath_openapi:
  assumes "set ps = set openapi_paths"
  shows "PostPath (Inr ps) = Inr volumesBasePath"
proof -
  have "first_post ps = Some volumesBasePath"
    by (rule first_post_unique) (auto simp: assms openapi_paths_def volumesBasePath_def)
  then show ?thesis by (simp add: PostPath_def)
qed

text \<open>The package variable \<^verbatim>\<open>endpointSuffix\<close>: its initialisation panics when there is no such path.\<close>

definition mustPostPath :: "string + (string \<times> bool) list \<Rightarrow> string + string" where
  "mustPostPath swagger =
     (case PostPath swagger of
        Inl err \<Rightarrow> Inl (''registration: resolving endpoint path from OpenAPI spec: '' @ err)
      | Inr p \<Rightarrow> Inr p)"

section \<open>The payload\<close>

definition serviceType :: string where
  "serviceType = ''storage''"

definition schemaVersion :: string where
  "schemaVersion = ''v1alpha1''"

definition httpTimeout :: duration where
  "httpTimeout = 30 * Second"

record ProviderMetadata =
  pm_RegionCode :: "string option"
  pm_Zone :: "string option"

record Provider =
  pv_Name :: string
  pv_ServiceType :: string
  pv_Endpoint :: string
  pv_Operations :: "string list option"
  pv_SchemaVersion :: string
  pv_DisplayName :: "string option"
  pv_Metadata :: "ProviderMetadata option"

definition ops :: "string list" where
  "ops = [''CREATE'', ''READ'', ''DELETE'']"

definition non_empty :: "string \<Rightarrow> string option" where
  "non_empty s = (if s \<noteq> '''' then Some s else None)"

definition BuildPayload :: "string \<Rightarrow> Config \<Rightarrow> Provider" where
  "BuildPayload endpointSuffix cfg =
     (let pr = cf_Provider cfg in
      \<lparr>pv_Name = pr_Name pr,
       pv_ServiceType = serviceType,
       pv_Endpoint = pr_Endpoint pr @ endpointSuffix,
       pv_Operations = Some ops,
       pv_SchemaVersion = schemaVersion,
       pv_DisplayName = non_empty (pr_DisplayName pr),
       pv_Metadata =
         (if pr_Region pr \<noteq> '''' \<or> pr_Zone pr \<noteq> ''''
          then Some \<lparr>pm_RegionCode = non_empty (pr_Region pr), pm_Zone = non_empty (pr_Zone pr)\<rparr>
          else None)\<rparr>)"

section \<open>The registrar\<close>

record Registrar =
  rg_cfg :: Config
  rg_initialBackoff :: duration
  rg_maxBackoff :: duration

type_synonym Option = "Registrar \<Rightarrow> Registrar"

definition SetInitialBackoff :: "duration \<Rightarrow> Option" where
  "SetInitialBackoff d r = r\<lparr>rg_initialBackoff := d\<rparr>"

definition SetMaxBackoff :: "duration \<Rightarrow> Option" where
  "SetMaxBackoff d r = r\<lparr>rg_maxBackoff := d\<rparr>"

text \<open>
  \<open>new_client url timeout\<close> is the error of \<^verbatim>\<open>dcmclient.NewClientWithResponses\<close> with an HTTP client
  of that timeout, if any.
\<close>

definition NewRegistrar ::
  "(string \<Rightarrow> duration \<Rightarrow> string option) \<Rightarrow> Config \<Rightarrow> Option list \<Rightarrow> string + Registrar" where
  "NewRegistrar new_client cfg opts =
     (let url = dcm_RegistrationURL (cf_DCM cfg);
          invalid = Inl (''creating DCM client: invalid registration URL '' @ go_quote url)
      in case url_Parse url of
           None \<Rightarrow> invalid
         | Some u \<Rightarrow>
             if u_Scheme u = '''' \<or> u_Host u = '''' then invalid
             else
               (let r = foldl (\<lambda>r opt. opt r)
                      \<lparr>rg_cfg = cfg, rg_initialBackoff = 1 * Second, rg_maxBackoff = 60 * Second\<rparr> opts
                in case new_client url httpTimeout of
                     Some err \<Rightarrow> Inl (''creating DCM client: '' @ err)
                   | None \<Rightarrow> Inr r))"

section \<open>One attempt\<close>

datatype reg_error = Retryable string | NonRetryable string

text \<open>
  \<open>send\<close> is \<^verbatim>\<open>CreateProviderWithResponse\<close> of the client: a transport error, or a status code with
  a body.
\<close>

definition register :: "(Provider \<Rightarrow> string + (int \<times> string)) \<Rightarrow> Provider \<Rightarrow> reg_error option" where
  "register send provider =
     (case send provider of
        Inl err \<Rightarrow> Some (Retryable (''sending registration request: '' @ err))
      | Inr (sc, body) \<Rightarrow>
          if 400 \<le> sc \<and> sc < 500 then
            Some (NonRetryable (''registration returned non-retryable status '' @ show_int sc @ '': '' @
              (if length body > 200 then take 200 body else body) @ '': non-retryable''))
          else if sc \<noteq> 200 \<and> sc \<noteq> 201 then
            Some (Retryable (''registration returned status '' @ show_int sc @ '': '' @
              (if length body > 200 then take 200 body else body)))
          else None)"

section \<open>The retry loop\<close>

datatype run_end = Registered | GaveUp | Cancelled

definition next_backoff :: "Registrar \<Rightarrow> duration \<Rightarrow> duration" where
  "next_backoff r backoff =
     (let doubled = wrap64 (backoff * 2) in
      if doubled > rg_maxBackoff r then rg_maxBackoff r else doubled)"

text \<open>
  The loop from attempt \<open>n\<close> on: \<open>answers n\<close> is what the \<open>n\<close>-th call of the client answers,
  \<open>cancelled n\<close> says that the wait after it ends by the context, not the timer. The result is how
  the loop ended and the waits it began, in order; \<open>None\<close> is running out of fuel.
\<close>

fun run_from ::
  "nat \<Rightarrow> Registrar \<Rightarrow> Provider \<Rightarrow> (nat \<Rightarrow> Provider \<Rightarrow> string + (int \<times> string)) \<Rightarrow> (nat \<Rightarrow> bool) \<Rightarrow>
     nat \<Rightarrow> duration \<Rightarrow> (run_end \<times> duration list) option" where
  "run_from 0 r payload answers cancelled n backoff = None"
| "run_from (Suc fuel) r payload answers cancelled n backoff =
     (case register (answers n) payload of
        None \<Rightarrow> Some (Registered, [])
      | Some (NonRetryable _) \<Rightarrow> Some (GaveUp, [])
      | Some (Retryable _) \<Rightarrow>
          if cancelled n then Some (Cancelled, [backoff])
          else map_option (\<lambda>(e, waits). (e, backoff # waits))
                 (run_from fuel r payload answers cancelled (Suc n) (next_backoff r backoff)))"

definition run ::
  "nat \<Rightarrow> string \<Rightarrow> Registrar \<Rightarrow> (nat \<Rightarrow> Provider \<Rightarrow> string + (int \<times> string)) \<Rightarrow> (nat \<Rightarrow> bool) \<Rightarrow>
     (run_end \<times> duration list) option" where
  "run fuel endpointSuffix r answers cancelled =
     run_from fuel r (BuildPayload endpointSuffix (rg_cfg r)) answers cancelled 0 (rg_initialBackoff r)"

text \<open>The answers after which the loop goes on: transport errors, and all codes but 200, 201 and 4xx.\<close>

definition retries :: "string + (int \<times> string) \<Rightarrow> bool" where
  "retries answer \<longleftrightarrow>
     (case answer of Inl _ \<Rightarrow> True
      | Inr (sc, _) \<Rightarrow> \<not> (400 \<le> sc \<and> sc < 500) \<and> sc \<noteq> 200 \<and> sc \<noteq> 201)"

text \<open>How the loop ends at the first attempt that is decisive or whose wait is cancelled.\<close>

definition end_at :: "string + (int \<times> string) \<Rightarrow> run_end" where
  "end_at answer =
    (case answer of
       Inl _ \<Rightarrow> Cancelled
     | Inr (sc, _) \<Rightarrow> if sc \<in> {200, 201} then Registered
         else if 400 \<le> sc \<and> sc < 500 then GaveUp else Cancelled)"

lemma register_cases:
  "(case register send p of
      None \<Rightarrow> P Registered | Some (NonRetryable _) \<Rightarrow> P GaveUp | Some (Retryable _) \<Rightarrow> Q) =
   (if retries (send p) then Q else P (end_at (send p)))"
  by (auto simp: register_def retries_def end_at_def split: sum.splits)

lemma run_from_step:
  "run_from (Suc fuel) r p answers cancelled n b =
     (if retries (answers n p) then
        (if cancelled n then Some (Cancelled, [b])
         else map_option (\<lambda>(e, waits). (e, b # waits))
                (run_from fuel r p answers cancelled (Suc n) (next_backoff r b)))
      else Some (end_at (answers n p), []))"
  unfolding run_from.simps register_cases [where P = "\<lambda>e. Some (e, [])"] ..

lemma end_at_retries: "retries answer \<Longrightarrow> end_at answer = Cancelled"
  by (auto simp: retries_def end_at_def split: sum.splits)

fun backoff_at :: "Registrar \<Rightarrow> nat \<Rightarrow> duration" where
  "backoff_at r 0 = rg_initialBackoff r"
| "backoff_at r (Suc n) = next_backoff r (backoff_at r n)"

definition run_waits :: "string + (int \<times> string) \<Rightarrow> nat \<Rightarrow> nat" where
  "run_waits answer n = (if retries answer then Suc n else n)"

lemma run_from_ends:
  assumes "\<And>k. m \<le> k \<Longrightarrow> k < m + d \<Longrightarrow> retries (answers k p) \<and> \<not> cancelled k"
    and "\<not> retries (answers (m + d) p) \<or> cancelled (m + d)" and "d < fuel"
  shows "run_from fuel r p answers cancelled m (backoff_at r m) =
    Some (end_at (answers (m + d) p), map (backoff_at r) [m ..< run_waits (answers (m + d) p) (m + d)])"
  using assms
proof (induction d arbitrary: m fuel)
  case 0
  then obtain f where f: "fuel = Suc f" by (cases fuel) auto
  from 0 show ?case
    by (auto simp: f run_from_step run_waits_def end_at_retries simp del: run_from.simps)
next
  case (Suc d)
  then obtain f where f: "fuel = Suc f" by (cases fuel) auto
  have "retries (answers m p)" "\<not> cancelled m" using Suc.prems(1) [of m] by auto
  moreover have "run_from f r p answers cancelled (Suc m) (backoff_at r (Suc m)) =
      Some (end_at (answers (Suc m + d) p),
        map (backoff_at r) [Suc m ..< run_waits (answers (Suc m + d) p) (Suc m + d)])"
    using Suc.prems f by (intro Suc.IH) auto
  moreover have "[m ..< run_waits (answers (Suc m + d) p) (Suc m + d)] =
      m # [Suc m ..< run_waits (answers (Suc m + d) p) (Suc m + d)]"
    by (rule upt_conv_Cons) (simp add: run_waits_def)
  ultimately show ?case by (simp add: f run_from_step del: run_from.simps)
qed

lemma run_from_diverges:
  assumes "\<And>k. retries (answers k p) \<and> \<not> cancelled k"
  shows "run_from fuel r p answers cancelled n b = None"
proof (induction fuel arbitrary: n b)
  case 0
  then show ?case by simp
next
  case (Suc fuel)
  then show ?case using assms [of n] by (simp add: run_from_step del: run_from.simps)
qed

lemma backoff_at_closed:
  assumes "0 < rg_initialBackoff r" and "rg_initialBackoff r \<le> rg_maxBackoff r"
    and "rg_maxBackoff r < 2 ^ 62"
  shows "backoff_at r n = min (rg_initialBackoff r * 2 ^ n) (rg_maxBackoff r)"
proof (induction n)
  case 0
  then show ?case using assms by simp
next
  case (Suc n)
  have pos: "0 < rg_initialBackoff r * 2 ^ n" using assms(1) by simp
  have top: "0 < rg_maxBackoff r" using assms(1,2) by linarith
  have b: "0 \<le> backoff_at r n" "backoff_at r n < 2 ^ 62" using Suc pos top assms(3) by auto
  then have "wrap64 (backoff_at r n * 2) = backoff_at r n * 2" by (intro wrap64_id) auto
  then show ?case using Suc pos top by (auto simp: next_backoff_def Let_def min_def)
qed

text \<open>The loop ends exactly when some attempt is decisive or some wait is cancelled.\<close>

lemma run_ends:
  assumes "p = BuildPayload path (rg_cfg r)"
    and "\<forall>k < n. retries (answers k p) \<and> \<not> cancelled k" and "\<not> retries (answers n p) \<or> cancelled n"
    and "n < fuel"
  shows "run fuel path r answers cancelled =
    Some (end_at (answers n p), map (backoff_at r) [0 ..< run_waits (answers n p) n])"
  using run_from_ends [of 0 n answers p cancelled fuel r] assms by (simp add: run_def)

lemma run_ends_iff:
  assumes "p = BuildPayload path (rg_cfg r)"
  shows "(\<exists>fuel. run fuel path r answers cancelled \<noteq> None) \<longleftrightarrow>
    (\<exists>n. \<not> retries (answers n p) \<or> cancelled n)"
proof
  assume ex: "\<exists>fuel. run fuel path r answers cancelled \<noteq> None"
  show "\<exists>n. \<not> retries (answers n p) \<or> cancelled n"
  proof (rule ccontr)
    assume "\<not> ?thesis"
    then have "run_from fuel r p answers cancelled 0 (rg_initialBackoff r) = None" for fuel
      by (intro run_from_diverges) blast
    with ex show False by (simp add: run_def assms)
  qed
next
  assume ex: "\<exists>n. \<not> retries (answers n p) \<or> cancelled n"
  define n where "n = (LEAST n. \<not> retries (answers n p) \<or> cancelled n)"
  have "\<not> retries (answers n p) \<or> cancelled n" unfolding n_def using ex by (rule LeastI_ex)
  moreover have "\<forall>k < n. retries (answers k p) \<and> \<not> cancelled k"
    using not_less_Least [where P = "\<lambda>n. \<not> retries (answers n p) \<or> cancelled n"] unfolding n_def by blast
  ultimately show "\<exists>fuel. run fuel path r answers cancelled \<noteq> None"
    using run_ends [OF assms, of n answers cancelled "Suc n"] by (intro exI [of _ "Suc n"]) simp
qed

text \<open>The registrar with its default backoff.\<close>

lemma NewRegistrar_default:
  "NewRegistrar new_client cfg [] = Inr r \<Longrightarrow>
   r = \<lparr>rg_cfg = cfg, rg_initialBackoff = 1 * Second, rg_maxBackoff = 60 * Second\<rparr>"
  by (auto simp: NewRegistrar_def Let_def split: option.splits if_splits)

lemma default_backoff:
  "backoff_at \<lparr>rg_cfg = cfg, rg_initialBackoff = 1 * Second, rg_maxBackoff = 60 * Second\<rparr> n =
     min (Second * 2 ^ n) (60 * Second)"
  by (subst backoff_at_closed) (simp_all add: Second_def Millisecond_def)

lemma default_run:
  assumes "NewRegistrar new_client cfg [] = Inr r" and "p = BuildPayload path cfg"
    and "\<forall>k < n. retries (answers k p) \<and> \<not> cancelled k" and "\<not> retries (answers n p) \<or> cancelled n"
    and "n < fuel"
  shows "run fuel path r answers cancelled =
    Some (end_at (answers n p),
      map (\<lambda>k. min (Second * 2 ^ k) (60 * Second)) [0 ..< (if retries (answers n p) then Suc n else n)])"
proof -
  note d = NewRegistrar_default [OF assms(1)]
  have "backoff_at r = (\<lambda>k. min (Second * 2 ^ k) (60 * Second))"
    unfolding d by (rule ext, rule default_backoff)
  then show ?thesis
    using run_ends [of p path r n answers cancelled fuel] assms(2-5) by (simp add: run_waits_def d)
qed

section \<open>Start\<close>

text \<open>
  \<^verbatim>\<open>startOnce\<close>, the goroutines it launched that still run, and how often \<^verbatim>\<open>done\<close> was closed
  (closing a closed channel panics).
\<close>

record reg_state =
  rs_started :: bool
  rs_running :: nat
  rs_closed :: nat

definition reg_init :: reg_state where
  "reg_init = \<lparr>rs_started = False, rs_running = 0, rs_closed = 0\<rparr>"

definition Registrar_Start :: "reg_state \<Rightarrow> reg_state" where
  "Registrar_Start s =
     (if rs_started s then s else s\<lparr>rs_started := True, rs_running := Suc (rs_running s)\<rparr>)"

text \<open>Whether a receive from the channel that \<^verbatim>\<open>Done\<close> gives returns: the channel is closed.\<close>

definition Registrar_Done :: "reg_state \<Rightarrow> bool" where
  "Registrar_Done s \<longleftrightarrow> 0 < rs_closed s"

inductive reg_step :: "reg_state \<Rightarrow> reg_state \<Rightarrow> bool" where
  start: "reg_step s (Registrar_Start s)"
| finish: "0 < rs_running s \<Longrightarrow>
     reg_step s (s\<lparr>rs_running := rs_running s - 1, rs_closed := Suc (rs_closed s)\<rparr>)"

inductive reg_reachable :: "reg_state \<Rightarrow> bool" where
  init: "reg_reachable reg_init"
| step: "reg_reachable s \<Longrightarrow> reg_step s t \<Longrightarrow> reg_reachable t"

inductive_cases reg_stepE: "reg_step s t"

definition reg_inv :: "reg_state \<Rightarrow> bool" where
  "reg_inv s \<longleftrightarrow> rs_running s + rs_closed s = (if rs_started s then 1 else 0)"

lemma reg_step_inv: "reg_step s t \<Longrightarrow> reg_inv s \<Longrightarrow> reg_inv t"
  by (erule reg_stepE) (auto simp: reg_inv_def Registrar_Start_def split: if_splits)

lemma reg_reachable_inv: "reg_reachable s \<Longrightarrow> reg_inv s"
proof (induction rule: reg_reachable.induct)
  case init
  then show ?case by (simp add: reg_inv_def reg_init_def)
next
  case (step s t)
  then show ?case by (blast intro: reg_step_inv)
qed

text \<open>The channel is closed only after the one goroutine has ended, and then stays closed.\<close>

lemma done_ended: "reg_reachable s \<Longrightarrow> Registrar_Done s \<Longrightarrow> rs_started s \<and> rs_running s = 0"
  using reg_reachable_inv [of s] by (auto simp: reg_inv_def Registrar_Done_def split: if_splits)

lemma done_stays: "reg_step s t \<Longrightarrow> Registrar_Done s \<Longrightarrow> Registrar_Done t"
  by (erule reg_stepE) (auto simp: Registrar_Done_def Registrar_Start_def)

end
