(* ===== verification/Http_Server.thy ===== *)
theory Http_Server
  imports Server_Gen Registration Config
begin

text \<open>
  The HTTP server, \<^verbatim>\<open>internal/apiserver/server.go\<close>: the error handlers with the scrubbing of
  validation errors, the middlewares, the assembly of the router, the readiness probe and the
  run of the server. The validation against the OpenAPI document (\<^verbatim>\<open>kin-openapi\<close>), the router and
  the parameter binding are parameters.
\<close>

section \<open>Errors of requests\<close>

fun error_chain :: "go_error \<Rightarrow> go_error list" where
  "error_chain (WrapError t err) = WrapError t err # error_chain err"
| "error_chain (UnescapedCookieParamError p err) = UnescapedCookieParamError p err # error_chain err"
| "error_chain (UnmarshalingParamError p err) = UnmarshalingParamError p err # error_chain err"
| "error_chain (RequiredHeaderError p err) = RequiredHeaderError p err # error_chain err"
| "error_chain (InvalidParamFormatError p err) = InvalidParamFormatError p err # error_chain err"
| "error_chain (RequestError p b t err) =
     RequestError p b t err # (case err of None \<Rightarrow> [] | Some err \<Rightarrow> error_chain err)"
| "error_chain err = [err]"

text \<open>\<^verbatim>\<open>errors.As\<close>: the first error of the chain the reader \<open>target\<close> knows.\<close>

definition errors_As :: "(go_error \<Rightarrow> 'a option) \<Rightarrow> go_error \<Rightarrow> 'a option" where
  "errors_As target err = map_option (\<lambda>e. the (target e)) (List.find (\<lambda>e. target e \<noteq> None) (error_chain err))"

fun as_RequestError :: "go_error \<Rightarrow> ((string \<times> string) option \<times> bool \<times> string \<times> go_error option) option" where
  "as_RequestError (RequestError p b t err) = Some (p, b, t, err)"
| "as_RequestError _ = None"

fun as_SchemaError :: "go_error \<Rightarrow> string option" where
  "as_SchemaError (SchemaError reason) = Some reason"
| "as_SchemaError _ = None"

fun as_InvalidParamFormatError :: "go_error \<Rightarrow> string option" where
  "as_InvalidParamFormatError (InvalidParamFormatError p _) = Some p"
| "as_InvalidParamFormatError _ = None"

fun as_RequiredParamError :: "go_error \<Rightarrow> string option" where
  "as_RequiredParamError (RequiredParamError p) = Some p"
| "as_RequiredParamError _ = None"

fun as_RequiredHeaderError :: "go_error \<Rightarrow> string option" where
  "as_RequiredHeaderError (RequiredHeaderError p _) = Some p"
| "as_RequiredHeaderError _ = None"

fun as_UnescapedCookieParamError :: "go_error \<Rightarrow> string option" where
  "as_UnescapedCookieParamError (UnescapedCookieParamError p _) = Some p"
| "as_UnescapedCookieParamError _ = None"

fun as_UnmarshalingParamError :: "go_error \<Rightarrow> string option" where
  "as_UnmarshalingParamError (UnmarshalingParamError p _) = Some p"
| "as_UnmarshalingParamError _ = None"

fun as_TooManyValuesForParamError :: "go_error \<Rightarrow> string option" where
  "as_TooManyValuesForParamError (TooManyValuesForParamError p _) = Some p"
| "as_TooManyValuesForParamError _ = None"

definition scrubValidationError :: "go_error \<Rightarrow> string" where
  "scrubValidationError err =
     (let genericMsg = ''invalid request'' in
      case errors_As as_RequestError err of
        Some (param, hasBody, reason, cause) \<Rightarrow>
          (let prefix = (case param of
                 Some (name, loc) \<Rightarrow> ''parameter '' @ go_quote name @ '' in '' @ loc
               | None \<Rightarrow> if hasBody then ''request body'' else '''');
               described = (\<lambda>text. if prefix \<noteq> '''' then prefix @ '': '' @ text else text)
           in case Option.bind cause (errors_As as_SchemaError) of
                Some schemaReason \<Rightarrow>
                  if schemaReason \<noteq> '''' then described schemaReason
                  else if reason \<noteq> '''' then described reason else genericMsg
              | None \<Rightarrow> if reason \<noteq> '''' then described reason else genericMsg)
      | None \<Rightarrow>
     (case errors_As as_InvalidParamFormatError err of
        Some p \<Rightarrow> ''invalid format for parameter '' @ go_quote p
      | None \<Rightarrow>
     (case errors_As as_RequiredParamError err of
        Some p \<Rightarrow> ''missing required parameter '' @ go_quote p
      | None \<Rightarrow>
     (case errors_As as_RequiredHeaderError err of
        Some p \<Rightarrow> ''missing required header '' @ go_quote p
      | None \<Rightarrow>
     (case errors_As as_UnescapedCookieParamError err of
        Some p \<Rightarrow> ''invalid cookie parameter '' @ go_quote p
      | None \<Rightarrow>
     (case errors_As as_UnmarshalingParamError err of
        Some p \<Rightarrow> ''invalid value for parameter '' @ go_quote p
      | None \<Rightarrow>
     (case errors_As as_TooManyValuesForParamError err of
        Some p \<Rightarrow> ''too many values for parameter '' @ go_quote p
      | None \<Rightarrow> genericMsg)))))))"

text \<open>The request of a handler is never nil here.\<close>

definition requestInstance :: "http_request \<Rightarrow> string option" where
  "requestInstance r = Some (rq_URI r)"

definition newBadRequestHandler :: "go_error \<Rightarrow> 'w http_handler" where
  "newBadRequestHandler err rw r s =
     (Completed, WriteResponse rw 400 INVALIDARGUMENT ''Bad Request'' (scrubValidationError err)
        (requestInstance r), s)"

definition NewRequestErrorHandler :: "go_error \<Rightarrow> 'w http_handler" where
  "NewRequestErrorHandler = newBadRequestHandler"

definition NewResponseErrorHandler :: "go_error \<Rightarrow> 'w http_handler" where
  "NewResponseErrorHandler err rw r s =
     (Completed, WriteResponse rw 500 INTERNAL InternalTitle InternalDetail (requestInstance r), s)"

section \<open>Middlewares\<close>

definition recoveryMiddleware :: "'w middleware" where
  "recoveryMiddleware next_handler rw r s =
     (case next_handler (statusRecordingResponseWriter rw False 200) r s of
        (Completed, sw, s') \<Rightarrow> (Completed, Unwrap sw, s')
      | (Panicked ErrAbortHandler, sw, s') \<Rightarrow> (Panicked ErrAbortHandler, Unwrap sw, s')
      | (Panicked (OtherPanic _), sw, s') \<Rightarrow>
          if wroteHeader sw then (Completed, Unwrap sw, s')
          else (Completed, WriteResponse (Unwrap sw) 500 INTERNAL InternalTitle InternalDetail
                  (requestInstance r), s'))"

text \<open>\<open>now\<close> is the time at which the request is served.\<close>

definition requestTimeoutMiddleware :: "gotime \<Rightarrow> duration \<Rightarrow> 'w middleware" where
  "requestTimeoutMiddleware now timeout next_handler =
     (if timeout \<le> 0 then next_handler
      else (\<lambda>rw r s.
        let deadline = (case rq_Deadline r of
              None \<Rightarrow> now + timeout | Some d \<Rightarrow> min d (now + timeout))
        in next_handler rw (r\<lparr>rq_Deadline := Some deadline\<rparr>) s))"

text \<open>The line is logged after the handler has returned; a panic passes by.\<close>

definition requestLoggingMiddleware :: "'w middleware" where
  "requestLoggingMiddleware next_handler rw r s =
     (case next_handler (statusRecordingResponseWriter rw False 200) r s of
        (Completed, sw, s') \<Rightarrow>
          (Completed, Unwrap sw, s'\<lparr>ss_access_log := ss_access_log s' @
             [(rq_Method r, rq_Path r, recorded_status sw)]\<rparr>)
      | (Panicked p, sw, s') \<Rightarrow> (Panicked p, Unwrap sw, s'))"

text \<open>
  \<open>findRoute\<close> and \<open>validate\<close> are \<^verbatim>\<open>FindRoute\<close> of the router of the OpenAPI document (whether it
  finds one) and \<^verbatim>\<open>ValidateRequest\<close>.
\<close>

record openapi =
  oa_FindRoute :: "http_request \<Rightarrow> bool"
  oa_ValidateRequest :: "http_request \<Rightarrow> go_error option"

definition openAPIValidationMiddleware ::
  "openapi \<Rightarrow> (go_error \<Rightarrow> 'w http_handler) \<Rightarrow> 'w middleware" where
  "openAPIValidationMiddleware specRouter badReq next_handler rw r s =
     (if \<not> oa_FindRoute specRouter r then next_handler rw r s
      else case oa_ValidateRequest specRouter r of
             Some err \<Rightarrow> badReq err rw r s
           | None \<Rightarrow> next_handler rw r s)"

section \<open>Assembly\<close>

text \<open>
  \<open>specRouter\<close> is what \<^verbatim>\<open>GetSwagger\<close> and \<^verbatim>\<open>legacyrouter.NewRouter\<close> give, \<open>None\<close> when one of them
  fails; \<open>postPath\<close> the result of \<^verbatim>\<open>PostPath\<close>.
\<close>

definition emptyIDHandler :: "'w http_handler" where
  "emptyIDHandler rw r s =
     (Completed, WriteResponse rw 400 INVALIDARGUMENT ''Bad Request''
        ''volume_id is required and cannot be empty'' (requestInstance r), s)"

definition New ::
  "(go_error \<Rightarrow> string) \<Rightarrow> param_binder \<Rightarrow> gotime \<Rightarrow> ServerConfig \<Rightarrow> openapi option \<Rightarrow>
     string + string \<Rightarrow> 'w ServerInterface \<Rightarrow> 'w Router" where
  "New lib B now cfg specRouter postPath handler =
     (let badReq = newBadRequestHandler;
          r = Use (requestTimeoutMiddleware now (sc_RequestTimeout cfg))
                (Use requestLoggingMiddleware (Use recoveryMiddleware NewRouter));
          r = (case specRouter of
                 None \<Rightarrow> r
               | Some sr \<Rightarrow> Use (openAPIValidationMiddleware sr badReq) r);
          r = (case postPath of
                 Inl _ \<Rightarrow> r
               | Inr p \<Rightarrow> add_route ''DELETE'' (p @ ''/'') emptyIDHandler
                            (add_route ''GET'' (p @ ''/'') emptyIDHandler r))
      in HandlerWithOptions lib B handler
           \<lparr>cso_BaseURL = '''', cso_BaseRouter = Some r, cso_Middlewares = [],
            cso_ErrorHandlerFunc = Some badReq\<rparr>)"

section \<open>Readiness and the run of the server\<close>

text \<open>
  The \<open>k\<close>-th probe answers with a status or fails; the wait after it ends in one of three ways,
  any one of those that are possible when more than one is.
\<close>

datatype wake = CtxDone | DeadlineFired | TickerFired

datatype ready_result = Ready | BadProbeRequest | ReadyCancelled | ReadyTimedOut

definition readinessProbeTimeout :: duration where
  "readinessProbeTimeout = 5 * Second"

definition readinessProbeInterval :: duration where
  "readinessProbeInterval = 50 * Millisecond"

definition probe_url :: "string \<Rightarrow> string" where
  "probe_url addr = ''http://'' @ addr @ ''/api/v1alpha1/volumes/health''"

text \<open>\<^verbatim>\<open>http.NewRequestWithContext\<close> fails when the URL does not parse.\<close>

definition probe_url_ok :: "string \<Rightarrow> bool" where
  "probe_url_ok addr \<longleftrightarrow> url_Parse (probe_url addr) \<noteq> None"

text \<open>
  What the server's surroundings do: the probes and waits, what the first \<^verbatim>\<open>select\<close> of \<^verbatim>\<open>Run\<close> sees (\<open>None\<close>: the context; else the end of \<^verbatim>\<open>Serve\<close>
  with its error), whether \<^verbatim>\<open>Shutdown\<close> fails.
\<close>

record run_env =
  re_probe :: "nat \<Rightarrow> string + int"
  re_wake :: "nat \<Rightarrow> wake"
  re_select :: "string option option"
  re_shutdown :: "string option"

fun waitForReady :: "nat \<Rightarrow> run_env \<Rightarrow> string \<Rightarrow> nat \<Rightarrow> ready_result option" where
  "waitForReady 0 env addr k = None"
| "waitForReady (Suc fuel) env addr k =
     (if \<not> probe_url_ok addr then Some BadProbeRequest
      else if (case re_probe env k of Inr code \<Rightarrow> code = 200 | Inl _ \<Rightarrow> False) then Some Ready
      else case re_wake env k of
             CtxDone \<Rightarrow> Some ReadyCancelled
           | DeadlineFired \<Rightarrow> Some ReadyTimedOut
           | TickerFired \<Rightarrow> waitForReady fuel env addr (Suc k))"

text \<open>
  \<open>srv_onReady\<close> is whether a callback is set, with how it ends. The trace of a run shows when the
  server began to serve, called the callback and shut down.
\<close>

record Server =
  srv_cfg :: ServerConfig
  srv_onReady :: "outcome option"

definition WithOnReady :: "outcome \<Rightarrow> Server \<Rightarrow> Server" where
  "WithOnReady f srv = srv\<lparr>srv_onReady := Some f\<rparr>"

datatype server_event = Serving | CalledOnReady | ShutDown duration

definition Run :: "nat \<Rightarrow> Server \<Rightarrow> run_env \<Rightarrow> string \<Rightarrow> (string option \<times> server_event list) option" where
  "Run fuel srv env addr =
     (let finish = (\<lambda>trace.
            case re_select env of
              Some (Some err) \<Rightarrow> (Some (''serving on '' @ addr @ '': '' @ err), trace)
            | _ \<Rightarrow>
                (case re_shutdown env of
                   Some err \<Rightarrow> Some (''shutting down server: '' @ err)
                 | None \<Rightarrow> None,
                 trace @ [ShutDown (sc_ShutdownTimeout (srv_cfg srv))]))
      in case srv_onReady srv of
           None \<Rightarrow> Some (finish [Serving])
         | Some _ \<Rightarrow>
             (case waitForReady fuel env addr 0 of
                None \<Rightarrow> None
              | Some Ready \<Rightarrow> Some (finish [Serving, CalledOnReady])
              | Some _ \<Rightarrow> Some (finish [Serving])))"

text \<open>
  The first probe that finds the server ready, the context cancelled or the deadline passed ends
  the wait.
\<close>

definition probe_ends :: "run_env \<Rightarrow> nat \<Rightarrow> bool" where
  "probe_ends env k \<longleftrightarrow> re_probe env k = Inr 200 \<or> re_wake env k \<noteq> TickerFired"

definition probe_result :: "run_env \<Rightarrow> nat \<Rightarrow> ready_result" where
  "probe_result env k =
     (if re_probe env k = Inr 200 then Ready
      else case re_wake env k of CtxDone \<Rightarrow> ReadyCancelled | _ \<Rightarrow> ReadyTimedOut)"

lemma probe_200 [simp]:
  "(case re_probe env k of Inr code \<Rightarrow> code = 200 | Inl _ \<Rightarrow> False) \<longleftrightarrow> re_probe env k = Inr 200"
  by (cases "re_probe env k") simp_all

lemma waitForReady_ends:
  assumes "probe_url_ok addr" and "\<And>j. k \<le> j \<Longrightarrow> j < k + d \<Longrightarrow> \<not> probe_ends env j"
    and "probe_ends env (k + d)" and "d < fuel"
  shows "waitForReady fuel env addr k = Some (probe_result env (k + d))"
  using assms(2-4)
proof (induction d arbitrary: k fuel)
  case 0
  then obtain f where "fuel = Suc f" by (cases fuel) auto
  with 0 assms(1) show ?case by (auto simp: probe_ends_def probe_result_def split: wake.splits)
next
  case (Suc d)
  then obtain f where f: "fuel = Suc f" by (cases fuel) auto
  have "\<not> probe_ends env k" using Suc.prems(1) [of k] by simp
  moreover have "waitForReady f env addr (Suc k) = Some (probe_result env (Suc k + d))"
    using Suc.prems f by (intro Suc.IH) auto
  ultimately show ?case using assms(1) f by (simp add: probe_ends_def)
qed

lemma waitForReady_polls:
  assumes "\<And>j. \<not> probe_ends env j" and "probe_url_ok addr"
  shows "waitForReady fuel env addr k = None"
proof (induction fuel arbitrary: k)
  case 0
  then show ?case by simp
next
  case (Suc fuel)
  then show ?case using assms(1) [of k] assms(2) by (simp add: probe_ends_def)
qed

lemma first_probe:
  assumes "probe_ends env n"
  obtains d where "d \<le> n" "probe_ends env d" "\<And>j. j < d \<Longrightarrow> \<not> probe_ends env j"
  using assms by (metis LeastI Least_le not_less_Least)

lemma waitForReady_total:
  assumes "probe_ends env n" and "n < fuel"
  shows "waitForReady fuel env addr 0 \<noteq> None"
proof (cases "probe_url_ok addr")
  case True
  obtain d where "d \<le> n" "probe_ends env d" "\<And>j. j < d \<Longrightarrow> \<not> probe_ends env j"
    using first_probe [OF assms(1)] by blast
  then show ?thesis using waitForReady_ends [OF True, of 0 d env fuel] assms(2) by simp
next
  case False
  then show ?thesis using assms(2) by (cases fuel) simp_all
qed

lemma waitForReady_Ready:
  "waitForReady fuel env addr k = Some Ready \<longleftrightarrow>
   probe_url_ok addr \<and>
   (\<exists>d < fuel. re_probe env (k + d) = Inr 200 \<and> (\<forall>j < d. \<not> probe_ends env (k + j)))"
proof (induction fuel arbitrary: k)
  case 0
  then show ?case by simp
next
  case (Suc fuel)
  show ?case
  proof (cases "probe_url_ok addr \<and> \<not> probe_ends env k")
    case True
    have "(\<exists>d < Suc fuel. re_probe env (k + d) = Inr 200 \<and> (\<forall>j < d. \<not> probe_ends env (k + j))) \<longleftrightarrow>
        (\<exists>d < fuel. re_probe env (k + Suc d) = Inr 200 \<and> (\<forall>j < Suc d. \<not> probe_ends env (k + j)))"
      using True by (auto simp: Ex_less_Suc2 probe_ends_def)
    also have "\<dots> \<longleftrightarrow>
        (\<exists>d < fuel. re_probe env (Suc k + d) = Inr 200 \<and> (\<forall>j < d. \<not> probe_ends env (Suc k + j)))"
      using True by (simp add: All_less_Suc2)
    finally show ?thesis using Suc.IH [of "Suc k"] True by (simp add: probe_ends_def)
  next
    case False
    then have "probe_url_ok addr \<Longrightarrow>
        (\<exists>d < Suc fuel. re_probe env (k + d) = Inr 200 \<and> (\<forall>j < d. \<not> probe_ends env (k + j))) \<longleftrightarrow>
        re_probe env k = Inr 200"
      by (auto simp: Ex_less_Suc2 All_less_Suc2 probe_ends_def)
    then show ?thesis using False by (auto simp: probe_ends_def split: wake.splits)
  qed
qed

section \<open>Scrubbing\<close>

text \<open>
  An error without the texts of its causes: what remains are the types of the chain, the names
  of parameters, and the reasons the OpenAPI library gives.
\<close>

fun hide :: "go_error \<Rightarrow> go_error" where
  "hide (PlainError _) = PlainError ''''"
| "hide (WrapError _ err) = WrapError '''' (hide err)"
| "hide (UnescapedCookieParamError p err) = UnescapedCookieParamError p (hide err)"
| "hide (UnmarshalingParamError p err) = UnmarshalingParamError p (hide err)"
| "hide (RequiredParamError p) = RequiredParamError p"
| "hide (RequiredHeaderError p err) = RequiredHeaderError p (hide err)"
| "hide (InvalidParamFormatError p err) = InvalidParamFormatError p (hide err)"
| "hide (TooManyValuesForParamError p count) = TooManyValuesForParamError p 0"
| "hide (RequestError p b t err) =
     RequestError p b t (case err of None \<Rightarrow> None | Some err \<Rightarrow> Some (hide err))"
| "hide (SchemaError reason) = SchemaError reason"

lemma error_chain_hide: "error_chain (hide err) = map hide (error_chain err)"
  by (induction err rule: error_chain.induct) (auto split: option.splits)

lemma find_map: "List.find P (map f xs) = map_option f (List.find (\<lambda>x. P (f x)) xs)"
  by (induction xs) auto

lemma errors_As_hide:
  assumes "\<And>e. target (hide e) = map_option g (target e)"
  shows "errors_As target (hide err) = map_option g (errors_As target err)"
proof -
  have none: "(target (hide e) \<noteq> None) = (target e \<noteq> None)" for e by (simp add: assms)
  show ?thesis
  proof (cases "List.find (\<lambda>e. target e \<noteq> None) (error_chain err)")
    case None
    then show ?thesis by (simp add: errors_As_def error_chain_hide find_map none del: not_None_eq)
  next
    case (Some e)
    then have "target e \<noteq> None" by (auto simp: find_Some_iff)
    then show ?thesis using Some
      by (auto simp: errors_As_def error_chain_hide find_map none assms simp del: not_None_eq)
  qed
qed

lemma as_hide:
  "as_SchemaError (hide e) = as_SchemaError e"
  "as_InvalidParamFormatError (hide e) = as_InvalidParamFormatError e"
  "as_RequiredParamError (hide e) = as_RequiredParamError e"
  "as_RequiredHeaderError (hide e) = as_RequiredHeaderError e"
  "as_UnescapedCookieParamError (hide e) = as_UnescapedCookieParamError e"
  "as_UnmarshalingParamError (hide e) = as_UnmarshalingParamError e"
  "as_TooManyValuesForParamError (hide e) = as_TooManyValuesForParamError e"
  "as_RequestError (hide e) = map_option (\<lambda>(p, b, t, c). (p, b, t, map_option hide c)) (as_RequestError e)"
  by (cases e; simp add: map_option_case)+

lemma errors_As_same:
  "(\<And>e. target (hide e) = target e) \<Longrightarrow> errors_As target (hide err) = errors_As target err"
  using errors_As_hide [of target "\<lambda>x. x"] by (simp add: option.map_ident)

lemma scrub_hide: "scrubValidationError (hide err) = scrubValidationError err"
proof -
  note same = errors_As_same [of as_SchemaError, OF as_hide(1)]
    errors_As_same [of as_InvalidParamFormatError, OF as_hide(2)]
    errors_As_same [of as_RequiredParamError, OF as_hide(3)]
    errors_As_same [of as_RequiredHeaderError, OF as_hide(4)]
    errors_As_same [of as_UnescapedCookieParamError, OF as_hide(5)]
    errors_As_same [of as_UnmarshalingParamError, OF as_hide(6)]
    errors_As_same [of as_TooManyValuesForParamError, OF as_hide(7)]
  have cause: "Option.bind (map_option hide c) (errors_As as_SchemaError) =
      Option.bind c (errors_As as_SchemaError)" for c
    by (cases c) (simp_all add: same)
  show ?thesis
    unfolding scrubValidationError_def same errors_As_hide [of as_RequestError, OF as_hide(8)]
    by (cases "errors_As as_RequestError err") (auto simp: cause Let_def split: prod.splits)
qed

section \<open>What a middleware or handler answers\<close>

text \<open>
  \<open>replies good h\<close>: on a connection on which nothing was sent yet, \<open>h\<close> calls the writer's methods
  only, and either returns after a \<open>good\<close> answer or panics, not to abort, before it sent anything.
\<close>

definition fresh :: "response_writer \<Rightarrow> bool" where
  "fresh rw \<longleftrightarrow> wr_sent (the_wire rw) = None \<and> wr_body (the_wire rw) = [] \<and>
     wr_limit (the_wire rw) = None \<and> recording rw"

definition replies :: "(wire \<Rightarrow> bool) \<Rightarrow> 'w http_handler \<Rightarrow> bool" where
  "replies good h \<longleftrightarrow>
     (\<forall>rw r s out rw' s'. fresh rw \<longrightarrow> h rw r s = (out, rw', s') \<longrightarrow>
        rw_calls rw rw' \<and>
        (case out of Completed \<Rightarrow> good (the_wire rw')
         | Panicked p \<Rightarrow> p \<noteq> ErrAbortHandler \<and> wr_sent (the_wire rw') = None))"

lemma repliesI:
  assumes "\<And>rw r s out rw' s'. fresh rw \<Longrightarrow> h rw r s = (out, rw', s') \<Longrightarrow>
    rw_calls rw rw' \<and> (case out of Completed \<Rightarrow> good (the_wire rw')
      | Panicked p \<Rightarrow> p \<noteq> ErrAbortHandler \<and> wr_sent (the_wire rw') = None)"
  shows "replies good h"
  unfolding replies_def using assms by blast

lemma replies_apply:
  assumes "replies good h" and "fresh rw" and "h rw r s = (out, rw', s')"
  shows "rw_calls rw rw' \<and> (case out of Completed \<Rightarrow> good (the_wire rw')
    | Panicked p \<Rightarrow> p \<noteq> ErrAbortHandler \<and> wr_sent (the_wire rw') = None)"
  using assms unfolding replies_def by blast

lemma repliesD:
  assumes "replies good h" and "fresh rw" and "h rw r s = (out, rw', s')"
  shows "rw_calls rw rw'"
    and "out = Completed \<Longrightarrow> good (the_wire rw')"
    and "out = Panicked p \<Longrightarrow> p \<noteq> ErrAbortHandler \<and> wr_sent (the_wire rw') = None"
  using replies_apply [OF assms] by auto

lemma replies_WriteResponse:
  assumes "\<And>rw r s. h rw r s = (Completed, WriteResponse rw code t title detail (requestInstance r), s)"
    and "code \<noteq> 204" and "code \<noteq> 304"
    and "\<And>r w. answered code ''application/problem+json''
       (Marshal_Error (problem_doc code t title detail (requestInstance r))) w \<Longrightarrow> good w"
  shows "replies good h"
proof (rule repliesI)
  fix rw r s out rw' s'
  assume f: "fresh rw" and "h rw r s = (out, rw', s')"
  then have "out = Completed" "rw' = WriteResponse rw code t title detail (requestInstance r)"
    by (simp_all add: assms(1))
  moreover have "answered code ''application/problem+json''
      (Marshal_Error (problem_doc code t title detail (requestInstance r)))
      (the_wire (WriteResponse rw code t title detail (requestInstance r)))"
    using f assms(2,3) by (intro WriteResponse_answered) (simp_all add: fresh_def)
  ultimately show "rw_calls rw rw' \<and> (case out of Completed \<Rightarrow> good (the_wire rw')
      | Panicked p \<Rightarrow> p \<noteq> ErrAbortHandler \<and> wr_sent (the_wire rw') = None)"
    using assms(4) by (simp add: WriteResponse_calls)
qed

lemma fresh_wrapped: "fresh rw \<Longrightarrow> fresh (statusRecordingResponseWriter rw False 200)"
  by (simp add: fresh_def)

lemma fresh_unsent:
  assumes "fresh rw" and "rw_calls rw rw'" and "wr_sent (the_wire rw') = None"
  shows "fresh rw'"
  using assms unsent_body [OF assms(2,3)] recording_calls [OF assms(2)] by (simp add: fresh_def)

lemma unwrap_calls:
  assumes "rw_calls (statusRecordingResponseWriter rw wrote status) sw"
  shows "rw_calls rw (Unwrap sw)" and "the_wire (Unwrap sw) = the_wire sw"
    and "recording (statusRecordingResponseWriter rw wrote status) \<Longrightarrow>
      wroteHeader sw \<longleftrightarrow> wr_sent (the_wire sw) \<noteq> None"
proof -
  from assms obtain rw' wrote' status' where sw: "sw = statusRecordingResponseWriter rw' wrote' status'"
    and c: "rw_calls rw rw'" by (rule rw_calls_wrapped)
  from c sw show "rw_calls rw (Unwrap sw)" "the_wire (Unwrap sw) = the_wire sw" by simp_all
  assume "recording (statusRecordingResponseWriter rw wrote status)"
  then have "recording sw" by (rule recording_calls [OF assms])
  with sw show "wroteHeader sw \<longleftrightarrow> wr_sent (the_wire sw) \<noteq> None" by simp
qed

lemma replies_logging:
  assumes "replies good h"
  shows "replies good (requestLoggingMiddleware h)"
proof (rule repliesI)
  fix rw r s out rw' s'
  assume f: "fresh rw" and eq: "requestLoggingMiddleware h rw r s = (out, rw', s')"
  obtain out1 sw s1 where h: "h (statusRecordingResponseWriter rw False 200) r s = (out1, sw, s1)"
    by (metis prod_cases3)
  note d = repliesD [OF assms fresh_wrapped [OF f] h]
  have "out = out1" "rw' = Unwrap sw"
    using eq h by (auto simp: requestLoggingMiddleware_def split: outcome.splits)
  then show "rw_calls rw rw' \<and> (case out of Completed \<Rightarrow> good (the_wire rw')
      | Panicked p \<Rightarrow> p \<noteq> ErrAbortHandler \<and> wr_sent (the_wire rw') = None)"
    using d unwrap_calls [OF d(1)] by (auto split: outcome.splits)
qed

lemma replies_recovery:
  assumes "replies good h" and
    "\<And>r w. answered 500 ''application/problem+json''
       (Marshal_Error (problem_doc 500 INTERNAL InternalTitle InternalDetail (requestInstance r))) w \<Longrightarrow>
       good w"
  shows "fresh rw \<Longrightarrow> \<exists>rw' s'. recoveryMiddleware h rw r s = (Completed, rw', s') \<and> rw_calls rw rw' \<and>
    good (the_wire rw')"
proof -
  assume f: "fresh rw"
  obtain out sw s1 where h: "h (statusRecordingResponseWriter rw False 200) r s = (out, sw, s1)"
    by (metis prod_cases3)
  note d = repliesD [OF assms(1) fresh_wrapped [OF f] h]
  note u = unwrap_calls [OF d(1)]
  show ?thesis
  proof (cases out)
    case Completed
    then show ?thesis using h d u by (simp add: recoveryMiddleware_def)
  next
    case (Panicked p)
    with d(3) obtain m where p: "p = OtherPanic m" "wr_sent (the_wire sw) = None" by (cases p) auto
    have fu: "fresh (Unwrap sw)" using fresh_unsent [OF f u(1)] p u by simp
    have "\<not> wroteHeader sw" using u(3) fresh_wrapped [OF f] p by (simp add: fresh_def)
    moreover have "good (the_wire (WriteResponse (Unwrap sw) 500 INTERNAL InternalTitle InternalDetail
        (requestInstance r)))"
      using fu by (intro assms(2) [of r] WriteResponse_answered) (simp_all add: fresh_def)
    ultimately show ?thesis using h p Panicked rw_calls_trans [OF WriteResponse_calls u(1)]
      by (simp add: recoveryMiddleware_def)
  qed
qed

lemma replies_validation:
  assumes "replies good h" and "\<And>err. replies good (badReq err)"
  shows "replies good (openAPIValidationMiddleware sr badReq h)"
proof (rule repliesI)
  fix rw r s out rw' s'
  assume f: "fresh rw" and eq: "openAPIValidationMiddleware sr badReq h rw r s = (out, rw', s')"
  then have "h rw r s = (out, rw', s') \<or> (\<exists>err. badReq err rw r s = (out, rw', s'))"
    by (auto simp: openAPIValidationMiddleware_def split: if_splits option.splits)
  then show "rw_calls rw rw' \<and> (case out of Completed \<Rightarrow> good (the_wire rw')
      | Panicked p \<Rightarrow> p \<noteq> ErrAbortHandler \<and> wr_sent (the_wire rw') = None)"
    using replies_apply [OF assms(1) f] replies_apply [OF assms(2) f] by blast
qed

lemma replies_timeout:
  assumes "replies good h"
  shows "replies good (requestTimeoutMiddleware now timeout h)"
  using assms unfolding replies_def requestTimeoutMiddleware_def by (simp add: Let_def)

text \<open>
  Recovery: a panic to abort is passed on, one after the status line leaves the answer as it is,
  any other is answered as an internal error.
\<close>

lemma recovery_panics:
  assumes "uses_writer h" and "fresh rw"
    and "h (statusRecordingResponseWriter rw False 200) r s = (Panicked p, sw, s')"
  shows "recoveryMiddleware h rw r s =
      (if p = ErrAbortHandler then Panicked ErrAbortHandler else Completed,
       fst (snd (recoveryMiddleware h rw r s)), s')"
    and "if p \<noteq> ErrAbortHandler \<and> wr_sent (the_wire sw) = None
      then answered 500 ''application/problem+json''
        (Marshal_Error (problem_doc 500 INTERNAL InternalTitle InternalDetail (Some (rq_URI r))))
        (the_wire (fst (snd (recoveryMiddleware h rw r s))))
      else the_wire (fst (snd (recoveryMiddleware h rw r s))) = the_wire sw"
proof -
  note calls = uses_writerD [OF assms(1,3)]
  note u = unwrap_calls [OF calls]
  have w: "wroteHeader sw \<longleftrightarrow> wr_sent (the_wire sw) \<noteq> None"
    using u(3) fresh_wrapped [OF assms(2)] by (simp add: fresh_def)
  show "recoveryMiddleware h rw r s =
      (if p = ErrAbortHandler then Panicked ErrAbortHandler else Completed,
       fst (snd (recoveryMiddleware h rw r s)), s')"
    using assms(3) by (cases p) (simp_all add: recoveryMiddleware_def)
  show "if p \<noteq> ErrAbortHandler \<and> wr_sent (the_wire sw) = None
      then answered 500 ''application/problem+json''
        (Marshal_Error (problem_doc 500 INTERNAL InternalTitle InternalDetail (Some (rq_URI r))))
        (the_wire (fst (snd (recoveryMiddleware h rw r s))))
      else the_wire (fst (snd (recoveryMiddleware h rw r s))) = the_wire sw"
  proof (cases "p \<noteq> ErrAbortHandler \<and> wr_sent (the_wire sw) = None")
    case True
    then have "fresh (Unwrap sw)" using fresh_unsent [OF assms(2) u(1)] u(2) by simp
    then have "answered 500 ''application/problem+json''
        (Marshal_Error (problem_doc 500 INTERNAL InternalTitle InternalDetail (Some (rq_URI r))))
        (the_wire (WriteResponse (Unwrap sw) 500 INTERNAL InternalTitle InternalDetail (Some (rq_URI r))))"
      by (intro WriteResponse_answered) (simp_all add: fresh_def)
    then show ?thesis using True w assms(3)
      by (cases p) (simp_all add: recoveryMiddleware_def requestInstance_def)
  next
    case False
    then show ?thesis using w u(2) assms(3) by (cases p) (auto simp: recoveryMiddleware_def)
  qed
qed

text \<open>The run of the server, with an end of the wait for readiness in reach.\<close>

definition ready_by :: "run_env \<Rightarrow> string \<Rightarrow> nat \<Rightarrow> bool" where
  "ready_by env addr fuel \<longleftrightarrow> probe_url_ok addr \<and>
     (\<exists>k < fuel. re_probe env k = Inr 200 \<and>
        (\<forall>j < k. re_probe env j \<noteq> Inr 200 \<and> re_wake env j = TickerFired))"

lemma ready_by_iff: "waitForReady fuel env addr 0 = Some Ready \<longleftrightarrow> ready_by env addr fuel"
  by (simp add: waitForReady_Ready ready_by_def probe_ends_def)

lemma Run_trace:
  assumes "probe_ends env n" and "n < fuel"
  shows "Run fuel srv env addr =
    Some (case re_select env of
        Some (Some err) \<Rightarrow> Some (''serving on '' @ addr @ '': '' @ err)
      | _ \<Rightarrow> map_option (\<lambda>err. ''shutting down server: '' @ err) (re_shutdown env),
      [Serving] @
      (if srv_onReady srv \<noteq> None \<and> ready_by env addr fuel then [CalledOnReady] else []) @
      (case re_select env of
        Some (Some _) \<Rightarrow> [] | _ \<Rightarrow> [ShutDown (sc_ShutdownTimeout (srv_cfg srv))]))"
proof -
  obtain res where res: "waitForReady fuel env addr 0 = Some res"
    using waitForReady_total [OF assms] by auto
  have "ready_by env addr fuel \<longleftrightarrow> res = Ready"
    using res by (simp add: ready_by_iff [symmetric])
  then show ?thesis
    using res unfolding Run_def Let_def
    by (cases "srv_onReady srv"; cases res; cases "re_select env"; cases "the (re_select env)")
      (auto split: option.splits)
qed

end
