(* ===== verification/Http_Api.thy ===== *)
theory Http_Api
  imports Http_Server
begin

text \<open>
  The server that \<^verbatim>\<open>main\<close> assembles: the composite handler behind the strict handler, the routes and
  the middlewares. Which answers it can give, and that a response of a handler reaches the client
  as it is.
\<close>

section \<open>The interfaces of the router and the parameter binding\<close>

definition is_static :: "string \<Rightarrow> bool" where
  "is_static pat \<longleftrightarrow> CHR ''{'' \<notin> set pat"

text \<open>
  What the documentation of \<^verbatim>\<open>chi\<close> promises: a pattern without parameters matches its own path, a
  parameter at the end of a pattern matches the last segment of a path that is no static
  pattern, and the handlers for other requests answer with status 404 or 405.
\<close>

locale chi_router =
  fixes C :: chi_mux
  assumes found: "chi_find C routes meth path = RouteFound i params \<Longrightarrow>
      i < length routes \<and> fst (routes ! i) = meth"
    and static_route: "distinct routes \<Longrightarrow> i < length routes \<Longrightarrow> routes ! i = (meth, path) \<Longrightarrow>
      is_static path \<Longrightarrow> chi_find C routes meth path = RouteFound i []"
    and param_route: "distinct routes \<Longrightarrow> i < length routes \<Longrightarrow>
      routes ! i = (meth, pre @ ''{'' @ name @ ''}'') \<Longrightarrow> is_static pre \<Longrightarrow> is_static name \<Longrightarrow>
      CHR ''}'' \<notin> set name \<Longrightarrow> seg \<noteq> [] \<Longrightarrow> CHR ''/'' \<notin> set seg \<Longrightarrow>
      (\<And>m p. (m, p) \<in> set routes \<Longrightarrow> if is_static p then p \<noteq> pre @ seg else p = pre @ ''{'' @ name @ ''}'') \<Longrightarrow>
      chi_find C routes meth (pre @ seg) = RouteFound i [(name, seg)]"
    and NotFound_calls: "rw_calls rw (chi_NotFound C rw)"
    and NotFound_status: "wr_sent (the_wire rw) = None \<Longrightarrow>
      \<exists>h. wr_sent (the_wire (chi_NotFound C rw)) = Some (404, h)"
    and MethodNotAllowed_calls: "rw_calls rw (chi_MethodNotAllowed C rw)"
    and MethodNotAllowed_status: "wr_sent (the_wire rw) = None \<Longrightarrow>
      \<exists>h. wr_sent (the_wire (chi_MethodNotAllowed C rw)) = Some (405, h)"

text \<open>
  The binding of parameters: an absent query parameter is nil, one that occurs once has its
  value, a path segment without escapes is itself.
\<close>

locale param_binding =
  fixes B :: param_binder
  assumes int32_absent: "k \<notin> fst ` set q \<Longrightarrow> bind_int32 B k q = Inr None"
    and int32_once: "filter (\<lambda>(k', _). k' = k) q = [(k, show_int (sint n))] \<Longrightarrow>
      bind_int32 B k q = Inr (Some n)"
    and string_absent: "k \<notin> fst ` set q \<Longrightarrow> bind_string B k q = Inr None"
    and string_once: "filter (\<lambda>(k', _). k' = k) q = [(k, v)] \<Longrightarrow> bind_string B k q = Inr (Some v)"
    and path_plain: "v \<noteq> [] \<Longrightarrow> CHR ''%'' \<notin> set v \<Longrightarrow> bind_path B k v = Inr v"

section \<open>The strict interface of the program\<close>

definition composite_ssi :: "('w, 'e) CompositeHandler \<Rightarrow> gotime \<Rightarrow> 'w StrictServerInterface" where
  "composite_ssi h now req w =
     (case composite_handle h now req w of
        (Inl err, w') \<Rightarrow> (StrictReturn (Inl err), w')
      | (Inr resp, w') \<Rightarrow> (StrictReturn (Inr (Some resp)), w'))"

text \<open>
  An implementation of the strict interface that answers every request with a well-formed
  response or an error, or panics (not to abort).
\<close>

definition well_behaved :: "'w StrictServerInterface \<Rightarrow> bool" where
  "well_behaved ssi \<longleftrightarrow>
     (\<forall>req w. case fst (ssi req w) of
        StrictReturn (Inl _) \<Rightarrow> True
      | StrictReturn (Inr None) \<Rightarrow> False
      | StrictReturn (Inr (Some resp)) \<Rightarrow> problem_ok resp
      | StrictPanic p \<Rightarrow> p \<noteq> ErrAbortHandler)"

definition api_options :: "'w StrictHTTPServerOptions" where
  "api_options = \<lparr>sho_RequestErrorHandlerFunc = NewRequestErrorHandler,
                  sho_ResponseErrorHandlerFunc = NewResponseErrorHandler\<rparr>"

definition api_router where
  "api_router lib B T now cfg specRouter postPath ssi =
     New lib B now cfg specRouter postPath (NewStrictHandlerWithOptions T ssi [] api_options)"

section \<open>Answers\<close>

definition problem_answer :: "wire \<Rightarrow> bool" where
  "problem_answer w \<longleftrightarrow>
     (\<exists>e code. answered (sint code) ''application/problem+json'' (Marshal_Error e) w \<and>
        err_Status e = Some code \<and> (err_Type e, code) \<in> set error_table \<and> err_Instance e \<noteq> None \<and>
        (err_Type e = INTERNAL \<longrightarrow> err_Title e = InternalTitle \<and> err_Detail e = Some InternalDetail))"

definition success_answer :: "wire \<Rightarrow> bool" where
  "success_answer w \<longleftrightarrow>
     (\<exists>code doc. code \<in> {200, 201} \<and> answered code ''application/json'' doc w) \<or>
     (\<exists>h. wr_sent w = Some (204, h) \<and> wr_body w = [])"

definition default_answer :: "wire \<Rightarrow> bool" where
  "default_answer w \<longleftrightarrow> (\<exists>code h. wr_sent w = Some (code, h) \<and> code \<in> {404, 405})"

definition api_answer :: "wire \<Rightarrow> bool" where
  "api_answer w \<longleftrightarrow> problem_answer w \<or> success_answer w \<or> default_answer w"

lemma problem_answer_400:
  assumes "answered 400 ''application/problem+json''
      (Marshal_Error (problem_doc 400 INVALIDARGUMENT title detail (Some inst))) w"
  shows "api_answer w"
proof -
  have "sint (400 :: int32) = 400" by simp
  then have "problem_answer w" unfolding problem_answer_def using assms
    by (intro exI [of _ "problem_doc 400 INVALIDARGUMENT title detail (Some inst)"] exI [of _ 400])
      (simp add: problem_doc_def error_table_def)
  then show ?thesis by (simp add: api_answer_def)
qed

lemma problem_answer_500:
  assumes "answered 500 ''application/problem+json''
      (Marshal_Error (problem_doc 500 INTERNAL InternalTitle InternalDetail (requestInstance r))) w"
  shows "api_answer w"
proof -
  have "sint (500 :: int32) = 500" by simp
  then have "problem_answer w" unfolding problem_answer_def using assms
    by (intro exI [of _ "problem_doc 500 INTERNAL InternalTitle InternalDetail (requestInstance r)"]
        exI [of _ 500])
      (simp add: problem_doc_def error_table_def requestInstance_def)
  then show ?thesis by (simp add: api_answer_def)
qed

lemma replies_badRequest: "replies api_answer (newBadRequestHandler err)"
  by (rule replies_WriteResponse [OF newBadRequestHandler_def])
    (auto simp: requestInstance_def intro: problem_answer_400)

lemma replies_emptyID: "replies api_answer emptyIDHandler"
  by (rule replies_WriteResponse [OF emptyIDHandler_def])
    (auto simp: requestInstance_def intro: problem_answer_400)

lemma replies_responseError: "replies api_answer (NewResponseErrorHandler err)"
  by (rule replies_WriteResponse [OF NewResponseErrorHandler_def]) (auto intro: problem_answer_500)

section \<open>Responses on the wire\<close>

text \<open>
  The document of a response (none for 204; a volume's can fail to be encoded), and a response
  as the client receives it.
\<close>

fun response_doc :: "time_text \<Rightarrow> strict_response \<Rightarrow> json_value option" where
  "response_doc T (RespGetHealth (GetHealth200 h)) = Some (Marshal_Health h)"
| "response_doc T (RespListVolumes (ListVolumes200 l)) = Marshal_VolumeList T l"
| "response_doc T (RespCreateVolume (CreateVolume201 v)) = Marshal_Volume T v"
| "response_doc T (RespGetVolume (GetVolume200 v)) = Marshal_Volume T v"
| "response_doc T resp = map_option Marshal_Error (response_problem resp)"

definition delivered :: "time_text \<Rightarrow> strict_response \<Rightarrow> wire \<Rightarrow> bool" where
  "delivered T resp w \<longleftrightarrow>
     (if resp = RespDeleteVolume DeleteVolume204
      then (\<exists>h. wr_sent w = Some (204, h)) \<and> wr_body w = []
      else \<exists>doc. response_doc T resp = Some doc \<and>
        answered (sint (response_status resp))
          (if response_problem resp = None then ''application/json'' else ''application/problem+json'') doc w)"

text \<open>The visitor the strict handlers find for a response.\<close>

fun visit_response :: "time_text \<Rightarrow> strict_response \<Rightarrow> response_writer \<Rightarrow> string option \<times> response_writer"
where
  "visit_response T (RespGetHealth x) = VisitGetHealthResponse x"
| "visit_response T (RespListVolumes x) = VisitListVolumesResponse T x"
| "visit_response T (RespCreateVolume x) = VisitCreateVolumeResponse T x"
| "visit_response T (RespGetVolume x) = VisitGetVolumeResponse T x"
| "visit_response T (RespDeleteVolume x) = VisitDeleteVolumeResponse x"

definition encodable :: "time_text \<Rightarrow> strict_response \<Rightarrow> bool" where
  "encodable T resp \<longleftrightarrow> resp = RespDeleteVolume DeleteVolume204 \<or> response_doc T resp \<noteq> None"

lemma visit_json_fresh:
  assumes "fresh rw" and "code \<notin> {204, 304}"
  shows "visit_json code ctype (Some doc) rw = (None, snd (visit_json code ctype (Some doc) rw))"
    and "rw_calls rw (snd (visit_json code ctype (Some doc) rw))"
    and "answered code ctype doc (the_wire (snd (visit_json code ctype (Some doc) rw)))"
proof -
  let ?rw = "WriteHeader code (Header_Set ''Content-Type'' ctype rw)"
  have w: "fst (Write (JsonDoc doc) ?rw)"
    "answered code ctype doc (the_wire (snd (Write (JsonDoc doc) ?rw)))"
    using assms by (auto simp: fresh_def wire_Write_def wire_WriteHeader_def body_allowed_def answered_def)
  moreover have "rw_calls rw (snd (Write (JsonDoc doc) ?rw))" by (intro rw_calls.intros)
  ultimately show "visit_json code ctype (Some doc) rw = (None, snd (visit_json code ctype (Some doc) rw))"
    "rw_calls rw (snd (visit_json code ctype (Some doc) rw))"
    "answered code ctype doc (the_wire (snd (visit_json code ctype (Some doc) rw)))"
    by (cases "Write (JsonDoc doc) ?rw"; simp add: visit_json_def)+
qed

lemma visit_response_json:
  assumes "resp \<noteq> RespDeleteVolume DeleteVolume204"
  shows "visit_response T resp = visit_json (sint (response_status resp))
    (if response_problem resp = None then ''application/json'' else ''application/problem+json'')
    (response_doc T resp)"
  using assms
  by (cases resp rule: response_status.cases) (auto simp: fun_eq_iff visit_ok_def visit_problem_def)

lemma response_status_body: "resp \<noteq> RespDeleteVolume DeleteVolume204 \<Longrightarrow>
    sint (response_status resp) \<notin> {204, 304}"
  by (cases resp rule: response_status.cases) auto

lemma visit_response_fresh:
  assumes "fresh rw" and "encodable T resp"
  obtains rw' where "visit_response T resp rw = (None, rw')" "rw_calls rw rw'" "delivered T resp (the_wire rw')"
proof (cases "resp = RespDeleteVolume DeleteVolume204")
  case True
  have "rw_calls rw (WriteHeader 204 rw)" by (intro rw_calls.intros)
  moreover have "delivered T resp (the_wire (WriteHeader 204 rw))"
    using assms(1) True by (simp add: delivered_def fresh_def wire_WriteHeader_def)
  ultimately show thesis using that True by simp
next
  case False
  then obtain doc where doc: "response_doc T resp = Some doc" using assms(2) by (auto simp: encodable_def)
  note v = visit_json_fresh [OF assms(1) response_status_body [OF False]]
  show thesis
    by (rule that [of "snd (visit_response T resp rw)"])
      (use v False doc in \<open>simp_all add: visit_response_json delivered_def\<close>)
qed

lemma visit_response_failed:
  "\<not> encodable T resp \<Longrightarrow> \<exists>err. visit_response T resp rw = (Some err, rw)"
  by (simp add: encodable_def visit_response_json visit_json_def)

section \<open>The strict handlers of the program\<close>

fun same_op :: "strict_request \<Rightarrow> strict_response \<Rightarrow> bool" where
  "same_op ReqGetHealth (RespGetHealth _) = True"
| "same_op (ReqListVolumes _) (RespListVolumes _) = True"
| "same_op (ReqCreateVolume _) (RespCreateVolume _) = True"
| "same_op (ReqGetVolume _) (RespGetVolume _) = True"
| "same_op (ReqDeleteVolume _) (RespDeleteVolume _) = True"
| "same_op _ _ = False"

text \<open>With no middlewares, all five strict handlers do this.\<close>

definition respond :: "time_text \<Rightarrow> 'w StrictServerInterface \<Rightarrow> strict_request \<Rightarrow> 'w http_handler" where
  "respond T ssi req rw r s =
     (case ssi req (ss_world s) of
        (StrictPanic p, w) \<Rightarrow> (Panicked p, rw, s\<lparr>ss_world := w\<rparr>)
      | (StrictReturn (Inl err), w) \<Rightarrow> NewResponseErrorHandler (PlainError err) rw r (s\<lparr>ss_world := w\<rparr>)
      | (StrictReturn (Inr None), w) \<Rightarrow> (Completed, rw, s\<lparr>ss_world := w\<rparr>)
      | (StrictReturn (Inr (Some resp)), w) \<Rightarrow>
          if same_op req resp
          then (case visit_response T resp rw of
                  (None, rw') \<Rightarrow> (Completed, rw', s\<lparr>ss_world := w\<rparr>)
                | (Some err, rw') \<Rightarrow> NewResponseErrorHandler (PlainError err) rw' r (s\<lparr>ss_world := w\<rparr>))
          else NewResponseErrorHandler (PlainError ''unexpected response type'') rw r (s\<lparr>ss_world := w\<rparr>))"

abbreviation api_strict :: "'w StrictServerInterface \<Rightarrow> 'w strictHandler" where
  "api_strict ssi \<equiv> \<lparr>sh_ssi = ssi, sh_middlewares = [], sh_options = api_options\<rparr>"

lemmas strict_defs = strict_serve_def strict_call_ssi_def api_options_def Let_def

lemma strict_serve_respond:
  fixes ssi :: "'w StrictServerInterface"
  assumes "expected req"
    and "\<And>resp. visit resp = (if same_op req resp then Some (visit_response T resp) else None)"
  shows "strict_serve (api_strict ssi) operation expected visit req = respond T ssi req"
proof (intro ext)
  fix rw r and s :: "'w server_state"
  obtain call w where c: "ssi req (ss_world s) = (call, w)" by fastforce
  show "strict_serve (api_strict ssi) operation expected visit req rw r s = respond T ssi req rw r s"
  proof (cases call)
    case (StrictReturn res)
    then show ?thesis using c assms
      by (cases res) (auto simp: strict_defs respond_def split: option.splits)
  next
    case (StrictPanic p)
    then show ?thesis using c assms(1) by (simp add: strict_defs respond_def)
  qed
qed

lemma strict_respond:
  "strict_ListVolumes T (api_strict ssi) params = respond T ssi (ReqListVolumes params)"
  "strict_GetHealth (api_strict ssi) = respond T ssi ReqGetHealth"
  "strict_DeleteVolume (api_strict ssi) i = respond T ssi (ReqDeleteVolume i)"
  "strict_GetVolume T (api_strict ssi) i = respond T ssi (ReqGetVolume i)"
  unfolding strict_ListVolumes_def strict_GetHealth_def strict_DeleteVolume_def strict_GetVolume_def
  by (rule strict_serve_respond; simp split: strict_response.split)+

lemma strict_respond_create:
  "strict_CreateVolume T (api_strict ssi) params rw r s =
     (case Option.bind (rq_Body r) (\<lambda>j. Unmarshal_Volume T j zero_volume) of
        None \<Rightarrow> newBadRequestHandler (WrapError (''can'' @ [CHR 0x27] @ ''t decode JSON body'')
                  (PlainError ''invalid JSON'')) rw r s
      | Some body \<Rightarrow> respond T ssi (ReqCreateVolume \<lparr>cvr_Params = params, cvr_Body = Some body\<rparr>) rw r s)"
proof (cases "Option.bind (rq_Body r) (\<lambda>j. Unmarshal_Volume T j zero_volume)")
  case None
  then show ?thesis by (simp add: strict_CreateVolume_def NewRequestErrorHandler_def api_options_def)
next
  case (Some body)
  have "strict_serve (api_strict ssi) ''CreateVolume''
      (\<lambda>req. case req of ReqCreateVolume _ \<Rightarrow> True | _ \<Rightarrow> False)
      (\<lambda>resp. case resp of RespCreateVolume x \<Rightarrow> Some (VisitCreateVolumeResponse T x) | _ \<Rightarrow> None)
      (ReqCreateVolume \<lparr>cvr_Params = params, cvr_Body = Some body\<rparr>) =
      respond T ssi (ReqCreateVolume \<lparr>cvr_Params = params, cvr_Body = Some body\<rparr>)"
    by (rule strict_serve_respond) (simp_all split: strict_response.split)
  then show ?thesis using Some by (simp add: strict_CreateVolume_def)
qed

lemma api_interface:
  "NewStrictHandlerWithOptions T ssi [] api_options =
     \<lparr>si_ListVolumes = \<lambda>params. respond T ssi (ReqListVolumes params),
      si_CreateVolume = strict_CreateVolume T (api_strict ssi),
      si_GetHealth = respond T ssi ReqGetHealth,
      si_DeleteVolume = \<lambda>i. respond T ssi (ReqDeleteVolume i),
      si_GetVolume = \<lambda>i. respond T ssi (ReqGetVolume i)\<rparr>"
  by (simp add: NewStrictHandlerWithOptions_def strict_interface_def fun_eq_iff strict_respond(1,4)
      strict_respond(2,3) [where T = T])

lemma respond_delivers:
  assumes "fresh rw" and "ssi req (ss_world s) = (StrictReturn (Inr (Some resp)), w)"
    and "same_op req resp" and "encodable T resp"
  obtains rw' where "respond T ssi req rw r s = (Completed, rw', s\<lparr>ss_world := w\<rparr>)"
    and "rw_calls rw rw'" and "delivered T resp (the_wire rw')"
proof -
  from visit_response_fresh [OF assms(1,4)] obtain rw'
    where "visit_response T resp rw = (None, rw')" "rw_calls rw rw'" "delivered T resp (the_wire rw')" .
  then show thesis using that [of rw'] assms(2,3) by (simp add: respond_def)
qed

lemma delivered_answer:
  assumes "problem_ok resp" and "delivered T resp w"
  shows "api_answer w"
proof (cases "resp = RespDeleteVolume DeleteVolume204")
  case True
  then show ?thesis using assms(2) by (simp add: delivered_def api_answer_def success_answer_def)
next
  case False
  show ?thesis
  proof (cases "response_problem resp")
    case None
    then have "response_status resp \<in> {200, 201, 204}" using assms(1) by (simp add: problem_ok_def)
    moreover have "sint (response_status resp) \<noteq> 204" using response_status_body [OF False] by simp
    ultimately have "sint (response_status resp) \<in> {200, 201}" by auto
    then show ?thesis using assms(2) False None
      by (auto simp: delivered_def api_answer_def success_answer_def)
  next
    case (Some e)
    then have "response_doc T resp = Some (Marshal_Error e)"
      by (cases resp rule: response_status.cases) auto
    then have "problem_answer w" using assms Some False
      by (auto simp: delivered_def problem_answer_def problem_ok_def)
    then show ?thesis by (simp add: api_answer_def)
  qed
qed

lemma replies_respond:
  assumes "well_behaved ssi"
  shows "replies api_answer (respond T ssi req)"
proof (rule repliesI)
  fix rw r s out rw' s'
  assume f: "fresh rw" and eq: "respond T ssi req rw r s = (out, rw', s')"
  obtain call w where c: "ssi req (ss_world s) = (call, w)" by fastforce
  note err = replies_apply [OF replies_responseError f]
  have wb: "case call of StrictReturn (Inl _) \<Rightarrow> True | StrictReturn (Inr None) \<Rightarrow> False
      | StrictReturn (Inr (Some resp)) \<Rightarrow> problem_ok resp | StrictPanic p \<Rightarrow> p \<noteq> ErrAbortHandler"
    using assms c unfolding well_behaved_def by (metis fst_conv)
  show "rw_calls rw rw' \<and> (case out of Completed \<Rightarrow> api_answer (the_wire rw')
      | Panicked p \<Rightarrow> p \<noteq> ErrAbortHandler \<and> wr_sent (the_wire rw') = None)"
  proof (cases call)
    case (StrictPanic p)
    then have "out = Panicked p" "rw' = rw" using eq c by (simp_all add: respond_def)
    then show ?thesis using f wb StrictPanic by (simp add: rw_none fresh_def)
  next
    case (StrictReturn res)
    show ?thesis
    proof (cases res)
      case (Inl e)
      then show ?thesis using eq c StrictReturn by (intro err) (simp add: respond_def)
    next
      case (Inr ro)
      with wb StrictReturn obtain resp where ro: "ro = Some resp" "problem_ok resp"
        by (cases ro) auto
      note c' = c [unfolded StrictReturn Inr ro]
      show ?thesis
      proof (cases "same_op req resp")
        case False
        then show ?thesis using eq c' by (intro err) (simp add: respond_def)
      next
        case same: True
        show ?thesis
        proof (cases "encodable T resp")
          case True
          from respond_delivers [where r = r and ssi = ssi and req = req and s = s, OF f c' same True] show ?thesis
            using eq delivered_answer [OF ro(2)] by (metis outcome.case(1) prod.inject)
        next
          case False
          from visit_response_failed [OF False, of rw] obtain e
            where "visit_response T resp rw = (Some e, rw)" by blast
          then show ?thesis using eq c' same by (intro err) (simp add: respond_def)
        qed
      qed
    qed
  qed
qed

lemma replies_strict_create:
  assumes "well_behaved ssi"
  shows "replies api_answer (strict_CreateVolume T (api_strict ssi) params)"
proof (rule repliesI)
  fix rw r s out rw' s'
  assume f: "fresh rw" and eq: "strict_CreateVolume T (api_strict ssi) params rw r s = (out, rw', s')"
  show "rw_calls rw rw' \<and> (case out of Completed \<Rightarrow> api_answer (the_wire rw')
      | Panicked p \<Rightarrow> p \<noteq> ErrAbortHandler \<and> wr_sent (the_wire rw') = None)"
  proof (cases "Option.bind (rq_Body r) (\<lambda>j. Unmarshal_Volume T j zero_volume)")
    case None
    show ?thesis
      by (rule replies_apply [OF replies_badRequest f])
        (rule eq [unfolded strict_respond_create None option.case])
  next
    case (Some body)
    show ?thesis
      by (rule replies_apply [OF replies_respond [OF assms] f])
        (rule eq [unfolded strict_respond_create Some option.case])
  qed
qed

section \<open>The assembled server\<close>

definition api_routes ::
  "param_binder \<Rightarrow> time_text \<Rightarrow> string + string \<Rightarrow> 'w StrictServerInterface \<Rightarrow>
     (string \<times> string \<times> 'w http_handler) list" where
  "api_routes B T postPath ssi =
     (let siw = \<lparr>siw_Handler = NewStrictHandlerWithOptions T ssi [] api_options,
                 siw_HandlerMiddlewares = [], siw_ErrorHandlerFunc = newBadRequestHandler\<rparr>
      in (case postPath of Inl _ \<Rightarrow> []
          | Inr p \<Rightarrow> [(''GET'', p @ ''/'', emptyIDHandler), (''DELETE'', p @ ''/'', emptyIDHandler)]) @
         [(''GET'', ''/api/v1alpha1/volumes'', siw_ListVolumes B siw),
          (''POST'', ''/api/v1alpha1/volumes'', siw_CreateVolume B siw),
          (''GET'', ''/api/v1alpha1/volumes/health'', siw_GetHealth siw),
          (''DELETE'', ''/api/v1alpha1/volumes/{volume_id}'', siw_DeleteVolume B siw),
          (''GET'', ''/api/v1alpha1/volumes/{volume_id}'', siw_GetVolume B siw)])"

definition validated :: "openapi option \<Rightarrow> 'w middleware" where
  "validated specRouter h =
     (case specRouter of None \<Rightarrow> h
      | Some sr \<Rightarrow> openAPIValidationMiddleware sr newBadRequestHandler h)"

lemma api_serve:
  "Router_ServeHTTP C (api_router lib B T now cfg specRouter postPath ssi) =
     recoveryMiddleware (requestLoggingMiddleware
       (requestTimeoutMiddleware now (sc_RequestTimeout cfg)
         (validated specRouter (dispatch C (api_routes B T postPath ssi)))))"
  by (cases specRouter; cases postPath)
    (simp_all add: Router_ServeHTTP_def api_router_def New_def HandlerWithOptions_def add_route_def
      Use_def NewRouter_def api_routes_def validated_def Let_def)

lemma replies_bound:
  assumes "\<And>x. replies good (h x)" and "\<And>err. replies good (bad err)"
  shows "replies good (\<lambda>rw r s. case f r of Inl err \<Rightarrow> bad err rw r s | Inr x \<Rightarrow> h x rw r s)"
proof (rule repliesI)
  fix rw r s out rw' s'
  assume f: "fresh rw" and eq: "(case f r of Inl err \<Rightarrow> bad err rw r s | Inr x \<Rightarrow> h x rw r s) = (out, rw', s')"
  show "rw_calls rw rw' \<and> (case out of Completed \<Rightarrow> good (the_wire rw')
      | Panicked p \<Rightarrow> p \<noteq> ErrAbortHandler \<and> wr_sent (the_wire rw') = None)"
  proof (cases "f r")
    case (Inl err)
    show ?thesis by (rule replies_apply [OF assms(2) f]) (use eq Inl in simp)
  next
    case (Inr x)
    show ?thesis by (rule replies_apply [OF assms(1) f]) (use eq Inr in simp)
  qed
qed

lemma replies_wrappers:
  assumes "siw_HandlerMiddlewares siw = []" and "\<And>err. replies good (siw_ErrorHandlerFunc siw err)"
  shows "(\<And>params. replies good (si_ListVolumes (siw_Handler siw) params)) \<Longrightarrow>
      replies good (siw_ListVolumes B siw)"
    and "(\<And>params. replies good (si_CreateVolume (siw_Handler siw) params)) \<Longrightarrow>
      replies good (siw_CreateVolume B siw)"
    and "replies good (si_GetHealth (siw_Handler siw)) \<Longrightarrow> replies good (siw_GetHealth siw)"
    and "(\<And>i. replies good (si_DeleteVolume (siw_Handler siw) i)) \<Longrightarrow>
      replies good (siw_DeleteVolume B siw)"
    and "(\<And>i. replies good (si_GetVolume (siw_Handler siw) i)) \<Longrightarrow> replies good (siw_GetVolume B siw)"
  unfolding siw_ListVolumes_def siw_CreateVolume_def siw_GetHealth_def siw_DeleteVolume_def
    siw_GetVolume_def wrapped_def assms(1) fold_simps
  by (rule replies_bound assms(2) | assumption | blast)+

lemma replies_routes:
  assumes "well_behaved ssi" and "(m, p, h) \<in> set (api_routes B T postPath ssi)"
  shows "replies api_answer h"
proof -
  define siw where "siw = \<lparr>siw_Handler = NewStrictHandlerWithOptions T ssi [] api_options,
      siw_HandlerMiddlewares = [], siw_ErrorHandlerFunc = newBadRequestHandler\<rparr>"
  have "siw_HandlerMiddlewares siw = []" "\<And>err. replies api_answer (siw_ErrorHandlerFunc siw err)"
    by (simp_all add: siw_def replies_badRequest)
  note w = replies_wrappers [OF this]
  have "replies api_answer (siw_ListVolumes B siw)" "replies api_answer (siw_CreateVolume B siw)"
    "replies api_answer (siw_GetHealth siw)" "replies api_answer (siw_DeleteVolume B siw)"
    "replies api_answer (siw_GetVolume B siw)"
    by (rule w; simp add: siw_def api_interface replies_respond [OF assms(1)]
        replies_strict_create [OF assms(1)])+
  then show ?thesis
    using assms(2) replies_emptyID by (auto simp: api_routes_def siw_def Let_def split: sum.splits)
qed

context chi_router
begin

lemma replies_dispatch:
  assumes "\<And>m p h. (m, p, h) \<in> set routes \<Longrightarrow> replies api_answer h"
  shows "replies api_answer (dispatch C routes)"
proof (rule repliesI)
  fix rw r s out rw' s'
  assume f: "fresh rw" and eq: "dispatch C routes rw r s = (out, rw', s')"
  have default: "api_answer w" if "\<exists>h. wr_sent w = Some (404, h) \<or> wr_sent w = Some (405, h)" for w
    using that by (auto simp: api_answer_def default_answer_def)
  show "rw_calls rw rw' \<and> (case out of Completed \<Rightarrow> api_answer (the_wire rw')
      | Panicked p \<Rightarrow> p \<noteq> ErrAbortHandler \<and> wr_sent (the_wire rw') = None)"
  proof (cases "chi_find C (map (\<lambda>(m, p, _). (m, p)) routes) (rq_Method r) (rq_Path r)")
    case (RouteFound i params)
    then have "i < length routes" using found [OF RouteFound] by simp
    then have "(fst (routes ! i), fst (snd (routes ! i)), snd (snd (routes ! i))) \<in> set routes" by simp
    from assms [OF this] show ?thesis
      by (rule replies_apply [OF _ f]) (use eq RouteFound in \<open>simp add: dispatch_def\<close>)
  next
    case RouteNotFound
    then show ?thesis
      using eq NotFound_calls NotFound_status [of rw] f by (auto simp: dispatch_def fresh_def intro!: default)
  next
    case MethodNotAllowed
    then show ?thesis
      using eq MethodNotAllowed_calls MethodNotAllowed_status [of rw] f
      by (auto simp: dispatch_def fresh_def intro!: default)
  qed
qed

text \<open>Every request is answered, whatever the validation says and whether or not a handler panics.\<close>

lemma api_answers:
  assumes "well_behaved ssi" and "fresh rw"
  shows "\<exists>rw' s'. Router_ServeHTTP C (api_router lib B T now cfg specRouter postPath ssi) rw r s =
    (Completed, rw', s') \<and> rw_calls rw rw' \<and> api_answer (the_wire rw')"
proof -
  have "replies api_answer (dispatch C (api_routes B T postPath ssi))"
    by (rule replies_dispatch) (rule replies_routes [OF assms(1)])
  then have "replies api_answer (validated specRouter (dispatch C (api_routes B T postPath ssi)))"
    by (auto simp: validated_def intro: replies_validation replies_badRequest split: option.splits)
  then show ?thesis
    unfolding api_serve
    by (intro replies_recovery replies_logging replies_timeout) (auto intro: problem_answer_500 assms(2))
qed

end

section \<open>Requests that reach a handler\<close>

text \<open>
  A request passes the validation, whatever its deadline; a request is routed to an operation
  of the strict interface.
\<close>

definition passes :: "openapi option \<Rightarrow> http_request \<Rightarrow> bool" where
  "passes specRouter r \<longleftrightarrow>
     (case specRouter of None \<Rightarrow> True
      | Some sr \<Rightarrow> \<forall>d. oa_FindRoute sr (r\<lparr>rq_Deadline := d\<rparr>) \<longrightarrow>
          oa_ValidateRequest sr (r\<lparr>rq_Deadline := d\<rparr>) = None)"

definition routed ::
  "chi_mux \<Rightarrow> (string \<times> string \<times> 'w http_handler) list \<Rightarrow> time_text \<Rightarrow> 'w StrictServerInterface \<Rightarrow>
     http_request \<Rightarrow> strict_request \<Rightarrow> bool" where
  "routed C routes T ssi r req \<longleftrightarrow>
     (\<forall>d. \<exists>params. \<forall>rw s. dispatch C routes rw (r\<lparr>rq_Deadline := d\<rparr>) s =
        respond T ssi req rw (r\<lparr>rq_Deadline := d, rq_URLParams := params\<rparr>) s)"

lemma visit_response_recorded:
  assumes "fresh rw" and "encodable T resp"
  shows "recorded_status (snd (visit_response T resp (statusRecordingResponseWriter rw False 200))) =
    sint (response_status resp)"
proof (cases "resp = RespDeleteVolume DeleteVolume204")
  case True
  then show ?thesis by simp
next
  case False
  then obtain doc where "response_doc T resp = Some doc" using assms(2) by (auto simp: encodable_def)
  then show ?thesis using False
    by (simp add: visit_response_json visit_json_def Let_def split: prod.splits bool.splits)
qed

lemma api_through:
  assumes "fresh rw" and "passes specRouter r" and "routed C (api_routes B T postPath ssi) T ssi r req"
    and resp: "\<And>d params. respond T ssi req
        (statusRecordingResponseWriter (statusRecordingResponseWriter rw False 200) False 200)
        (r\<lparr>rq_Deadline := d, rq_URLParams := params\<rparr>) s = (Completed, sw, s')"
    and calls: "rw_calls
        (statusRecordingResponseWriter (statusRecordingResponseWriter rw False 200) False 200) sw"
  shows "Router_ServeHTTP C (api_router lib B T now cfg specRouter postPath ssi) rw r s =
      (Completed, Unwrap (Unwrap sw), s'\<lparr>ss_access_log := ss_access_log s' @
         [(rq_Method r, rq_Path r, recorded_status sw)]\<rparr>)"
    and "rw_calls rw (Unwrap (Unwrap sw))" and "the_wire (Unwrap (Unwrap sw)) = the_wire sw"
proof -
  let ?rec = "statusRecordingResponseWriter rw False 200"
  let ?sw = "statusRecordingResponseWriter ?rec False 200"
  have dispatched: "dispatch C (api_routes B T postPath ssi) ?sw (r\<lparr>rq_Deadline := d\<rparr>) s =
      (Completed, sw, s')" for d
    using assms(3) resp unfolding routed_def by metis
  have valid: "validated specRouter (dispatch C (api_routes B T postPath ssi)) ?sw
      (r\<lparr>rq_Deadline := d\<rparr>) s = (Completed, sw, s')" for d
    using assms(2) dispatched [of d]
    by (auto simp: validated_def passes_def openAPIValidationMiddleware_def split: option.splits)
  have "requestTimeoutMiddleware now (sc_RequestTimeout cfg)
      (validated specRouter (dispatch C (api_routes B T postPath ssi))) ?sw r s = (Completed, sw, s')"
    using valid [of "rq_Deadline r"] valid by (simp add: requestTimeoutMiddleware_def Let_def)
  then have "requestLoggingMiddleware (requestTimeoutMiddleware now (sc_RequestTimeout cfg)
      (validated specRouter (dispatch C (api_routes B T postPath ssi)))) ?rec r s =
      (Completed, Unwrap sw, s'\<lparr>ss_access_log := ss_access_log s' @
         [(rq_Method r, rq_Path r, recorded_status sw)]\<rparr>)"
    by (simp add: requestLoggingMiddleware_def)
  then show "Router_ServeHTTP C (api_router lib B T now cfg specRouter postPath ssi) rw r s =
      (Completed, Unwrap (Unwrap sw), s'\<lparr>ss_access_log := ss_access_log s' @
         [(rq_Method r, rq_Path r, recorded_status sw)]\<rparr>)"
    unfolding api_serve by (simp add: recoveryMiddleware_def)
  show "rw_calls rw (Unwrap (Unwrap sw))" "the_wire (Unwrap (Unwrap sw)) = the_wire sw"
    using unwrap_calls [OF calls] unwrap_calls [OF unwrap_calls(1) [OF calls]] by simp_all
qed

lemma api_delivers:
  assumes "fresh rw" and "passes specRouter r" and "routed C (api_routes B T postPath ssi) T ssi r req"
    and "ssi req (ss_world s) = (StrictReturn (Inr (Some resp)), w)"
    and "same_op req resp" and "encodable T resp"
  shows "\<exists>rw'. Router_ServeHTTP C (api_router lib B T now cfg specRouter postPath ssi) rw r s =
      (Completed, rw', s\<lparr>ss_world := w, ss_access_log := ss_access_log s @
         [(rq_Method r, rq_Path r, sint (response_status resp))]\<rparr>) \<and>
    rw_calls rw rw' \<and> delivered T resp (the_wire rw')"
proof -
  let ?sw = "statusRecordingResponseWriter (statusRecordingResponseWriter rw False 200) False 200"
  have f: "fresh (statusRecordingResponseWriter rw False 200)" "fresh ?sw"
    using assms(1) fresh_wrapped by blast+
  from visit_response_fresh [OF f(2) assms(6)] obtain sw
    where v: "visit_response T resp ?sw = (None, sw)" "rw_calls ?sw sw" "delivered T resp (the_wire sw)" .
  have "respond T ssi req ?sw r' s = (Completed, sw, s\<lparr>ss_world := w\<rparr>)" for r'
    using assms(4,5) v(1) by (simp add: respond_def)
  note t = api_through [OF assms(1-3) this v(2)]
  have "recorded_status sw = sint (response_status resp)"
    using visit_response_recorded [OF f(1) assms(6)] v(1) by simp
  then show ?thesis using t v(3) by simp
qed

text \<open>A volume whose times cannot be written is answered as an internal error.\<close>

lemma api_not_encodable:
  assumes "fresh rw" and "passes specRouter r" and "routed C (api_routes B T postPath ssi) T ssi r req"
    and "ssi req (ss_world s) = (StrictReturn (Inr (Some resp)), w)"
    and "same_op req resp" and "\<not> encodable T resp"
  shows "\<exists>rw' s'. Router_ServeHTTP C (api_router lib B T now cfg specRouter postPath ssi) rw r s =
      (Completed, rw', s') \<and> ss_world s' = w \<and> answered 500 ''application/problem+json''
        (Marshal_Error (problem_doc 500 INTERNAL InternalTitle InternalDetail (Some (rq_URI r))))
        (the_wire rw')"
proof -
  let ?sw = "statusRecordingResponseWriter (statusRecordingResponseWriter rw False 200) False 200"
  let ?sw' = "WriteResponse ?sw 500 INTERNAL InternalTitle InternalDetail (Some (rq_URI r))"
  have f: "fresh ?sw" using assms(1) fresh_wrapped by blast
  have "respond T ssi req ?sw (r\<lparr>rq_Deadline := d, rq_URLParams := params\<rparr>) s =
      (Completed, ?sw', s\<lparr>ss_world := w\<rparr>)" for d params
    using assms(4,5) visit_response_failed [OF assms(6), of ?sw]
    by (auto simp: respond_def NewResponseErrorHandler_def requestInstance_def)
  note t = api_through [OF assms(1-3) this WriteResponse_calls]
  have "answered 500 ''application/problem+json''
      (Marshal_Error (problem_doc 500 INTERNAL InternalTitle InternalDetail (Some (rq_URI r)))) (the_wire ?sw')"
    using f by (intro WriteResponse_answered) (simp_all add: fresh_def)
  then show ?thesis using t by simp
qed

lemma aep122_segment:
  assumes "aep122 i"
  shows "i \<noteq> []" and "CHR ''/'' \<notin> set i" and "CHR ''%'' \<notin> set i"
proof -
  have "CHR ''/'' \<notin> set (alnum @ ''-'')" "CHR ''%'' \<notin> set (alnum @ ''-'')" by code_simp+
  then show "i \<noteq> []" "CHR ''/'' \<notin> set i" "CHR ''%'' \<notin> set i"
    using assms by (auto simp: aep122_def)
qed

text \<open>
  The table of the routes when the path of the POST operation is the one of the volumes, as
  \<^verbatim>\<open>PostPath\<close> finds it in the document, or could not be found.
\<close>

definition api_patterns :: "string + string \<Rightarrow> (string \<times> string) list" where
  "api_patterns postPath =
     (case postPath of Inl _ \<Rightarrow> []
      | Inr p \<Rightarrow> [(''GET'', p @ ''/''), (''DELETE'', p @ ''/'')]) @
     [(''GET'', ''/api/v1alpha1/volumes''), (''POST'', ''/api/v1alpha1/volumes''),
      (''GET'', ''/api/v1alpha1/volumes/health''), (''DELETE'', ''/api/v1alpha1/volumes/{volume_id}''),
      (''GET'', ''/api/v1alpha1/volumes/{volume_id}'')]"

lemma map_api_routes: "map (\<lambda>(m, p, _). (m, p)) (api_routes B T postPath ssi) = api_patterns postPath"
  by (simp add: api_routes_def api_patterns_def Let_def split: sum.split)

definition usual_path :: "string + string \<Rightarrow> bool" where
  "usual_path postPath \<longleftrightarrow> (case postPath of Inl _ \<Rightarrow> True | Inr p \<Rightarrow> p = volumesBasePath)"

lemma patterns_distinct: "usual_path postPath \<Longrightarrow> distinct (api_patterns postPath)"
  by (auto simp: usual_path_def api_patterns_def volumesBasePath_def split: sum.splits)

definition api_siw :: "time_text \<Rightarrow> 'w StrictServerInterface \<Rightarrow> 'w ServerInterfaceWrapper" where
  "api_siw T ssi = \<lparr>siw_Handler = NewStrictHandlerWithOptions T ssi [] api_options,
     siw_HandlerMiddlewares = [], siw_ErrorHandlerFunc = newBadRequestHandler\<rparr>"

text \<open>The position of a route from the end of the table.\<close>

lemma api_routes_nth:
  fixes ssi :: "'w StrictServerInterface" and postPath :: "string + string"
  defines "n \<equiv> length (api_patterns postPath)"
  shows "length (api_routes B T postPath ssi) = n" and "5 \<le> n"
    and "api_routes B T postPath ssi ! (n - 5) = (''GET'', ''/api/v1alpha1/volumes'', siw_ListVolumes B (api_siw T ssi))"
    and "api_routes B T postPath ssi ! (n - 4) = (''POST'', ''/api/v1alpha1/volumes'', siw_CreateVolume B (api_siw T ssi))"
    and "api_routes B T postPath ssi ! (n - 3) = (''GET'', ''/api/v1alpha1/volumes/health'', siw_GetHealth (api_siw T ssi))"
    and "api_routes B T postPath ssi ! (n - 2) = (''DELETE'', ''/api/v1alpha1/volumes/{volume_id}'', siw_DeleteVolume B (api_siw T ssi))"
    and "api_routes B T postPath ssi ! (n - 1) = (''GET'', ''/api/v1alpha1/volumes/{volume_id}'', siw_GetVolume B (api_siw T ssi))"
  unfolding n_def
  by (simp_all add: api_routes_def api_patterns_def api_siw_def Let_def split: sum.split)

context chi_router
begin

lemma dispatch_nth:
  assumes "i < length (api_patterns postPath)"
    and "chi_find C (api_patterns postPath) (rq_Method r) (rq_Path r) = RouteFound i params"
  shows "dispatch C (api_routes B T postPath ssi) rw r s =
    snd (snd (api_routes B T postPath ssi ! i)) rw (r\<lparr>rq_URLParams := params\<rparr>) s"
  using assms by (simp add: dispatch_def map_api_routes)

lemma static_found:
  assumes "usual_path postPath" and "i < length (api_patterns postPath)"
    and "api_routes B T postPath ssi ! i = (meth, path, h)" and "is_static path"
  shows "chi_find C (api_patterns postPath) meth path = RouteFound i []"
proof (rule static_route [OF patterns_distinct [OF assms(1)] assms(2) _ assms(4)])
  have "i < length (api_routes B T postPath ssi)" using assms(2) by (simp add: api_routes_nth(1))
  then show "api_patterns postPath ! i = (meth, path)"
    using assms(3) by (simp add: map_api_routes [of B T postPath ssi, symmetric])
qed

lemma id_found:
  assumes "usual_path postPath" and "i < length (api_patterns postPath)"
    and "api_routes B T postPath ssi ! i = (meth, ''/api/v1alpha1/volumes/{volume_id}'', h)"
    and "seg \<noteq> []" and "CHR ''/'' \<notin> set seg" and "seg \<noteq> ''health''"
  shows "chi_find C (api_patterns postPath) meth (''/api/v1alpha1/volumes/'' @ seg) =
    RouteFound i [(''volume_id'', seg)]"
proof (rule param_route [OF patterns_distinct [OF assms(1)] assms(2)])
  have "i < length (api_routes B T postPath ssi)" using assms(2) by (simp add: api_routes_nth(1))
  then show "api_patterns postPath ! i = (meth, ''/api/v1alpha1/volumes/'' @ ''{'' @ ''volume_id'' @ ''}'')"
    using assms(3) by (simp add: map_api_routes [of B T postPath ssi, symmetric])
  show "if is_static p then p \<noteq> ''/api/v1alpha1/volumes/'' @ seg
      else p = ''/api/v1alpha1/volumes/'' @ ''{'' @ ''volume_id'' @ ''}''"
    if "(m, p) \<in> set (api_patterns postPath)" for m p
    using that assms(1,4,6)
    by (auto simp: api_patterns_def usual_path_def volumesBasePath_def is_static_def split: sum.splits)
qed (use assms(4,5) in \<open>simp_all add: is_static_def\<close>)

end

lemma siw_plain:
  "siw_HandlerMiddlewares (api_siw T ssi) = []"
  "siw_ErrorHandlerFunc (api_siw T ssi) = newBadRequestHandler"
  "si_ListVolumes (siw_Handler (api_siw T ssi)) params = respond T ssi (ReqListVolumes params)"
  "si_CreateVolume (siw_Handler (api_siw T ssi)) = strict_CreateVolume T (api_strict ssi)"
  "si_GetHealth (siw_Handler (api_siw T ssi)) = respond T ssi ReqGetHealth"
  "si_DeleteVolume (siw_Handler (api_siw T ssi)) i = respond T ssi (ReqDeleteVolume i)"
  "si_GetVolume (siw_Handler (api_siw T ssi)) i = respond T ssi (ReqGetVolume i)"
  by (simp_all add: api_siw_def api_interface)

text \<open>
  \<open>query_is k q v\<close>: the query has the parameter \<open>k\<close> with the value \<open>v\<close>, once, or not at all.
\<close>

definition query_is :: "string \<Rightarrow> (string \<times> string) list \<Rightarrow> string option \<Rightarrow> bool" where
  "query_is k q v \<longleftrightarrow>
     (case v of None \<Rightarrow> k \<notin> fst ` set q | Some x \<Rightarrow> filter (\<lambda>(k', _). k' = k) q = [(k, x)])"

locale api_server = chi_router C + param_binding B for C and B
begin

lemma bind_string_query: "query_is k q v \<Longrightarrow> bind_string B k q = Inr v"
  by (auto simp: query_is_def string_absent string_once split: option.splits)

lemma bind_int32_query:
  "query_is k q (map_option (\<lambda>n. show_int (sint n)) v) \<Longrightarrow> bind_int32 B k q = Inr v"
  by (cases v) (simp_all add: query_is_def int32_absent int32_once)

lemma routed_static:
  fixes ssi :: "'c StrictServerInterface"
  assumes "usual_path postPath" and "is_static (rq_Path r)" and "i < length (api_patterns postPath)"
    and "api_routes B T postPath ssi ! i = (rq_Method r, rq_Path r, h)"
    and "\<And>rw d s. h rw (r\<lparr>rq_Deadline := d, rq_URLParams := []\<rparr>) s =
      respond T ssi req rw (r\<lparr>rq_Deadline := d, rq_URLParams := []\<rparr>) s"
  shows "routed C (api_routes B T postPath ssi) T ssi r req"
  unfolding routed_def
proof (intro allI exI [of _ "[]"])
  fix d rw and s :: "'c server_state"
  have "chi_find C (api_patterns postPath) (rq_Method (r\<lparr>rq_Deadline := d\<rparr>)) (rq_Path (r\<lparr>rq_Deadline := d\<rparr>)) =
      RouteFound i []"
    using static_found [OF assms(1,3,4,2)] by simp
  from dispatch_nth [OF assms(3) this, where B = B and T = T and ssi = ssi and rw = rw and s = s] show
    "dispatch C (api_routes B T postPath ssi) rw (r\<lparr>rq_Deadline := d\<rparr>) s =
      respond T ssi req rw (r\<lparr>rq_Deadline := d, rq_URLParams := []\<rparr>) s"
    using assms(4,5) by simp
qed

lemma routed_id:
  fixes ssi :: "'c StrictServerInterface"
  assumes "usual_path postPath" and "rq_Path r = ''/api/v1alpha1/volumes/'' @ seg"
    and "seg \<noteq> []" and "CHR ''/'' \<notin> set seg" and "seg \<noteq> ''health''"
    and "i < length (api_patterns postPath)"
    and "api_routes B T postPath ssi ! i = (rq_Method r, ''/api/v1alpha1/volumes/{volume_id}'', h)"
    and "\<And>rw d s. h rw (r\<lparr>rq_Deadline := d, rq_URLParams := [(''volume_id'', seg)]\<rparr>) s =
      respond T ssi req rw (r\<lparr>rq_Deadline := d, rq_URLParams := [(''volume_id'', seg)]\<rparr>) s"
  shows "routed C (api_routes B T postPath ssi) T ssi r req"
  unfolding routed_def
proof (intro allI exI [of _ "[(''volume_id'', seg)]"])
  fix d rw and s :: "'c server_state"
  have "chi_find C (api_patterns postPath) (rq_Method (r\<lparr>rq_Deadline := d\<rparr>)) (rq_Path (r\<lparr>rq_Deadline := d\<rparr>)) =
      RouteFound i [(''volume_id'', seg)]"
    using id_found [OF assms(1,6,7,3-5)] assms(2) by simp
  from dispatch_nth [OF assms(6) this, where B = B and T = T and ssi = ssi and rw = rw and s = s] show
    "dispatch C (api_routes B T postPath ssi) rw (r\<lparr>rq_Deadline := d\<rparr>) s =
      respond T ssi req rw (r\<lparr>rq_Deadline := d, rq_URLParams := [(''volume_id'', seg)]\<rparr>) s"
    using assms(7,8) by simp
qed

text \<open>The five operations of the API.\<close>

abbreviation accepts ::
  "string + string \<Rightarrow> time_text \<Rightarrow> 'c StrictServerInterface \<Rightarrow> http_request \<Rightarrow> strict_request \<Rightarrow> bool" where
  "accepts postPath T ssi r req \<equiv> routed C (api_routes B T postPath ssi) T ssi r req"

lemma routed_list:
  assumes "usual_path postPath" and "rq_Method r = ''GET''" and "rq_Path r = ''/api/v1alpha1/volumes''"
    and "query_is ''max_page_size'' (rq_Query r) (map_option (\<lambda>n. show_int (sint n)) sz)"
    and "query_is ''page_token'' (rq_Query r) tok"
  shows "accepts postPath T ssi r (ReqListVolumes \<lparr>lp_MaxPageSize = sz, lp_PageToken = tok\<rparr>)"
proof (rule routed_static [OF assms(1), of r "length (api_patterns postPath) - 5"])
  show "api_routes B T postPath ssi ! (length (api_patterns postPath) - 5) =
      (rq_Method r, rq_Path r, siw_ListVolumes B (api_siw T ssi))"
    using api_routes_nth(3) [of B T postPath ssi] assms(2,3) by simp
qed (use api_routes_nth(2) [of postPath] assms bind_int32_query [OF assms(4)] bind_string_query [OF assms(5)] in
    \<open>simp_all add: is_static_def siw_ListVolumes_def wrapped_def siw_plain\<close>)

lemma routed_create:
  assumes "usual_path postPath" and "rq_Method r = ''POST''" and "rq_Path r = ''/api/v1alpha1/volumes''"
    and "query_is ''id'' (rq_Query r) i"
    and "Option.bind (rq_Body r) (\<lambda>j. Unmarshal_Volume T j zero_volume) = Some body"
  shows "accepts postPath T ssi r (ReqCreateVolume \<lparr>cvr_Params = \<lparr>cp_Id = i\<rparr>, cvr_Body = Some body\<rparr>)"
proof (rule routed_static [OF assms(1), of r "length (api_patterns postPath) - 4"])
  show "api_routes B T postPath ssi ! (length (api_patterns postPath) - 4) =
      (rq_Method r, rq_Path r, siw_CreateVolume B (api_siw T ssi))"
    using api_routes_nth(4) [of B T postPath ssi] assms(2,3) by simp
qed (use api_routes_nth(2) [of postPath] assms bind_string_query [OF assms(4)] in
    \<open>simp_all add: is_static_def siw_CreateVolume_def wrapped_def siw_plain strict_respond_create\<close>)

lemma routed_health:
  assumes "usual_path postPath" and "rq_Method r = ''GET''"
    and "rq_Path r = ''/api/v1alpha1/volumes/health''"
  shows "accepts postPath T ssi r ReqGetHealth"
proof (rule routed_static [OF assms(1), of r "length (api_patterns postPath) - 3"])
  show "api_routes B T postPath ssi ! (length (api_patterns postPath) - 3) =
      (rq_Method r, rq_Path r, siw_GetHealth (api_siw T ssi))"
    using api_routes_nth(5) [of B T postPath ssi] assms(2,3) by simp
qed (use api_routes_nth(2) [of postPath] assms in
    \<open>simp_all add: is_static_def siw_GetHealth_def wrapped_def siw_plain\<close>)

lemma routed_delete:
  assumes "usual_path postPath" and "rq_Method r = ''DELETE''"
    and "rq_Path r = ''/api/v1alpha1/volumes/'' @ i" and "aep122 i" and "i \<noteq> ''health''"
  shows "accepts postPath T ssi r (ReqDeleteVolume i)"
proof (rule routed_id [OF assms(1,3) aep122_segment(1,2) [OF assms(4)] assms(5),
      of "length (api_patterns postPath) - 2"])
  show "api_routes B T postPath ssi ! (length (api_patterns postPath) - 2) =
      (rq_Method r, ''/api/v1alpha1/volumes/{volume_id}'', siw_DeleteVolume B (api_siw T ssi))"
    using api_routes_nth(6) [of B T postPath ssi] assms(2) by simp
qed (use api_routes_nth(2) [of postPath] path_plain [OF aep122_segment(1,3) [OF assms(4)]] in
    \<open>simp_all add: siw_DeleteVolume_def URLParam_def wrapped_def siw_plain\<close>)

lemma routed_get:
  assumes "usual_path postPath" and "rq_Method r = ''GET''"
    and "rq_Path r = ''/api/v1alpha1/volumes/'' @ i" and "aep122 i" and "i \<noteq> ''health''"
  shows "accepts postPath T ssi r (ReqGetVolume i)"
proof (rule routed_id [OF assms(1,3) aep122_segment(1,2) [OF assms(4)] assms(5),
      of "length (api_patterns postPath) - 1"])
  show "api_routes B T postPath ssi ! (length (api_patterns postPath) - 1) =
      (rq_Method r, ''/api/v1alpha1/volumes/{volume_id}'', siw_GetVolume B (api_siw T ssi))"
    using api_routes_nth(7) [of B T postPath ssi] assms(2) by simp
qed (use api_routes_nth(2) [of postPath] path_plain [OF aep122_segment(1,3) [OF assms(4)]] in
    \<open>simp_all add: siw_GetVolume_def URLParam_def wrapped_def siw_plain\<close>)

end

end
