(* ===== verification/Service.thy ===== *)
theory Service
  imports Paging Volume_Handler
begin

text \<open>
  The volume handlers on top of the Kubernetes store, as \<^verbatim>\<open>main\<close> wires them: what a client of the
  API observes, in terms of the objects of the cluster.
\<close>

lemma store_fields [simp]:
  "repo_Create (K8sVolumeStore L K cfg) = K8s_Create L K cfg"
  "repo_Get (K8sVolumeStore L K cfg) = K8s_Get L K cfg"
  "repo_List (K8sVolumeStore L K cfg) = K8s_List L K cfg"
  "repo_Delete (K8sVolumeStore L K cfg) = K8s_Delete K cfg"
  "repo_CheckHealth (K8sVolumeStore L K cfg) = CheckHealth K"
  by (simp_all add: K8sVolumeStore_def)

lemma create_set_name [simp]:
  "K8s_Create L K cfg (set_name n s) i w = K8s_Create L K cfg s i w"
proof -
  have "create_labels L (set_name n s) i = create_labels L s i" by (simp add: create_labels_def)
  then show ?thesis unfolding K8s_Create_unfold resolve_set_name set_name_simps by (simp only:)
qed

lemma wanted_mode_set_name [simp]: "wanted_mode (set_name n s) cfg = wanted_mode s cfg"
  by (simp add: wanted_mode_def)

text \<open>A specification the store can build a PVC from.\<close>

definition buildable :: "'q klib \<Rightarrow> K8sConfig \<Rightarrow> StorageSpec \<Rightarrow> bool" where
  "buildable L cfg s \<longleftrightarrow>
     (\<exists>q. ParseQuantity L (spec_Capacity s) = Inr q) \<and> supported_mode (wanted_mode s cfg) \<and>
     (\<forall>vm. Option.bind (k8s_hints s) kh_VolumeMode = Some vm \<longrightarrow> VolumeMode_Valid vm)"

lemma handler_create:
  assumes "cvr_Body req = Some body" and "acceptable (request_id req body) (vol_Spec body)"
  shows "CreateVolume (K8sVolumeStore L K cfg) req w =
    (case K8s_Create L K cfg (vol_Spec body) (request_id req body) w of
       (Inl err, w') \<Rightarrow> (Inr (mapCreateError err volumesBasePath), w')
     | (Inr v, w') \<Rightarrow> (Inr (CreateVolume201 v), w'))"
  unfolding CreateVolume_accepted [OF assms] store_fields create_set_name ..

context k8s_store
begin

lemma handler_missing_class:
  assumes "up w" and "cvr_Body req = Some body" and "acceptable (request_id req body) (vol_Spec body)"
    and "resolveStorageClass (vol_Spec body) (kc_DefaultStorageClass cfg) = c" and "c \<noteq> ''''"
    and "c \<notin> classes w"
  shows "CreateVolume (K8sVolumeStore L K cfg) req w =
    (Inr (CreateVolume422 (problem FAILEDPRECONDITION ''Failed precondition'' 422
       (''StorageClass '' @ go_quote c @ '' does not exist'') volumesBasePath)), w)"
  using create_missing_class [OF assms(1,4-6)]
  by (simp add: handler_create [OF assms(2,3)] mapCreateError_def)

lemma handler_not_buildable:
  assumes "up w" and "cvr_Body req = Some body" and "acceptable (request_id req body) (vol_Spec body)"
    and "resolveStorageClass (vol_Spec body) (kc_DefaultStorageClass cfg) \<in> insert '''' (classes w)"
    and "\<not> buildable L cfg (vol_Spec body)"
  shows "\<exists>detail. CreateVolume (K8sVolumeStore L K cfg) req w =
    (Inr (newCreateError400 detail volumesBasePath), w)"
proof -
  let ?s = "vol_Spec body" and ?i = "request_id req body"
  have "\<not> (\<exists>p. buildPVC L (set_name ?i ?s) cfg (create_labels L ?s ?i) = (Inr p :: 'e store_error + 'q pvc))"
    using assms(5) unfolding buildPVC_succeeds by (simp add: buildable_def)
  then obtain e where "buildPVC L (set_name ?i ?s) cfg (create_labels L ?s ?i) = (Inl e :: 'e store_error + 'q pvc)"
    by (metis sum.exhaust)
  from create_invalid [OF assms(1,4) this] obtain m where
    "K8s_Create L K cfg ?s ?i w = (Inl (InvalidArgumentError m), w)" by blast
  then show ?thesis by (auto simp: handler_create [OF assms(2,3)] mapCreateError_def)
qed

lemma handler_conflict:
  assumes "up w" and "cvr_Body req = Some body" and "acceptable (request_id req body) (vol_Spec body)"
    and "resolveStorageClass (vol_Spec body) (kc_DefaultStorageClass cfg) \<in> insert '''' (classes w)"
    and "buildable L cfg (vol_Spec body)" and "objs w (kc_Namespace cfg) (request_id req body) = Some q"
  shows "CreateVolume (K8sVolumeStore L K cfg) req w =
    (Inr (CreateVolume409 (problem ALREADYEXISTS ''Already exists'' 409
       (''volume '' @ go_quote (request_id req body) @ '' already exists'') volumesBasePath)), w)"
proof -
  let ?s = "vol_Spec body" and ?i = "request_id req body"
  have "\<exists>p. buildPVC L (set_name ?i ?s) cfg (create_labels L ?s ?i) = (Inr p :: 'e store_error + 'q pvc)"
    using assms(5) unfolding buildPVC_succeeds by (simp add: buildable_def)
  then obtain p where "buildPVC L (set_name ?i ?s) cfg (create_labels L ?s ?i) = (Inr p :: 'e store_error + 'q pvc)"
    by blast
  from create_conflict [OF assms(1,6,4) this] show ?thesis
    by (simp add: handler_create [OF assms(2,3)] mapCreateError_def)
qed

end

section \<open>Only managed volumes\<close>

text \<open>Whatever the API server does, the handlers read and delete managed PVCs alone.\<close>

lemma K8s_Get_managed:
  "K8s_Get L K cfg i w = Inr v \<Longrightarrow>
   \<exists>p. PVC_Get K (kc_Namespace cfg) i w = Inr p \<and> isDCMManagedPVC (Some p) i \<and> v = volumeFromPVC L p i"
  by (auto simp: K8s_Get_def buildVolume_def dest: findPVC_Inr split: sum.splits)

lemma K8s_Delete_managed:
  "snd (K8s_Delete K cfg i w) \<noteq> w \<Longrightarrow>
   \<exists>p. PVC_Get K (kc_Namespace cfg) i w = Inr p \<and> isDCMManagedPVC (Some p) i"
  by (auto simp: K8s_Delete_def dest: findPVC_Inr split: sum.splits)

lemma K8s_List_managed:
  assumes "K8s_List L K cfg sz tok w = Inr page" and "vl_Volumes page = Some vs" and "v \<in> set vs"
  shows "\<exists>p. isDCMManagedPVC (Some p) (pvc_Name p) \<and> v = volumeFromPVC L p (pvc_Name p)"
  using assms by (fastforce simp: K8s_List_def buildVolume_def Let_def split: sum.splits)

lemma GetVolume_managed:
  "GetVolume (K8sVolumeStore L K cfg) i w = Inr (GetVolume200 v) \<Longrightarrow>
   \<exists>p. PVC_Get K (kc_Namespace cfg) i w = Inr p \<and> isDCMManagedPVC (Some p) i \<and> v = volumeFromPVC L p i"
  by (rule K8s_Get_managed)
    (auto simp: GetVolume_def mapGetError_def Let_def split: sum.splits store_error.splits)

lemma DeleteVolume_managed:
  "snd (DeleteVolume (K8sVolumeStore L K cfg) i w) \<noteq> w \<Longrightarrow>
   \<exists>p. PVC_Get K (kc_Namespace cfg) i w = Inr p \<and> isDCMManagedPVC (Some p) i"
  by (rule K8s_Delete_managed)
    (auto simp: DeleteVolume_def Let_def split: prod.splits option.splits)

lemma ListVolumes_managed:
  assumes "ListVolumes (K8sVolumeStore L K cfg) params w = Inr (ListVolumes200 page)"
  shows "\<exists>vs. vl_Volumes page = Some vs \<and>
    (\<forall>u \<in> set vs. \<exists>p. isDCMManagedPVC (Some p) (pvc_Name p) \<and> u = volumeFromPVC L p (pvc_Name p))"
proof -
  from assms obtain sz tok where l: "K8s_List L K cfg sz tok w = Inr page"
    by (auto simp: ListVolumes_def mapListVolumesError_def Let_def split: sum.splits store_error.splits)
  then obtain vs where "vl_Volumes page = Some vs" by (auto simp: K8s_List_def Let_def split: sum.splits)
  with K8s_List_managed [OF l this] show ?thesis by blast
qed

section \<open>Pages\<close>

context kube_paging
begin

lemma handler_page:
  assumes "up w" and "lp_PageToken params = tok"
    and "cursor w (case tok of Some t \<Rightarrow> t | None \<Rightarrow> '''') = Some pos"
  shows "\<exists>page vs. ListVolumes (K8sVolumeStore L K cfg) params w = Inr (ListVolumes200 page) \<and>
    vl_Volumes page = Some vs \<and>
    int (length vs) \<le> (case lp_MaxPageSize params of None \<Rightarrow> 50
       | Some n \<Rightarrow> if sint n \<le> 0 then 50 else min 1000 (sint n))"
proof -
  let ?sz = "case lp_MaxPageSize params of Some n \<Rightarrow> n | None \<Rightarrow> 0"
  obtain k tok' where
    l: "K8s_List L K cfg ?sz (case tok of Some t \<Rightarrow> t | None \<Rightarrow> '''') w =
       Inr \<lparr>vl_NextPageToken = (if tok' \<noteq> '''' then Some tok' else None),
            vl_Volumes = Some (page_volumes L (take k (drop pos (raw w (kc_Namespace cfg)))))\<rparr>"
    and b: "int (length (page_volumes L (take k (drop pos (raw w (kc_Namespace cfg)))))) \<le>
         sint (normalizePageSize ?sz)"
    by (rule K8s_List_page [OF assms(1,3), where sz = ?sz])
  have "sint (normalizePageSize ?sz) = (case lp_MaxPageSize params of None \<Rightarrow> 50
       | Some n \<Rightarrow> if sint n \<le> 0 then 50 else min 1000 (sint n))"
    by (auto simp: normalizePageSize_def split: option.splits)
  then show ?thesis using l b by (simp add: ListVolumes_def assms(2))
qed

end

end
