(* ===== verification/Http_Service.thy ===== *)
theory Http_Service
  imports Http_Api Service
begin

text \<open>
  The whole service as its clients see it: requests to the assembled server over the Kubernetes
  store.
\<close>

definition fresh_wire :: wire where
  "fresh_wire = \<lparr>wr_header = Map.empty, wr_sent = None, wr_body = [], wr_limit = None\<rparr>"

lemma fresh_fresh_wire [simp]: "fresh (Wire fresh_wire)"
  by (simp add: fresh_def fresh_wire_def)

text \<open>The server \<^verbatim>\<open>main\<close> assembles, serving one request on a new connection.\<close>

definition provider_serve where
  "provider_serve C lib B T now cfg specRouter postPath h r s =
     (case Router_ServeHTTP C (api_router lib B T now cfg specRouter postPath (composite_ssi h now))
             (Wire fresh_wire) r s of
        (out, rw, s') \<Rightarrow> (out, the_wire rw, s'))"

lemma composite_well_behaved: "well_behaved (composite_ssi h now)"
proof -
  have "\<exists>resp w'. composite_ssi h now req w = (StrictReturn (Inr (Some resp)), w') \<and> problem_ok resp" for req w
  proof (cases req)
    case ReqGetHealth
    then show ?thesis by (simp add: composite_ssi_def composite_handle_def GetHealth_def problem_ok_def Let_def)
  next
    case (ReqListVolumes params)
    then show ?thesis using ListVolumes_ok [of "ch_volume h" params w]
      by (auto simp: composite_ssi_def composite_handle_def)
  next
    case (ReqCreateVolume r)
    then show ?thesis using CreateVolume_ok [of "ch_volume h" r w]
      by (cases "CreateVolume (ch_volume h) r w") (auto simp: composite_ssi_def composite_handle_def)
  next
    case (ReqGetVolume i)
    then show ?thesis using GetVolume_ok [of "ch_volume h" i w]
      by (auto simp: composite_ssi_def composite_handle_def)
  next
    case (ReqDeleteVolume i)
    then show ?thesis using DeleteVolume_ok [of "ch_volume h" i w]
      by (cases "DeleteVolume (ch_volume h) i w") (auto simp: composite_ssi_def composite_handle_def)
  qed
  then show ?thesis unfolding well_behaved_def by (metis (mono_tags, lifting) fst_conv
      option.case(2) strict_call.case(1) sum.case(2))
qed

lemma composite_answer:
  "composite_handle h now req w = (Inr resp, w') \<Longrightarrow>
   composite_ssi h now req w = (StrictReturn (Inr (Some resp)), w')"
  by (simp add: composite_ssi_def)

context api_server
begin

text \<open>A response reaches the client as the handler made it, or as an internal error.\<close>

lemma provider_delivers:
  assumes "passes specRouter r" and "accepts postPath T (composite_ssi h now) r req"
    and "composite_handle h now req (ss_world s) = (Inr resp, w')" and "same_op req resp"
  shows "\<exists>w s'. provider_serve C lib B T now cfg specRouter postPath h r s = (Completed, w, s') \<and>
    ss_world s' = w' \<and>
    (if encodable T resp then delivered T resp w
     else answered 500 ''application/problem+json''
       (Marshal_Error (problem_doc 500 INTERNAL InternalTitle InternalDetail (Some (rq_URI r)))) w)"
proof (cases "encodable T resp")
  case True
  from api_delivers [OF fresh_fresh_wire assms(1,2) composite_answer [OF assms(3)] assms(4) True,
      where lib = lib and now = now and cfg = cfg]
  obtain rw' s' where "Router_ServeHTTP C (api_router lib B T now cfg specRouter postPath
      (composite_ssi h now)) (Wire fresh_wire) r s = (Completed, rw', s')" "ss_world s' = w'"
    "delivered T resp (the_wire rw')" by auto
  then show ?thesis using True by (simp add: provider_serve_def)
next
  case False
  from api_not_encodable [OF fresh_fresh_wire assms(1,2) composite_answer [OF assms(3)] assms(4) False,
      where lib = lib and now = now and cfg = cfg]
  obtain rw' s' where "Router_ServeHTTP C (api_router lib B T now cfg specRouter postPath
      (composite_ssi h now)) (Wire fresh_wire) r s = (Completed, rw', s')" "ss_world s' = w'"
    "answered 500 ''application/problem+json''
       (Marshal_Error (problem_doc 500 INTERNAL InternalTitle InternalDetail (Some (rq_URI r)))) (the_wire rw')"
    by auto
  then show ?thesis using False by (simp add: provider_serve_def)
qed

lemma answered_unique:
  "answered code ctype doc w \<Longrightarrow> answered code' ctype' doc' w \<Longrightarrow> code' = code \<and> ctype' = ctype \<and> doc' = doc"
  by (auto simp: answered_def)

text \<open>A POST that is answered 201 has created the volume of its body, under an id of the API.\<close>

lemma provider_created:
  assumes "usual_path postPath" and "h = \<lparr>ch_health = hh, ch_volume = R\<rparr>"
    and "passes specRouter r" and "rq_Method r = ''POST''" and "rq_Path r = ''/api/v1alpha1/volumes''"
    and "query_is ''id'' (rq_Query r) i"
    and "Option.bind (rq_Body r) (\<lambda>j. Unmarshal_Volume T j zero_volume) = Some body"
    and "provider_serve C lib B T now cfg specRouter postPath h r s = (Completed, w1, s1)"
    and "answered 201 ctype doc w1"
  obtains v where "CreateVolume R \<lparr>cvr_Params = \<lparr>cp_Id = i\<rparr>, cvr_Body = Some body\<rparr> (ss_world s) =
      (Inr (CreateVolume201 v), ss_world s1)"
    and "Marshal_Volume T v = Some doc"
    and "aep122 (request_id \<lparr>cvr_Params = \<lparr>cp_Id = i\<rparr>, cvr_Body = Some body\<rparr> body)"
    and "request_id \<lparr>cvr_Params = \<lparr>cp_Id = i\<rparr>, cvr_Body = Some body\<rparr> body \<noteq> ''health''"
proof -
  let ?req = "\<lparr>cvr_Params = \<lparr>cp_Id = i\<rparr>, cvr_Body = Some body\<rparr>"
  obtain resp w' where c: "CreateVolume R ?req (ss_world s) = (Inr resp, w')"
    using CreateVolume_ok [of R ?req "ss_world s"] by (metis fst_conv surj_pair)
  then have h: "composite_handle h now (ReqCreateVolume ?req) (ss_world s) = (Inr (RespCreateVolume resp), w')"
    by (simp add: composite_handle_def assms(2))
  from provider_delivers [OF assms(3) routed_create [OF assms(1,4-7)] h, where lib = lib and cfg = cfg]
  have s1: "ss_world s1 = w'" and d: "if encodable T (RespCreateVolume resp) then delivered T (RespCreateVolume resp) w1
      else answered 500 ''application/problem+json''
        (Marshal_Error (problem_doc 500 INTERNAL InternalTitle InternalDetail (Some (rq_URI r)))) w1"
    using assms(8) by simp_all
  have enc: "encodable T (RespCreateVolume resp)"
  proof (rule ccontr)
    assume "\<not> encodable T (RespCreateVolume resp)"
    with d answered_unique [OF assms(9)] show False by fastforce
  qed
  with d obtain doc' ct where "response_doc T (RespCreateVolume resp) = Some doc'"
    "answered (sint (response_status (RespCreateVolume resp))) ct doc' w1"
    by (auto simp: delivered_def)
  with answered_unique [OF assms(9)] have "sint (response_status (RespCreateVolume resp)) = 201"
    and doc: "response_doc T (RespCreateVolume resp) = Some doc" by blast+
  then obtain v where v: "resp = CreateVolume201 v" by (cases resp) auto
  have "aep122 (request_id ?req body) \<and> request_id ?req body \<noteq> ''health''"
    using c v by (auto simp: CreateVolume_201 acceptable_def)
  then show thesis using that c v doc s1 by simp
qed

lemma provider_create_get:
  assumes "k8s_store K objs classes up L" and "up (ss_world s)" and "usual_path postPath"
    and "h = \<lparr>ch_health = hh, ch_volume = K8sVolumeStore L K kcfg\<rparr>"
    and "passes specRouter r" and "rq_Method r = ''POST''" and "rq_Path r = ''/api/v1alpha1/volumes''"
    and "query_is ''id'' (rq_Query r) i"
    and "Option.bind (rq_Body r) (\<lambda>j. Unmarshal_Volume T j zero_volume) = Some body"
    and "provider_serve C lib B T now cfg specRouter postPath h r s = (Completed, w1, s1)"
    and "answered 201 ctype doc w1"
    and "name = request_id \<lparr>cvr_Params = \<lparr>cp_Id = i\<rparr>, cvr_Body = Some body\<rparr> body"
    and "passes specRouter g" and "rq_Method g = ''GET''" and "rq_Path g = ''/api/v1alpha1/volumes/'' @ name"
  shows "\<exists>w2 s2. provider_serve C lib B T now cfg specRouter postPath h g s1 = (Completed, w2, s2) \<and>
    answered 200 ''application/json'' doc w2 \<and> ss_world s2 = ss_world s1"
proof -
  let ?R = "K8sVolumeStore L K kcfg"
  obtain v where c: "CreateVolume ?R \<lparr>cvr_Params = \<lparr>cp_Id = i\<rparr>, cvr_Body = Some body\<rparr> (ss_world s) =
      (Inr (CreateVolume201 v), ss_world s1)"
    and doc: "Marshal_Volume T v = Some doc" and name: "aep122 name" "name \<noteq> ''health''"
    using provider_created [OF assms(3-11)] assms(12) by metis
  note ok = volume_repository.handler_create_get [OF k8s_store.repository [OF assms(1)] assms(2) c, simplified]
  have "composite_handle h now (ReqGetVolume name) (ss_world s1) =
      (Inr (RespGetVolume (GetVolume200 v)), ss_world s1)"
    using ok(1) by (simp add: composite_handle_def assms(4,12))
  from provider_delivers [OF assms(13) routed_get [OF assms(3,14,15)] this, where lib = lib and cfg = cfg]
  show ?thesis using name doc
    by (fastforce simp: delivered_def encodable_def)
qed

end

lemma map_sum_Inr:
  "map_sum f g x = Inr y \<longleftrightarrow> (\<exists>z. x = Inr z \<and> y = g z)"
  "Inr y = map_sum f g x \<longleftrightarrow> (\<exists>z. x = Inr z \<and> y = g z)"
  by (cases x; auto)+

lemma composite_same_op: "composite_handle h now req w = (Inr resp, w') \<Longrightarrow> same_op req resp"
  by (cases req) (auto simp: composite_handle_def map_sum_Inr split: prod.splits)

end
