(* ===== verification/Client_Gen.thy ===== *)
theory Client_Gen
  imports Http Net_Url
begin

text \<open>
  The generated client, \<^verbatim>\<open>pkg/client/client.gen.go\<close>: the construction of clients, the builders of
  requests, the calls and the readers of the answers. What performs a request (\<^verbatim>\<open>Doer\<close>) is a
  function on a state of the network; the styling of parameters (\<^verbatim>\<open>oapi-codegen/runtime\<close>) is a
  parameter. The context of a call is left out: a cancelled one is an error of the doer.
\<close>

section \<open>Requests, answers, clients\<close>

text \<open>
  \<open>hr_Body\<close> is what reading the body to its end gives: an error or the payloads.
\<close>

record client_request =
  creq_Method :: string
  creq_URL :: url
  creq_Header :: "string \<rightharpoonup> string"
  creq_Body :: "payload option"

record http_response =
  hr_Status :: string
  hr_StatusCode :: int
  hr_Header :: "string \<rightharpoonup> string"
  hr_Body :: "string + payload list"

text \<open>A \<^verbatim>\<open>RequestEditorFn\<close> changes the request or fails.\<close>

type_synonym RequestEditorFn = "client_request \<Rightarrow> string + client_request"

type_synonym 'w HttpRequestDoer = "client_request \<Rightarrow> 'w \<Rightarrow> (string + http_response) \<times> 'w"

record 'w Client =
  cl_Server :: string
  cl_Client :: "'w HttpRequestDoer option"
  cl_RequestEditors :: "RequestEditorFn list"

type_synonym 'w ClientOption = "'w Client \<Rightarrow> string + 'w Client"

definition and_then :: "'e + 'a \<Rightarrow> ('a \<Rightarrow> 'e + 'b) \<Rightarrow> 'e + 'b" where
  "and_then r f = (case r of Inl e \<Rightarrow> Inl e | Inr x \<Rightarrow> f x)"

definition or_error :: "string \<Rightarrow> 'a option \<Rightarrow> string + 'a" where
  "or_error e r = (case r of None \<Rightarrow> Inl e | Some x \<Rightarrow> Inr x)"

lemma and_then_simps [simp]: "and_then (Inl e) f = Inl e" "and_then (Inr x) f = f x"
  by (simp_all add: and_then_def)

lemma or_error_simps [simp]: "or_error e None = Inl e" "or_error e (Some x) = Inr x"
  by (simp_all add: or_error_def)

fun apply_options :: "'w ClientOption list \<Rightarrow> 'w Client \<Rightarrow> string + 'w Client" where
  "apply_options [] client = Inr client"
| "apply_options (opt # opts) client = and_then (opt client) (apply_options opts)"

text \<open>\<open>default_doer\<close> is a new \<^verbatim>\<open>http.Client\<close>.\<close>

definition NewClient :: "'w HttpRequestDoer \<Rightarrow> string \<Rightarrow> 'w ClientOption list \<Rightarrow> string + 'w Client" where
  "NewClient default_doer server opts =
     and_then (apply_options opts \<lparr>cl_Server = server, cl_Client = None, cl_RequestEditors = []\<rparr>)
       (\<lambda>client.
         let client = (if \<not> suffix ''/'' (cl_Server client)
                       then client\<lparr>cl_Server := cl_Server client @ ''/''\<rparr> else client);
             client = (if cl_Client client = None
                       then client\<lparr>cl_Client := Some default_doer\<rparr> else client)
         in Inr client)"

definition WithHTTPClient :: "'w HttpRequestDoer \<Rightarrow> 'w ClientOption" where
  "WithHTTPClient doer c = Inr (c\<lparr>cl_Client := Some doer\<rparr>)"

definition WithRequestEditorFn :: "RequestEditorFn \<Rightarrow> 'w ClientOption" where
  "WithRequestEditorFn fn c = Inr (c\<lparr>cl_RequestEditors := cl_RequestEditors c @ [fn]\<rparr>)"

definition WithBaseURL :: "string \<Rightarrow> 'w ClientOption" where
  "WithBaseURL baseURL c =
     and_then (or_error ''parse: invalid URL'' (url_Parse baseURL))
       (\<lambda>newBaseURL. Inr (c\<lparr>cl_Server := url_String newBaseURL\<rparr>))"

section \<open>The builders of requests\<close>

text \<open>The parameter styles of the runtime: a query fragment for a name and a value, a path segment.\<close>

record param_styler =
  style_int32 :: "string \<Rightarrow> int32 \<Rightarrow> string + string"
  style_string :: "string \<Rightarrow> string \<Rightarrow> string + string"
  style_path :: "string \<Rightarrow> string \<Rightarrow> string + string"

text \<open>\<^verbatim>\<open>http.NewRequest\<close> parses the text of the URL again and drops an empty port.\<close>

definition http_NewRequest :: "string \<Rightarrow> string \<Rightarrow> payload option \<Rightarrow> string + client_request" where
  "http_NewRequest method url_text body =
     and_then (or_error ''parse: invalid URL'' (url_Parse url_text))
       (\<lambda>u. Inr \<lparr>creq_Method = method,
                 creq_URL = (if suffix '':'' (u_Host u) then u\<lparr>u_Host := butlast (u_Host u)\<rparr> else u),
                 creq_Header = Map.empty, creq_Body = body\<rparr>)"

text \<open>The URL of an operation: its path relative to the server's URL.\<close>

definition operation_url :: "string \<Rightarrow> string \<Rightarrow> string + url" where
  "operation_url server path =
     and_then (or_error ''parse: invalid URL'' (url_Parse server))
       (\<lambda>serverURL.
         let operationPath = (if hd path = CHR ''/'' then ''.'' @ path else path)
         in or_error ''parse: invalid URL'' (url_Parse_ref serverURL operationPath))"

text \<open>One optional query parameter: its fragment is parsed and its values are added.\<close>

definition add_param ::
  "('a \<Rightarrow> string + string) \<Rightarrow> 'a option \<Rightarrow> url_values \<Rightarrow> string + url_values" where
  "add_param style v queryValues =
     (case v of
        None \<Rightarrow> Inr queryValues
      | Some x \<Rightarrow>
          and_then (style x) (\<lambda>queryFrag.
          and_then (or_error ''invalid query'' (url_ParseQuery queryFrag)) (\<lambda>parsed.
          Inr (queryValues @ parsed))))"

definition NewListVolumesRequest ::
  "param_styler \<Rightarrow> string \<Rightarrow> ListVolumesParams option \<Rightarrow> string + client_request" where
  "NewListVolumesRequest S server params =
     and_then (operation_url server ''/api/v1alpha1/volumes'') (\<lambda>queryURL.
     and_then
       (case params of
          None \<Rightarrow> Inr queryURL
        | Some p \<Rightarrow>
            and_then (add_param (style_int32 S ''max_page_size'') (lp_MaxPageSize p) (url_Query queryURL))
              (\<lambda>queryValues.
            and_then (add_param (style_string S ''page_token'') (lp_PageToken p) queryValues)
              (\<lambda>queryValues. Inr (queryURL\<lparr>u_RawQuery := Values_Encode queryValues\<rparr>))))
       (\<lambda>queryURL. http_NewRequest ''GET'' (url_String queryURL) None))"

definition NewCreateVolumeRequestWithBody ::
  "param_styler \<Rightarrow> string \<Rightarrow> CreateVolumeParams option \<Rightarrow> string \<Rightarrow> payload option \<Rightarrow>
     string + client_request" where
  "NewCreateVolumeRequestWithBody S server params contentType body =
     and_then (operation_url server ''/api/v1alpha1/volumes'') (\<lambda>queryURL.
     and_then
       (case params of
          None \<Rightarrow> Inr queryURL
        | Some p \<Rightarrow>
            and_then (add_param (style_string S ''id'') (cp_Id p) (url_Query queryURL))
              (\<lambda>queryValues. Inr (queryURL\<lparr>u_RawQuery := Values_Encode queryValues\<rparr>)))
       (\<lambda>queryURL.
     and_then (http_NewRequest ''POST'' (url_String queryURL) body)
       (\<lambda>req. Inr (req\<lparr>creq_Header := (creq_Header req)(''Content-Type'' \<mapsto> contentType)\<rparr>))))"

definition NewCreateVolumeRequest ::
  "param_styler \<Rightarrow> time_text \<Rightarrow> string \<Rightarrow> CreateVolumeParams option \<Rightarrow> Volume \<Rightarrow>
     string + client_request" where
  "NewCreateVolumeRequest S T server params body =
     and_then (or_error ''json: unsupported value'' (Marshal_Volume T body))
       (\<lambda>buf. NewCreateVolumeRequestWithBody S server params ''application/json'' (Some (JsonDoc buf)))"

definition NewGetHealthRequest :: "string \<Rightarrow> string + client_request" where
  "NewGetHealthRequest server =
     and_then (operation_url server ''/api/v1alpha1/volumes/health'')
       (\<lambda>queryURL. http_NewRequest ''GET'' (url_String queryURL) None)"

definition NewDeleteVolumeRequest :: "param_styler \<Rightarrow> string \<Rightarrow> string \<Rightarrow> string + client_request" where
  "NewDeleteVolumeRequest S server volumeId =
     and_then (style_path S ''volume_id'' volumeId) (\<lambda>pathParam0.
     and_then (operation_url server (''/api/v1alpha1/volumes/'' @ pathParam0)) (\<lambda>queryURL.
     http_NewRequest ''DELETE'' (url_String queryURL) None))"

definition NewGetVolumeRequest :: "param_styler \<Rightarrow> string \<Rightarrow> string \<Rightarrow> string + client_request" where
  "NewGetVolumeRequest S server volumeId =
     and_then (style_path S ''volume_id'' volumeId) (\<lambda>pathParam0.
     and_then (operation_url server (''/api/v1alpha1/volumes/'' @ pathParam0)) (\<lambda>queryURL.
     http_NewRequest ''GET'' (url_String queryURL) None))"

section \<open>Calls\<close>

fun apply_editors :: "RequestEditorFn list \<Rightarrow> client_request \<Rightarrow> string + client_request" where
  "apply_editors [] req = Inr req"
| "apply_editors (r # rs) req = and_then (r req) (apply_editors rs)"

definition applyEditors :: "'w Client \<Rightarrow> client_request \<Rightarrow> RequestEditorFn list \<Rightarrow> string + client_request" where
  "applyEditors c req additionalEditors =
     and_then (apply_editors (cl_RequestEditors c) req) (apply_editors additionalEditors)"

text \<open>
  What every call does with the request it has built. A client without a doer (never one that
  \<^verbatim>\<open>NewClient\<close> made) panics here, which the model answers as an error.
\<close>

type_synonym 'w client_call = "'w \<Rightarrow> (string + http_response) \<times> 'w"

definition perform_request ::
  "'w Client \<Rightarrow> string + client_request \<Rightarrow> RequestEditorFn list \<Rightarrow> 'w client_call" where
  "perform_request c req reqEditors w =
     (case and_then req (\<lambda>r. applyEditors c r reqEditors) of
        Inl err \<Rightarrow> (Inl err, w)
      | Inr r \<Rightarrow>
          (case cl_Client c of
             None \<Rightarrow> (Inl ''nil pointer dereference'', w)
           | Some doer \<Rightarrow> doer r w))"

definition client_ListVolumes ::
  "param_styler \<Rightarrow> 'w Client \<Rightarrow> ListVolumesParams option \<Rightarrow> RequestEditorFn list \<Rightarrow> 'w client_call" where
  "client_ListVolumes S c params reqEditors =
     perform_request c (NewListVolumesRequest S (cl_Server c) params) reqEditors"

definition client_CreateVolumeWithBody ::
  "param_styler \<Rightarrow> 'w Client \<Rightarrow> CreateVolumeParams option \<Rightarrow> string \<Rightarrow> payload option \<Rightarrow>
     RequestEditorFn list \<Rightarrow> 'w client_call" where
  "client_CreateVolumeWithBody S c params contentType body reqEditors =
     perform_request c (NewCreateVolumeRequestWithBody S (cl_Server c) params contentType body) reqEditors"

definition client_CreateVolume ::
  "param_styler \<Rightarrow> time_text \<Rightarrow> 'w Client \<Rightarrow> CreateVolumeParams option \<Rightarrow> Volume \<Rightarrow>
     RequestEditorFn list \<Rightarrow> 'w client_call" where
  "client_CreateVolume S T c params body reqEditors =
     perform_request c (NewCreateVolumeRequest S T (cl_Server c) params body) reqEditors"

definition client_GetHealth :: "'w Client \<Rightarrow> RequestEditorFn list \<Rightarrow> 'w client_call" where
  "client_GetHealth c reqEditors = perform_request c (NewGetHealthRequest (cl_Server c)) reqEditors"

definition client_DeleteVolume ::
  "param_styler \<Rightarrow> 'w Client \<Rightarrow> string \<Rightarrow> RequestEditorFn list \<Rightarrow> 'w client_call" where
  "client_DeleteVolume S c volumeId reqEditors =
     perform_request c (NewDeleteVolumeRequest S (cl_Server c) volumeId) reqEditors"

definition client_GetVolume ::
  "param_styler \<Rightarrow> 'w Client \<Rightarrow> string \<Rightarrow> RequestEditorFn list \<Rightarrow> 'w client_call" where
  "client_GetVolume S c volumeId reqEditors =
     perform_request c (NewGetVolumeRequest S (cl_Server c) volumeId) reqEditors"

text \<open>The interface, and the client as its implementation.\<close>

record 'w ClientInterface =
  ci_ListVolumes :: "ListVolumesParams option \<Rightarrow> RequestEditorFn list \<Rightarrow> 'w client_call"
  ci_CreateVolumeWithBody ::
    "CreateVolumeParams option \<Rightarrow> string \<Rightarrow> payload option \<Rightarrow> RequestEditorFn list \<Rightarrow> 'w client_call"
  ci_CreateVolume :: "CreateVolumeParams option \<Rightarrow> Volume \<Rightarrow> RequestEditorFn list \<Rightarrow> 'w client_call"
  ci_GetHealth :: "RequestEditorFn list \<Rightarrow> 'w client_call"
  ci_DeleteVolume :: "string \<Rightarrow> RequestEditorFn list \<Rightarrow> 'w client_call"
  ci_GetVolume :: "string \<Rightarrow> RequestEditorFn list \<Rightarrow> 'w client_call"

definition client_interface :: "param_styler \<Rightarrow> time_text \<Rightarrow> 'w Client \<Rightarrow> 'w ClientInterface" where
  "client_interface S T c =
     \<lparr>ci_ListVolumes = client_ListVolumes S c, ci_CreateVolumeWithBody = client_CreateVolumeWithBody S c,
      ci_CreateVolume = client_CreateVolume S T c, ci_GetHealth = client_GetHealth c,
      ci_DeleteVolume = client_DeleteVolume S c, ci_GetVolume = client_GetVolume S c\<rparr>"

text \<open>\<^verbatim>\<open>ClientWithResponses\<close> is a struct around the interface.\<close>

definition NewClientWithResponses ::
  "param_styler \<Rightarrow> time_text \<Rightarrow> 'w HttpRequestDoer \<Rightarrow> string \<Rightarrow> 'w ClientOption list \<Rightarrow>
     string + 'w ClientInterface" where
  "NewClientWithResponses S T default_doer server opts =
     and_then (NewClient default_doer server opts) (\<lambda>client. Inr (client_interface S T client))"

section \<open>Answers\<close>

record ClientListVolumesResponse =
  clr_Body :: "payload list"
  clr_HTTPResponse :: "http_response option"
  clr_JSON200 :: "VolumeList option"
  clr_JSON400 :: "Error option"
  clr_JSON500 :: "Error option"

record ClientCreateVolumeResponse =
  ccr_Body :: "payload list"
  ccr_HTTPResponse :: "http_response option"
  ccr_JSON201 :: "Volume option"
  ccr_JSON400 :: "Error option"
  ccr_JSON409 :: "Error option"
  ccr_JSON422 :: "Error option"
  ccr_JSON500 :: "Error option"

record ClientGetHealthResponse =
  chr_Body :: "payload list"
  chr_HTTPResponse :: "http_response option"
  chr_JSON200 :: "Health option"

record ClientDeleteVolumeResponse =
  cdr_Body :: "payload list"
  cdr_HTTPResponse :: "http_response option"
  cdr_JSON404 :: "Error option"
  cdr_JSON500 :: "Error option"

record ClientGetVolumeResponse =
  cgr_Body :: "payload list"
  cgr_HTTPResponse :: "http_response option"
  cgr_JSON200 :: "Volume option"
  cgr_JSON404 :: "Error option"
  cgr_JSON500 :: "Error option"

text \<open>The methods \<^verbatim>\<open>Status\<close> and \<^verbatim>\<open>StatusCode\<close> of the five types; \<^verbatim>\<open>http.StatusText(0)\<close> is empty.\<close>

definition http_status :: "http_response option \<Rightarrow> string" where
  "http_status rsp = (case rsp of Some r \<Rightarrow> hr_Status r | None \<Rightarrow> '''')"

definition http_status_code :: "http_response option \<Rightarrow> int" where
  "http_status_code rsp = (case rsp of Some r \<Rightarrow> hr_StatusCode r | None \<Rightarrow> 0)"

definition ListVolumesResponse_Status :: "ClientListVolumesResponse \<Rightarrow> string" where
  "ListVolumesResponse_Status r = http_status (clr_HTTPResponse r)"

definition ListVolumesResponse_StatusCode :: "ClientListVolumesResponse \<Rightarrow> int" where
  "ListVolumesResponse_StatusCode r = http_status_code (clr_HTTPResponse r)"

definition CreateVolumeResponse_Status :: "ClientCreateVolumeResponse \<Rightarrow> string" where
  "CreateVolumeResponse_Status r = http_status (ccr_HTTPResponse r)"

definition CreateVolumeResponse_StatusCode :: "ClientCreateVolumeResponse \<Rightarrow> int" where
  "CreateVolumeResponse_StatusCode r = http_status_code (ccr_HTTPResponse r)"

definition GetHealthResponse_Status :: "ClientGetHealthResponse \<Rightarrow> string" where
  "GetHealthResponse_Status r = http_status (chr_HTTPResponse r)"

definition GetHealthResponse_StatusCode :: "ClientGetHealthResponse \<Rightarrow> int" where
  "GetHealthResponse_StatusCode r = http_status_code (chr_HTTPResponse r)"

definition DeleteVolumeResponse_Status :: "ClientDeleteVolumeResponse \<Rightarrow> string" where
  "DeleteVolumeResponse_Status r = http_status (cdr_HTTPResponse r)"

definition DeleteVolumeResponse_StatusCode :: "ClientDeleteVolumeResponse \<Rightarrow> int" where
  "DeleteVolumeResponse_StatusCode r = http_status_code (cdr_HTTPResponse r)"

definition GetVolumeResponse_Status :: "ClientGetVolumeResponse \<Rightarrow> string" where
  "GetVolumeResponse_Status r = http_status (cgr_HTTPResponse r)"

definition GetVolumeResponse_StatusCode :: "ClientGetVolumeResponse \<Rightarrow> int" where
  "GetVolumeResponse_StatusCode r = http_status_code (cgr_HTTPResponse r)"

section \<open>Reading the answers\<close>

text \<open>The test of a case: a content type with \<^verbatim>\<open>json\<close> in it, and the status.\<close>

definition json_answer :: "http_response \<Rightarrow> int \<Rightarrow> bool" where
  "json_answer rsp code \<longleftrightarrow>
     contains (case hr_Header rsp ''Content-Type'' of Some v \<Rightarrow> v | None \<Rightarrow> '''') ''json'' \<and>
     hr_StatusCode rsp = code"

text \<open>\<^verbatim>\<open>json.Unmarshal\<close> of the bytes of a body into a new zero value.\<close>

definition json_Unmarshal :: "'a decoder \<Rightarrow> 'a \<Rightarrow> payload list \<Rightarrow> string + 'a" where
  "json_Unmarshal d zero bodyBytes =
     (case bodyBytes of
        [JsonDoc j] \<Rightarrow> or_error ''json: cannot unmarshal'' (d j zero)
      | _ \<Rightarrow> Inl ''invalid JSON'')"

definition ParseListVolumesResponse ::
  "time_text \<Rightarrow> http_response \<Rightarrow> string + ClientListVolumesResponse" where
  "ParseListVolumesResponse T rsp =
     and_then (hr_Body rsp) (\<lambda>bodyBytes.
       let response = \<lparr>clr_Body = bodyBytes, clr_HTTPResponse = Some rsp, clr_JSON200 = None,
                       clr_JSON400 = None, clr_JSON500 = None\<rparr>
       in if json_answer rsp 200 then
            and_then (json_Unmarshal (Unmarshal_VolumeList T) zero_list bodyBytes)
              (\<lambda>dest. Inr (response\<lparr>clr_JSON200 := Some dest\<rparr>))
          else if json_answer rsp 400 then
            and_then (json_Unmarshal Unmarshal_Error zero_error bodyBytes)
              (\<lambda>dest. Inr (response\<lparr>clr_JSON400 := Some dest\<rparr>))
          else if json_answer rsp 500 then
            and_then (json_Unmarshal Unmarshal_Error zero_error bodyBytes)
              (\<lambda>dest. Inr (response\<lparr>clr_JSON500 := Some dest\<rparr>))
          else Inr response)"

definition ParseCreateVolumeResponse ::
  "time_text \<Rightarrow> http_response \<Rightarrow> string + ClientCreateVolumeResponse" where
  "ParseCreateVolumeResponse T rsp =
     and_then (hr_Body rsp) (\<lambda>bodyBytes.
       let response = \<lparr>ccr_Body = bodyBytes, ccr_HTTPResponse = Some rsp, ccr_JSON201 = None,
                       ccr_JSON400 = None, ccr_JSON409 = None, ccr_JSON422 = None, ccr_JSON500 = None\<rparr>
       in if json_answer rsp 201 then
            and_then (json_Unmarshal (Unmarshal_Volume T) zero_volume bodyBytes)
              (\<lambda>dest. Inr (response\<lparr>ccr_JSON201 := Some dest\<rparr>))
          else if json_answer rsp 400 then
            and_then (json_Unmarshal Unmarshal_Error zero_error bodyBytes)
              (\<lambda>dest. Inr (response\<lparr>ccr_JSON400 := Some dest\<rparr>))
          else if json_answer rsp 409 then
            and_then (json_Unmarshal Unmarshal_Error zero_error bodyBytes)
              (\<lambda>dest. Inr (response\<lparr>ccr_JSON409 := Some dest\<rparr>))
          else if json_answer rsp 422 then
            and_then (json_Unmarshal Unmarshal_Error zero_error bodyBytes)
              (\<lambda>dest. Inr (response\<lparr>ccr_JSON422 := Some dest\<rparr>))
          else if json_answer rsp 500 then
            and_then (json_Unmarshal Unmarshal_Error zero_error bodyBytes)
              (\<lambda>dest. Inr (response\<lparr>ccr_JSON500 := Some dest\<rparr>))
          else Inr response)"

definition ParseGetHealthResponse :: "http_response \<Rightarrow> string + ClientGetHealthResponse" where
  "ParseGetHealthResponse rsp =
     and_then (hr_Body rsp) (\<lambda>bodyBytes.
       let response = \<lparr>chr_Body = bodyBytes, chr_HTTPResponse = Some rsp, chr_JSON200 = None\<rparr>
       in if json_answer rsp 200 then
            and_then (json_Unmarshal Unmarshal_Health zero_health bodyBytes)
              (\<lambda>dest. Inr (response\<lparr>chr_JSON200 := Some dest\<rparr>))
          else Inr response)"

definition ParseDeleteVolumeResponse :: "http_response \<Rightarrow> string + ClientDeleteVolumeResponse" where
  "ParseDeleteVolumeResponse rsp =
     and_then (hr_Body rsp) (\<lambda>bodyBytes.
       let response = \<lparr>cdr_Body = bodyBytes, cdr_HTTPResponse = Some rsp, cdr_JSON404 = None,
                       cdr_JSON500 = None\<rparr>
       in if json_answer rsp 404 then
            and_then (json_Unmarshal Unmarshal_Error zero_error bodyBytes)
              (\<lambda>dest. Inr (response\<lparr>cdr_JSON404 := Some dest\<rparr>))
          else if json_answer rsp 500 then
            and_then (json_Unmarshal Unmarshal_Error zero_error bodyBytes)
              (\<lambda>dest. Inr (response\<lparr>cdr_JSON500 := Some dest\<rparr>))
          else Inr response)"

definition ParseGetVolumeResponse ::
  "time_text \<Rightarrow> http_response \<Rightarrow> string + ClientGetVolumeResponse" where
  "ParseGetVolumeResponse T rsp =
     and_then (hr_Body rsp) (\<lambda>bodyBytes.
       let response = \<lparr>cgr_Body = bodyBytes, cgr_HTTPResponse = Some rsp, cgr_JSON200 = None,
                       cgr_JSON404 = None, cgr_JSON500 = None\<rparr>
       in if json_answer rsp 200 then
            and_then (json_Unmarshal (Unmarshal_Volume T) zero_volume bodyBytes)
              (\<lambda>dest. Inr (response\<lparr>cgr_JSON200 := Some dest\<rparr>))
          else if json_answer rsp 404 then
            and_then (json_Unmarshal Unmarshal_Error zero_error bodyBytes)
              (\<lambda>dest. Inr (response\<lparr>cgr_JSON404 := Some dest\<rparr>))
          else if json_answer rsp 500 then
            and_then (json_Unmarshal Unmarshal_Error zero_error bodyBytes)
              (\<lambda>dest. Inr (response\<lparr>cgr_JSON500 := Some dest\<rparr>))
          else Inr response)"

text \<open>A call and its reader.\<close>

definition with_reader ::
  "'w client_call \<Rightarrow> (http_response \<Rightarrow> string + 'r) \<Rightarrow> 'w \<Rightarrow> (string + 'r) \<times> 'w" where
  "with_reader call parse w =
     (case call w of
        (Inl err, w') \<Rightarrow> (Inl err, w')
      | (Inr rsp, w') \<Rightarrow> (parse rsp, w'))"

definition ListVolumesWithResponse where
  "ListVolumesWithResponse T ci params reqEditors =
     with_reader (ci_ListVolumes ci params reqEditors) (ParseListVolumesResponse T)"

definition CreateVolumeWithBodyWithResponse where
  "CreateVolumeWithBodyWithResponse T ci params contentType body reqEditors =
     with_reader (ci_CreateVolumeWithBody ci params contentType body reqEditors) (ParseCreateVolumeResponse T)"

definition CreateVolumeWithResponse where
  "CreateVolumeWithResponse T ci params body reqEditors =
     with_reader (ci_CreateVolume ci params body reqEditors) (ParseCreateVolumeResponse T)"

definition GetHealthWithResponse where
  "GetHealthWithResponse ci reqEditors =
     with_reader (ci_GetHealth ci reqEditors) ParseGetHealthResponse"

definition DeleteVolumeWithResponse where
  "DeleteVolumeWithResponse ci volumeId reqEditors =
     with_reader (ci_DeleteVolume ci volumeId reqEditors) ParseDeleteVolumeResponse"

definition GetVolumeWithResponse where
  "GetVolumeWithResponse T ci volumeId reqEditors =
     with_reader (ci_GetVolume ci volumeId reqEditors) (ParseGetVolumeResponse T)"

end
