(* ===== verification/Client_Server.thy ===== *)
theory Client_Server
  imports Http_Service Client_Gen
begin

text \<open>
  The generated client against the assembled server: which requests the client builds, how they
  reach the server over a connection, and what the client makes of the answers.
\<close>

section \<open>The styles of parameters\<close>

text \<open>
  A query parameter is its name with its escaped value, a path parameter its escaped value.
\<close>

locale param_styling =
  fixes S :: param_styler
  assumes int32_form: "style_int32 S k n = Inr (k @ ''='' @ QueryEscape (show_int (sint n)))"
    and string_form: "style_string S k v = Inr (k @ ''='' @ QueryEscape v)"
    and path_simple: "style_path S k v = Inr (PathEscape v)"

section \<open>Requests of the client\<close>

definition api_origin :: "string \<Rightarrow> string \<Rightarrow> string" where
  "api_origin scheme host = scheme @ ''://'' @ host"

definition api_path :: "string \<Rightarrow> string" where
  "api_path tail = ''api/v1alpha1/volumes'' @ tail"

text \<open>The last part of a path of the API: nothing, or a plain segment.\<close>

definition path_tail :: "string \<Rightarrow> bool" where
  "path_tail tail \<longleftrightarrow> tail = [] \<or>
     (\<exists>seg. tail = CHR ''/'' # seg \<and> seg \<notin> {[], ''.'', ''..''} \<and> CHR ''/'' \<notin> set seg \<and> list_all path_char seg)"

lemma api_path_plain:
  assumes "path_tail tail"
  shows "list_all path_char (api_path tail)" and "dot_free (api_path tail)" and "\<not> prefix ''/'' (api_path tail)"
    and "plain_path (CHR ''/'' # api_path tail)"
proof -
  have base: "list_all path_char ''api/v1alpha1/volumes''"
    by (simp add: path_char_def shouldEscape.simps is_alnum_def)
  have slash: "path_char CHR ''/''" by (simp add: path_char_def shouldEscape.simps is_alnum_def)
  show p: "list_all path_char (api_path tail)"
    using assms base slash by (auto simp: api_path_def path_tail_def)
  have "splits CHR ''/'' (''api/v1alpha1/volumes'' @ CHR ''/'' # seg) =
      splits CHR ''/'' ''api/v1alpha1/volumes'' @ splits CHR ''/'' seg" for seg
    by (rule splits_append)
  then show "dot_free (api_path tail)"
    using assms by (auto simp: api_path_def path_tail_def dot_free_def)
  show n: "\<not> prefix ''/'' (api_path tail)" by (simp add: api_path_def)
  show "plain_path (CHR ''/'' # api_path tail)" using p slash n by (simp add: plain_path_def)
qed

lemma root_path: "plain_path ''/''"
  by (simp add: plain_path_def path_char_def shouldEscape.simps is_alnum_def)

lemma operation_url_api:
  assumes "valid_scheme scheme" and "valid_host host" and "path_tail tail"
  shows "operation_url (api_origin scheme host @ ''/'') (CHR ''/'' # api_path tail) =
    Inr (absolute_url scheme host (CHR ''/'' # api_path tail) [])"
proof -
  have "url_Parse (api_origin scheme host @ ''/'') = Some (absolute_url scheme host ''/'' [])"
    using parse_absolute [OF assms(1,2) root_path, of "[]"] by (simp add: api_origin_def with_query_def)
  moreover have "scheme \<noteq> []" using assms(1) by (simp add: valid_scheme_def)
  ultimately show ?thesis
    using reference_below_root [OF api_path_plain(1-3) [OF assms(3)]] by (simp add: operation_url_def)
qed

text \<open>The request for an API path and a query, as the client sends it.\<close>

definition api_request :: "string \<Rightarrow> string \<Rightarrow> string \<Rightarrow> string \<Rightarrow> string \<Rightarrow> payload option \<Rightarrow> client_request" where
  "api_request scheme host meth tail q body =
     \<lparr>creq_Method = meth,
      creq_URL = absolute_url scheme (if suffix '':'' host then butlast host else host)
        (CHR ''/'' # api_path tail) q,
      creq_Header = Map.empty, creq_Body = body\<rparr>"

lemma NewRequest_api:
  assumes "valid_scheme scheme" and "valid_host host" and "path_tail tail" and "list_all query_char q"
  shows "http_NewRequest meth (url_String (absolute_url scheme host (CHR ''/'' # api_path tail) q)) body =
    Inr (api_request scheme host meth tail q body)"
proof -
  have "scheme \<noteq> []" "host \<noteq> []" using assms(1,2) by (simp_all add: valid_scheme_def valid_host_def)
  note str = absolute_String [OF this api_path_plain(4) [OF assms(3)], of q]
  show ?thesis
    unfolding http_NewRequest_def str parse_absolute [OF assms(1,2) api_path_plain(4) [OF assms(3)] assms(4)]
    by (simp add: api_request_def) (simp add: absolute_url_def)
qed

lemma absolute_query [simp]:
  "url_Query (absolute_url scheme host p []) = []"
  "(absolute_url scheme host p q)\<lparr>u_RawQuery := q'\<rparr> = absolute_url scheme host p q'"
  by (simp_all add: url_Query_def absolute_url_def parsed_query_def query_pair_def List.map_filter_simps)

lemma volumes_path: "''/api/v1alpha1/volumes'' = CHR ''/'' # api_path []"
  by (simp add: api_path_def)

lemma no_tail: "path_tail []" by (simp add: path_tail_def)

lemma volume_path: "''/api/v1alpha1/volumes/'' @ seg = CHR ''/'' # api_path (CHR ''/'' # seg)"
  by (simp add: api_path_def)

lemma parse_param: "QueryEscape k = k \<Longrightarrow> url_ParseQuery (k @ ''='' @ QueryEscape v) = Some [(k, v)]"
  using parsed_Encode(2) [of "[(k, v)]"] by (simp add: Values_Encode_def query_frag_def)

lemma param_names [simp]:
  "QueryEscape ''id'' = ''id''" "QueryEscape ''page_token'' = ''page_token''"
  "QueryEscape ''max_page_size'' = ''max_page_size''"
  by (simp_all add: QueryEscape_def escape_def escape_char_def shouldEscape.simps is_alnum_def)

lemma segment_plain:
  assumes "seg \<notin> {[], ''.'', ''..''}" and "CHR ''/'' \<notin> set seg" and "list_all path_char seg"
  shows "path_tail (CHR ''/'' # seg)"
  using assms by (simp add: path_tail_def)

text \<open>Ids of the API need no escape.\<close>

lemma aep122_plain:
  assumes "aep122 i"
  shows "PathEscape i = i" and "path_tail (CHR ''/'' # i)"
proof -
  have ok: "list_all (\<lambda>c. \<not> shouldEscape c encodePathSegment \<and> path_char c \<and> c \<noteq> CHR ''.'') (alnum @ ''-'')"
    by code_simp
  have c: "c \<in> set i \<Longrightarrow> \<not> shouldEscape c encodePathSegment \<and> path_char c \<and> c \<noteq> CHR ''.''" for c
    using assms ok unfolding aep122_def list_all_iff by blast
  show "PathEscape i = i" unfolding PathEscape_def
    by (rule escape_plain) (simp add: list_all_iff c)
  have "list_all path_char i" by (simp add: list_all_iff c)
  moreover have "i \<notin> {''.'', ''..''}" using c [of "CHR ''.''"] by auto
  ultimately show "path_tail (CHR ''/'' # i)" using aep122_segment(1,2) [OF assms] by (simp add: path_tail_def)
qed

section \<open>Operations as the client calls them\<close>

definition opt_pair :: "string \<Rightarrow> string option \<Rightarrow> url_values" where
  "opt_pair k v = (case v of None \<Rightarrow> [] | Some x \<Rightarrow> [(k, x)])"

fun op_method :: "strict_request \<Rightarrow> string" where
  "op_method (ReqCreateVolume _) = ''POST''"
| "op_method (ReqDeleteVolume _) = ''DELETE''"
| "op_method _ = ''GET''"

fun op_tail :: "strict_request \<Rightarrow> string" where
  "op_tail ReqGetHealth = ''/health''"
| "op_tail (ReqGetVolume i) = CHR ''/'' # i"
| "op_tail (ReqDeleteVolume i) = CHR ''/'' # i"
| "op_tail _ = []"

fun op_values :: "strict_request \<Rightarrow> url_values" where
  "op_values (ReqListVolumes p) =
     opt_pair ''max_page_size'' (map_option (\<lambda>n. show_int (sint n)) (lp_MaxPageSize p)) @
     opt_pair ''page_token'' (lp_PageToken p)"
| "op_values (ReqCreateVolume r) = opt_pair ''id'' (cp_Id (cvr_Params r))"
| "op_values _ = []"

fun op_body :: "time_text \<Rightarrow> strict_request \<Rightarrow> json_value option" where
  "op_body T (ReqCreateVolume r) = Option.bind (cvr_Body r) (Marshal_Volume T)"
| "op_body T _ = None"

text \<open>
  What the API can be asked for: the ids it accepts (\<^verbatim>\<open>health\<close> is another operation), and a volume
  that can be encoded.
\<close>

fun addressable :: "time_text \<Rightarrow> strict_request \<Rightarrow> bool" where
  "addressable T (ReqGetVolume i) \<longleftrightarrow> aep122 i \<and> i \<noteq> ''health''"
| "addressable T (ReqDeleteVolume i) \<longleftrightarrow> aep122 i \<and> i \<noteq> ''health''"
| "addressable T (ReqCreateVolume r) \<longleftrightarrow>
     (case cvr_Body r of None \<Rightarrow> False | Some b \<Rightarrow> canonical_volume b \<and> Marshal_Volume T b \<noteq> None)"
| "addressable T _ \<longleftrightarrow> True"

text \<open>The request as the server reads it.\<close>

definition op_request :: "time_text \<Rightarrow> strict_request \<Rightarrow> http_request" where
  "op_request T req =
     \<lparr>rq_Method = op_method req, rq_Path = CHR ''/'' # api_path (op_tail req),
      rq_Query = sort_key fst (op_values req),
      rq_URI = CHR ''/'' # api_path (op_tail req) @ with_query (Values_Encode (op_values req)),
      rq_Body = op_body T req, rq_URLParams = [], rq_Deadline = None\<rparr>"

text \<open>The builder of the operation.\<close>

definition build_request ::
  "param_styler \<Rightarrow> time_text \<Rightarrow> string \<Rightarrow> strict_request \<Rightarrow> string + client_request" where
  "build_request S T server req =
     (case req of
        ReqListVolumes p \<Rightarrow> NewListVolumesRequest S server (Some p)
      | ReqCreateVolume r \<Rightarrow>
          (case cvr_Body r of
             None \<Rightarrow> NewCreateVolumeRequestWithBody S server (Some (cvr_Params r)) ''application/json'' None
           | Some b \<Rightarrow> NewCreateVolumeRequest S T server (Some (cvr_Params r)) b)
      | ReqGetHealth \<Rightarrow> NewGetHealthRequest server
      | ReqDeleteVolume i \<Rightarrow> NewDeleteVolumeRequest S server i
      | ReqGetVolume i \<Rightarrow> NewGetVolumeRequest S server i)"

lemma op_tail_ok: "addressable T req \<Longrightarrow> path_tail (op_tail req)"
proof (cases req)
  case ReqGetHealth
  have "path_tail (CHR ''/'' # ''health'')"
    by (rule segment_plain) (simp_all add: path_char_def shouldEscape.simps is_alnum_def)
  then show ?thesis using ReqGetHealth by simp
qed (simp_all add: no_tail aep122_plain)

context param_styling
begin

lemma add_string:
  "QueryEscape k = k \<Longrightarrow> add_param (style_string S k) v vs = Inr (vs @ opt_pair k v)"
  by (cases v) (simp_all add: add_param_def string_form parse_param [simplified] opt_pair_def)

lemma add_int32:
  "QueryEscape k = k \<Longrightarrow> add_param (style_int32 S k) v vs =
     Inr (vs @ opt_pair k (map_option (\<lambda>n. show_int (sint n)) v))"
  by (cases v) (simp_all add: add_param_def int32_form parse_param [simplified] opt_pair_def)

text \<open>Every builder gives the request of its operation.\<close>

lemma built:
  assumes "valid_scheme scheme" and "valid_host host" and "addressable T req"
  shows "\<exists>hd. build_request S T (api_origin scheme host @ ''/'') req =
    Inr ((api_request scheme host (op_method req) (op_tail req) (Values_Encode (op_values req))
       (map_option JsonDoc (op_body T req)))\<lparr>creq_Header := hd\<rparr>)"
proof -
  note tail = op_tail_ok [OF assms(3)]
  note ou = operation_url_api [OF assms(1,2) tail]
  note nr = NewRequest_api [OF assms(1,2) tail Encode_chars]
  have nil: "Values_Encode [] = []" by (simp add: Values_Encode_def)
  have hdr: "r\<lparr>creq_Header := Map.empty\<rparr> = r" if "creq_Header r = Map.empty" for r
    using that by (cases r) simp
  have [simp]: "creq_Header (api_request scheme host m t q b) = Map.empty" for m t q b
    by (simp add: api_request_def)
  show ?thesis
  proof (cases req)
    case ReqGetHealth
    then show ?thesis using ou nr [of "''GET''" "[]" None]
      by (intro exI [of _ Map.empty]) (simp add: build_request_def NewGetHealthRequest_def api_path_def nil hdr)
  next
    case (ReqListVolumes p)
    then show ?thesis using ou nr [of "''GET''" "op_values req" None]
      by (intro exI [of _ Map.empty])
        (simp add: build_request_def NewListVolumesRequest_def volumes_path add_string add_int32 hdr)
  next
    case (ReqCreateVolume r)
    then obtain b j where b: "cvr_Body r = Some b" "Marshal_Volume T b = Some j"
      using assms(3) by (auto split: option.splits)
    then show ?thesis using ReqCreateVolume ou nr [of "''POST''" "op_values req" "Some (JsonDoc j)"]
      by (simp add: build_request_def NewCreateVolumeRequest_def NewCreateVolumeRequestWithBody_def
          volumes_path add_string) blast
  next
    case (ReqGetVolume i)
    then show ?thesis using ou nr [of "''GET''" "[]" None] aep122_plain(1) [of i] assms(3)
      by (intro exI [of _ Map.empty])
        (simp add: build_request_def NewGetVolumeRequest_def path_simple api_path_def nil hdr)
  next
    case (ReqDeleteVolume i)
    then show ?thesis using ou nr [of "''DELETE''" "[]" None] aep122_plain(1) [of i] assms(3)
      by (intro exI [of _ Map.empty])
        (simp add: build_request_def NewDeleteVolumeRequest_def path_simple api_path_def nil hdr)
  qed
qed

end

section \<open>The connection\<close>

text \<open>
  A request on the wire: the server parses the target again, and routes by the raw path when
  there is one. The answer is the status line, the header fields sent with it and the body; a
  handler that never wrote anything answers 200. \<open>status_text\<close> is \<^verbatim>\<open>http.StatusText\<close>.
\<close>

definition received :: "client_request \<Rightarrow> http_request option" where
  "received r =
     map_option (\<lambda>u.
       \<lparr>rq_Method = creq_Method r,
        rq_Path = (if u_RawPath u \<noteq> [] then u_RawPath u else u_Path u),
        rq_Query = url_Query u, rq_URI = RequestURI u,
        rq_Body = (case creq_Body r of Some (JsonDoc j) \<Rightarrow> Some j | _ \<Rightarrow> None),
        rq_URLParams = [], rq_Deadline = None\<rparr>)
     (url_ParseRequestURI (RequestURI (creq_URL r)))"

definition response_of :: "(int \<Rightarrow> string) \<Rightarrow> wire \<Rightarrow> http_response" where
  "response_of status_text w =
     (let (code, h) = (case wr_sent w of None \<Rightarrow> (200, wr_header w) | Some ch \<Rightarrow> ch)
      in \<lparr>hr_Status = show_int code @ '' '' @ status_text code, hr_StatusCode = code, hr_Header = h,
          hr_Body = Inr (wr_body w)\<rparr>)"

text \<open>
  A doer that talks to a server: a target the server cannot parse is answered 400 without its
  handler, and a handler that panics breaks the connection.
\<close>

definition connection ::
  "(int \<Rightarrow> string) \<Rightarrow> (http_request \<Rightarrow> 'w server_state \<Rightarrow> outcome \<times> wire \<times> 'w server_state) \<Rightarrow>
     'w server_state HttpRequestDoer" where
  "connection status_text serve r s =
     (case received r of
        None \<Rightarrow>
          (Inr \<lparr>hr_Status = ''400 Bad Request'', hr_StatusCode = 400,
                hr_Header = [''Content-Type'' \<mapsto> ''text/plain; charset=utf-8''],
                hr_Body = Inr [PlainText ''400 Bad Request'']\<rparr>, s)
      | Some q \<Rightarrow>
          (case serve q s of
             (Completed, w, s') \<Rightarrow> (Inr (response_of status_text w), s')
           | (Panicked _, _, s') \<Rightarrow> (Inl ''EOF'', s')))"

lemma received_api:
  assumes "path_tail tail"
  shows "received ((api_request scheme host meth tail (Values_Encode vs) b)\<lparr>creq_Header := hdr\<rparr>) =
    Some \<lparr>rq_Method = meth, rq_Path = CHR ''/'' # api_path tail, rq_Query = sort_key fst vs,
      rq_URI = CHR ''/'' # api_path tail @ with_query (Values_Encode vs),
      rq_Body = (case b of Some (JsonDoc j) \<Rightarrow> Some j | _ \<Rightarrow> None), rq_URLParams = [], rq_Deadline = None\<rparr>"
proof -
  note pp = api_path_plain(4) [OF assms]
  show ?thesis
    using parse_target [OF pp Encode_chars [of vs]] absolute_RequestURI [OF pp]
    by (simp add: received_def api_request_def) (simp add: absolute_url_def empty_url_def url_Query_def parsed_Encode)
qed

lemma filter_key: "filter (\<lambda>(k', _). k' = k) (sort_key fst vs) = filter (\<lambda>(k', _). k' = k) vs"
proof -
  have "filter (\<lambda>(k', _). k' = k) (sort_key fst vs) = sort_key fst (filter (\<lambda>(k', _). k' = k) vs)"
    by (rule filter_sort)
  also have "\<dots> = filter (\<lambda>(k', _). k' = k) vs"
    by (rule sort_key_id_if_sorted) (induction vs; auto)
  finally show ?thesis .
qed

lemma query_is_sorted: "query_is k (sort_key fst vs) v \<longleftrightarrow> query_is k vs v"
  unfolding query_is_def filter_key by (simp split: option.splits)

lemma query_is_pair [simp]:
  "query_is k (opt_pair k v) v"
  "k \<noteq> k' \<Longrightarrow> query_is k (opt_pair k v @ opt_pair k' v') v"
  "k \<noteq> k' \<Longrightarrow> query_is k' (opt_pair k v @ opt_pair k' v') v'"
  by (cases v; cases v'; simp add: query_is_def opt_pair_def)+


section \<open>What the caller sees\<close>

datatype client_result =
    SawHealth ClientGetHealthResponse
  | SawList ClientListVolumesResponse
  | SawCreate ClientCreateVolumeResponse
  | SawGet ClientGetVolumeResponse
  | SawDelete ClientDeleteVolumeResponse

text \<open>The \<^verbatim>\<open>WithResponse\<close> method of an operation, and the reader it uses.\<close>

definition client_do ::
  "time_text \<Rightarrow> 'w ClientInterface \<Rightarrow> strict_request \<Rightarrow> 'w \<Rightarrow> (string + client_result) \<times> 'w" where
  "client_do T ci req w =
     (case req of
        ReqGetHealth \<Rightarrow> apfst (map_sum id SawHealth) (GetHealthWithResponse ci [] w)
      | ReqListVolumes p \<Rightarrow> apfst (map_sum id SawList) (ListVolumesWithResponse T ci (Some p) [] w)
      | ReqCreateVolume r \<Rightarrow>
          apfst (map_sum id SawCreate)
            (case cvr_Body r of
               None \<Rightarrow>
                 CreateVolumeWithBodyWithResponse T ci (Some (cvr_Params r)) ''application/json'' None [] w
             | Some b \<Rightarrow> CreateVolumeWithResponse T ci (Some (cvr_Params r)) b [] w)
      | ReqGetVolume i \<Rightarrow> apfst (map_sum id SawGet) (GetVolumeWithResponse T ci i [] w)
      | ReqDeleteVolume i \<Rightarrow> apfst (map_sum id SawDelete) (DeleteVolumeWithResponse ci i [] w))"

definition read_answer :: "time_text \<Rightarrow> strict_request \<Rightarrow> http_response \<Rightarrow> string + client_result" where
  "read_answer T req rsp =
     (case req of
        ReqGetHealth \<Rightarrow> map_sum id SawHealth (ParseGetHealthResponse rsp)
      | ReqListVolumes p \<Rightarrow> map_sum id SawList (ParseListVolumesResponse T rsp)
      | ReqCreateVolume r \<Rightarrow> map_sum id SawCreate (ParseCreateVolumeResponse T rsp)
      | ReqGetVolume i \<Rightarrow> map_sum id SawGet (ParseGetVolumeResponse T rsp)
      | ReqDeleteVolume i \<Rightarrow> map_sum id SawDelete (ParseDeleteVolumeResponse rsp))"

lemma map_reader: "apfst (map_sum id f) (with_reader call parse w) =
    with_reader call (\<lambda>rsp. map_sum id f (parse rsp)) w"
  by (auto simp: with_reader_def split: prod.splits sum.splits)

lemma client_do_reader:
  "client_do T (client_interface S T c) req =
     with_reader (perform_request c (build_request S T (cl_Server c) req) []) (read_answer T req)"
  by (rule ext, cases req)
    (simp_all add: client_do_def client_interface_def build_request_def read_answer_def [abs_def] map_reader
      GetHealthWithResponse_def ListVolumesWithResponse_def CreateVolumeWithResponse_def
      CreateVolumeWithBodyWithResponse_def GetVolumeWithResponse_def DeleteVolumeWithResponse_def
      client_GetHealth_def client_ListVolumes_def client_CreateVolume_def client_CreateVolumeWithBody_def
      client_GetVolume_def client_DeleteVolume_def split: option.split)

text \<open>
  The caller sees the response of the handler: its status, and the value in the field of that
  status, all other fields being nil.
\<close>

fun seen :: "strict_response \<Rightarrow> client_result \<Rightarrow> bool" where
  "seen (RespGetHealth x) (SawHealth r) \<longleftrightarrow>
     GetHealthResponse_StatusCode r = 200 \<and> (case x of GetHealth200 h \<Rightarrow> chr_JSON200 r = Some h)"
| "seen (RespListVolumes x) (SawList r) \<longleftrightarrow>
     ListVolumesResponse_StatusCode r = sint (response_status (RespListVolumes x)) \<and>
     (clr_JSON200 r, clr_JSON400 r, clr_JSON500 r) =
       (case x of ListVolumes200 l \<Rightarrow> (Some l, None, None)
        | ListVolumes400 e \<Rightarrow> (None, Some e, None)
        | ListVolumes500 e \<Rightarrow> (None, None, Some e))"
| "seen (RespCreateVolume x) (SawCreate r) \<longleftrightarrow>
     CreateVolumeResponse_StatusCode r = sint (response_status (RespCreateVolume x)) \<and>
     (ccr_JSON201 r, ccr_JSON400 r, ccr_JSON409 r, ccr_JSON422 r, ccr_JSON500 r) =
       (case x of CreateVolume201 v \<Rightarrow> (Some v, None, None, None, None)
        | CreateVolume400 e \<Rightarrow> (None, Some e, None, None, None)
        | CreateVolume409 e \<Rightarrow> (None, None, Some e, None, None)
        | CreateVolume422 e \<Rightarrow> (None, None, None, Some e, None)
        | CreateVolume500 e \<Rightarrow> (None, None, None, None, Some e))"
| "seen (RespGetVolume x) (SawGet r) \<longleftrightarrow>
     GetVolumeResponse_StatusCode r = sint (response_status (RespGetVolume x)) \<and>
     (cgr_JSON200 r, cgr_JSON404 r, cgr_JSON500 r) =
       (case x of GetVolume200 v \<Rightarrow> (Some v, None, None)
        | GetVolume404 e \<Rightarrow> (None, Some e, None)
        | GetVolume500 e \<Rightarrow> (None, None, Some e))"
| "seen (RespDeleteVolume x) (SawDelete r) \<longleftrightarrow>
     DeleteVolumeResponse_StatusCode r = sint (response_status (RespDeleteVolume x)) \<and>
     (cdr_JSON404 r, cdr_JSON500 r) =
       (case x of DeleteVolume204 \<Rightarrow> (None, None)
        | DeleteVolume404 e \<Rightarrow> (Some e, None)
        | DeleteVolume500 e \<Rightarrow> (None, Some e))"
| "seen _ _ \<longleftrightarrow> False"

fun canonical_response :: "strict_response \<Rightarrow> bool" where
  "canonical_response (RespGetHealth (GetHealth200 h)) \<longleftrightarrow>
     pred_option (\<lambda>n. - (2 ^ 63) \<le> n \<and> n < 2 ^ 63) (hl_Uptime h)"
| "canonical_response (RespListVolumes (ListVolumes200 l)) \<longleftrightarrow> canonical_list l"
| "canonical_response (RespCreateVolume (CreateVolume201 v)) \<longleftrightarrow> canonical_volume v"
| "canonical_response (RespGetVolume (GetVolume200 v)) \<longleftrightarrow> canonical_volume v"
| "canonical_response _ \<longleftrightarrow> True"

lemma response_of_answered:
  assumes "answered code ctype doc w"
  obtains h where "response_of st w = \<lparr>hr_Status = show_int code @ '' '' @ st code, hr_StatusCode = code,
      hr_Header = h, hr_Body = Inr [JsonDoc doc]\<rparr>"
    and "h ''Content-Type'' = Some ctype"
  using assms by (auto simp: answered_def response_of_def)

lemma json_types [simp]:
  "contains ''application/json'' ''json''" "contains ''application/problem+json'' ''json''"
  by code_simp+

lemmas status_code_defs = ListVolumesResponse_StatusCode_def CreateVolumeResponse_StatusCode_def
  GetHealthResponse_StatusCode_def DeleteVolumeResponse_StatusCode_def GetVolumeResponse_StatusCode_def
  http_status_code_def

lemmas reader_defs = ParseListVolumesResponse_def ParseCreateVolumeResponse_def ParseGetHealthResponse_def
  ParseDeleteVolumeResponse_def ParseGetVolumeResponse_def json_answer_def json_Unmarshal_def Let_def

locale client_server = api_server C B + param_styling S + time_texts T for C B S T
begin

lemma op_routed:
  assumes "usual_path postPath" and "addressable T req"
  shows "accepts postPath T ssi (op_request T req) req"
proof (cases req)
  case ReqGetHealth
  then show ?thesis using routed_health [OF assms(1), where r = "op_request T req" and T = T and ssi = ssi] by (simp add: op_request_def api_path_def)
next
  case (ReqListVolumes p)
  then show ?thesis
    using routed_list [OF assms(1), where r = "op_request T req" and sz = "lp_MaxPageSize p" and
        tok = "lp_PageToken p" and T = T and ssi = ssi]
    by (cases p) (simp add: op_request_def api_path_def query_is_sorted)
next
  case (ReqCreateVolume r)
  then obtain b j where b: "cvr_Body r = Some b" "canonical_volume b" "Marshal_Volume T b = Some j"
    using assms(2) by (auto split: option.splits)
  then have "Unmarshal_Volume T j zero_volume = Some b" using Volume_roundtrip by blast
  with b routed_create [OF assms(1), where r = "op_request T req" and i = "cp_Id (cvr_Params r)" and T = T and
      body = b and ssi = ssi] ReqCreateVolume
  have "accepts postPath T ssi (op_request T req)
      (ReqCreateVolume \<lparr>cvr_Params = \<lparr>cp_Id = cp_Id (cvr_Params r)\<rparr>, cvr_Body = Some b\<rparr>)"
    by (simp add: op_request_def api_path_def query_is_sorted)
  moreover have "\<lparr>cvr_Params = \<lparr>cp_Id = cp_Id (cvr_Params r)\<rparr>, cvr_Body = Some b\<rparr> = r" using b(1) by simp
  ultimately show ?thesis using ReqCreateVolume by simp
next
  case (ReqGetVolume i)
  then show ?thesis using routed_get [OF assms(1), where r = "op_request T req" and i = i and T = T and ssi = ssi] assms(2)
    by (simp add: op_request_def api_path_def)
next
  case (ReqDeleteVolume i)
  then show ?thesis using routed_delete [OF assms(1), where r = "op_request T req" and i = i and T = T and ssi = ssi] assms(2)
    by (simp add: op_request_def api_path_def)
qed

lemma answer_read:
  assumes "delivered T resp w" and "same_op req resp" and "canonical_response resp"
  shows "\<exists>res. read_answer T req (response_of st w) = Inr res \<and> seen resp res"
proof (cases "resp = RespDeleteVolume DeleteVolume204")
  case True
  with assms(1,2) obtain i where "req = ReqDeleteVolume i"
    by (cases req) auto
  then show ?thesis using True assms(1)
    by (auto simp: delivered_def read_answer_def response_of_def reader_defs status_code_defs)
next
  case False
  with assms(1) obtain doc where doc: "response_doc T resp = Some doc"
    and a: "answered (sint (response_status resp))
      (if response_problem resp = None then ''application/json'' else ''application/problem+json'') doc w"
    by (auto simp: delivered_def)
  from response_of_answered [OF a, of st] obtain h where
    r: "response_of st w = \<lparr>hr_Status = show_int (sint (response_status resp)) @ '' '' @
          st (sint (response_status resp)), hr_StatusCode = sint (response_status resp),
        hr_Header = h, hr_Body = Inr [JsonDoc doc]\<rparr>"
    and h: "h ''Content-Type'' =
      Some (if response_problem resp = None then ''application/json'' else ''application/problem+json'')"
    by blast
  note rt = Error_roundtrip Health_roundtrip VolumeList_roundtrip Volume_roundtrip
  show ?thesis
  proof (cases resp)
    case (RespGetHealth x)
    then show ?thesis using r h doc assms(2,3) rt(2)
      by (cases x; cases req) (auto simp: read_answer_def reader_defs status_code_defs)
  next
    case (RespListVolumes x)
    then show ?thesis using r h doc assms(2,3) rt(1) rt(3)
      by (cases x; cases req) (auto simp: read_answer_def reader_defs status_code_defs)
  next
    case (RespCreateVolume x)
    then show ?thesis using r h doc assms(2,3) rt(1) rt(4)
      by (cases x; cases req) (auto simp: read_answer_def reader_defs status_code_defs)
  next
    case (RespGetVolume x)
    then show ?thesis using r h doc assms(2,3) rt(1) rt(4)
      by (cases x; cases req) (auto simp: read_answer_def reader_defs status_code_defs)
  next
    case (RespDeleteVolume x)
    then show ?thesis using r h doc assms(2,3) rt(1) False
      by (cases x; cases req) (auto simp: read_answer_def reader_defs status_code_defs)
  qed
qed

end

text \<open>A client for the server, with a doer that is a connection to it.\<close>

definition api_client where
  "api_client S T scheme host doer =
     client_interface S T
       \<lparr>cl_Server = api_origin scheme host @ ''/'', cl_Client = Some doer, cl_RequestEditors = []\<rparr>"

text \<open>The slash after the host is added when it is missing.\<close>

lemma NewClient_api:
  assumes "valid_host host" and "server \<in> {api_origin scheme host, api_origin scheme host @ ''/''}"
  shows "NewClientWithResponses S T d server [WithHTTPClient doer] = Inr (api_client S T scheme host doer)"
proof -
  have h: "host \<noteq> []" "CHR ''/'' \<notin> set host"
    using assms(1) not_in(3) [of host] by (auto simp: valid_host_def authority_ok_def)
  then have "last host \<noteq> CHR ''/''" by (metis last_in_set)
  then have "\<not> suffix ''/'' (api_origin scheme host)"
    using h(1) by (auto simp: api_origin_def suffix_def) (metis last_appendR last_snoc append_Cons list.distinct(1)
        append_is_Nil_conv last_ConsR)
  then show ?thesis using assms(2)
    by (auto simp: NewClientWithResponses_def NewClient_def WithHTTPClient_def api_client_def Let_def)
qed

context client_server
begin

text \<open>The call of an operation is the request on the connection and the reader of its answer.\<close>

lemma client_do_served:
  assumes "valid_scheme scheme" and "valid_host host" and "addressable T req"
  shows "client_do T (api_client S T scheme host (connection st serve)) req s =
    (case serve (op_request T req) s of
       (Completed, w, s') \<Rightarrow> (read_answer T req (response_of st w), s')
     | (Panicked _, _, s') \<Rightarrow> (Inl ''EOF'', s'))"
proof -
  obtain hdr where b: "build_request S T (api_origin scheme host @ ''/'') req =
    Inr ((api_request scheme host (op_method req) (op_tail req) (Values_Encode (op_values req))
       (map_option JsonDoc (op_body T req)))\<lparr>creq_Header := hdr\<rparr>)" (is "_ = Inr ?r")
    using built [OF assms] by blast
  have "received ?r = Some (op_request T req)"
    using received_api [OF op_tail_ok [OF assms(3)]] by (cases "op_body T req") (simp_all add: op_request_def)
  then show ?thesis
    by (auto simp: api_client_def client_do_reader with_reader_def perform_request_def b applyEditors_def
        connection_def split: prod.splits outcome.splits)
qed

lemma client_served:
  assumes "usual_path postPath" and "valid_scheme scheme" and "valid_host host" and "addressable T req"
    and "passes specRouter (op_request T req)"
    and "composite_handle h now req (ss_world s) = (Inr resp, w')"
    and "encodable T resp" and "canonical_response resp"
  shows "\<exists>res s'. client_do T (api_client S T scheme host
      (connection st (provider_serve C lib B T now cfg specRouter postPath h))) req s = (Inr res, s') \<and>
    ss_world s' = w' \<and> seen resp res"
proof -
  have op: "same_op req resp" by (rule composite_same_op [OF assms(6)])
  from provider_delivers [OF assms(5) op_routed [OF assms(1,4)] assms(6) op, where lib = lib and cfg = cfg]
  obtain w s' where "provider_serve C lib B T now cfg specRouter postPath h (op_request T req) s = (Completed, w, s')"
    and "ss_world s' = w'" and d: "delivered T resp w"
    using assms(7) by auto
  then have "client_do T (api_client S T scheme host
      (connection st (provider_serve C lib B T now cfg specRouter postPath h))) req s =
      (read_answer T req (response_of st w), s')"
    by (simp add: client_do_served [OF assms(2-4)])
  with answer_read [OF d op assms(8), of st] \<open>ss_world s' = w'\<close> show ?thesis by auto
qed

lemma client_create_get:
  assumes "k8s_store K objs classes up L" and "up (ss_world s)" and "usual_path postPath"
    and "h = \<lparr>ch_health = hh, ch_volume = K8sVolumeStore L K kcfg\<rparr>"
    and "valid_scheme scheme" and "valid_host host"
    and ci: "ci = api_client S T scheme host (connection st (provider_serve C lib B T now cfg specRouter postPath h))"
    and "canonical_volume body"
    and r: "req = \<lparr>cvr_Params = params, cvr_Body = Some body\<rparr>"
    and "passes specRouter (op_request T (ReqCreateVolume req))"
    and cre: "CreateVolumeWithResponse T ci (Some params) body [] s = (Inr r1, s1)" and "ccr_JSON201 r1 = Some v"
    and name: "name = request_id req body"
    and "passes specRouter (op_request T (ReqGetVolume name))"
  shows "\<exists>r2 s2. GetVolumeWithResponse T ci name [] s1 = (Inr r2, s2) \<and> cgr_JSON200 r2 = Some v \<and>
    ss_world s2 = ss_world s1"
proof -
  let ?serve = "provider_serve C lib B T now cfg specRouter postPath h"
  have doc: "Marshal_Volume T body \<noteq> None"
  proof
    assume "Marshal_Volume T body = None"
    then show False using cre
      by (simp add: ci api_client_def CreateVolumeWithResponse_def client_interface_def with_reader_def
          client_CreateVolume_def perform_request_def NewCreateVolumeRequest_def)
  qed
  then have adr: "addressable T (ReqCreateVolume req)" using assms(8) by (simp add: r)
  have "client_do T ci (ReqCreateVolume req) s = (Inr (SawCreate r1), s1)"
    using cre by (simp add: client_do_def r)
  with client_do_served [OF assms(5,6) adr, of st ?serve s, folded ci]
  obtain w1 where sv: "?serve (op_request T (ReqCreateVolume req)) s = (Completed, w1, s1)"
    and "ParseCreateVolumeResponse T (response_of st w1) = Inr r1"
    by (auto simp: read_answer_def map_sum_Inr split: prod.splits outcome.splits)
  then obtain ct j where a: "answered 201 ct j w1" and j: "Unmarshal_Volume T j zero_volume = Some v"
    using assms(12)
    by (auto simp: ParseCreateVolumeResponse_def json_answer_def json_Unmarshal_def response_of_def answered_def
        and_then_def or_error_def Let_def split: if_splits option.splits list.splits payload.splits sum.splits
        prod.splits)
  obtain b where b: "Marshal_Volume T body = Some b" using doc by auto
  have rid: "name = request_id \<lparr>cvr_Params = \<lparr>cp_Id = cp_Id params\<rparr>, cvr_Body = Some body\<rparr> body"
    by (simp add: name r request_id_def)
  have q: "rq_Method (op_request T (ReqCreateVolume req)) = ''POST''"
    "rq_Path (op_request T (ReqCreateVolume req)) = ''/api/v1alpha1/volumes''"
    "query_is ''id'' (rq_Query (op_request T (ReqCreateVolume req))) (cp_Id params)"
    "Option.bind (rq_Body (op_request T (ReqCreateVolume req))) (\<lambda>j. Unmarshal_Volume T j zero_volume) = Some body"
    using Volume_roundtrip [OF assms(8) b] b by (simp_all add: op_request_def api_path_def query_is_sorted r)
  have ok: "aep122 name" "name \<noteq> ''health''"
    using provider_created [OF assms(3,4,10) q sv a] rid by metis+
  then have adr': "addressable T (ReqGetVolume name)" by simp
  have g: "rq_Method (op_request T (ReqGetVolume name)) = ''GET''"
    "rq_Path (op_request T (ReqGetVolume name)) = ''/api/v1alpha1/volumes/'' @ name"
    by (simp_all add: op_request_def api_path_def)
  from provider_create_get [OF assms(1-4,10) q sv a rid assms(14) g]
  obtain w2 s2 where s2: "?serve (op_request T (ReqGetVolume name)) s1 = (Completed, w2, s2)"
    and a2: "answered 200 ''application/json'' j w2" and "ss_world s2 = ss_world s1" by blast
  from response_of_answered [OF a2, of st] obtain h' where
    "response_of st w2 = \<lparr>hr_Status = show_int 200 @ '' '' @ st 200, hr_StatusCode = 200, hr_Header = h',
       hr_Body = Inr [JsonDoc j]\<rparr>" "h' ''Content-Type'' = Some ''application/json''" by blast
  then obtain r2 where "ParseGetVolumeResponse T (response_of st w2) = Inr r2" "cgr_JSON200 r2 = Some v"
    using j by (simp add: reader_defs)
  moreover have "client_do T ci (ReqGetVolume name) s1 =
      (map_sum id SawGet (ParseGetVolumeResponse T (response_of st w2)), s2)"
    using client_do_served [OF assms(5,6) adr', of st ?serve s1, folded ci] s2 by (simp add: read_answer_def)
  then have "GetVolumeWithResponse T ci name [] s1 = (ParseGetVolumeResponse T (response_of st w2), s2)"
    by (cases "GetVolumeWithResponse T ci name [] s1"; cases "ParseGetVolumeResponse T (response_of st w2)";
        cases "fst (GetVolumeWithResponse T ci name [] s1)") (auto simp: client_do_def)
  ultimately show ?thesis using \<open>ss_world s2 = ss_world s1\<close> by simp
qed

end

end
