(* ===== verification/Time_Text.thy ===== *)
theory Time_Text
  imports Json_Codec
begin

text \<open>
  The text of an instant in the zone UTC, as \<^verbatim>\<open>time.Time\<close> writes and reads it in JSON
  (\<^verbatim>\<open>time.RFC3339Nano\<close>), and the proof that it reads back: the parameter of \<open>Json_Codec\<close> for a
  process that runs in UTC. This is a part of Go's standard library, no code of the repository.
\<close>

section \<open>The calendar\<close>

text \<open>
  Days and years are counted from the first of January of year 1. \<open>date_of\<close> takes whole
  cycles of 400, 100, 4 years and single years off a day number; the last cycle of a longer one
  has a day more, so the third of the short ones gets it.
\<close>

definition is_leap :: "int \<Rightarrow> bool" where
  "is_leap year \<longleftrightarrow> year mod 4 = 0 \<and> (year mod 100 \<noteq> 0 \<or> year mod 400 = 0)"

definition month_lengths :: "bool \<Rightarrow> int list" where
  "month_lengths leap = [31, if leap then 29 else 28, 31, 30, 31, 30, 31, 31, 30, 31, 30, 31]"

definition year_start :: "int \<Rightarrow> int" where
  "year_start year =
     (let y = year - 1 in 365 * y + y div 4 - y div 100 + y div 400)"

definition year_of :: "int \<Rightarrow> int \<times> int" where
  "year_of day =
     (let n = day div 146097; r = day mod 146097;
          c = min 3 (r div 36524); r = r - c * 36524;
          q = r div 1461; r = r mod 1461;
          e = min 3 (r div 365)
      in (400 * n + 100 * c + 4 * q + e + 1, r - e * 365))"

fun month_of :: "int list \<Rightarrow> int \<Rightarrow> nat \<times> int" where
  "month_of [] d = (0, d)"
| "month_of (l # ls) d = (if d < l then (0, d) else apfst Suc (month_of ls (d - l)))"

lemma last_of_cycle: "0 < x \<Longrightarrow> x \<le> m \<Longrightarrow> (m * k + x) mod m = 0 \<longleftrightarrow> x = m" for m :: int
  by (cases "x = m") simp_all

lemma year_of_correct:
  assumes "year_of day = (year, d)"
  shows "year_start year + d = day" and "0 \<le> d" and "d < (if is_leap year then 366 else 365)"
proof -
  define n where "n = day div 146097"
  define r where "r = day mod 146097"
  define c where "c = min 3 (r div 36524)"
  define s where "s = r - c * 36524"
  define q where "q = s div 1461"
  define t where "t = s mod 1461"
  define e where "e = min 3 (t div 365)"
  have "year_of day = (400 * n + 100 * c + 4 * q + e + 1, t - e * 365)"
    unfolding year_of_def Let_def e_def t_def q_def s_def c_def r_def n_def by (rule refl)
  with assms have y: "year = 400 * n + 100 * c + 4 * q + e + 1" and d: "d = t - e * 365" by simp_all
  have day: "day = 146097 * n + r" and r: "0 \<le> r" "r < 146097" by (simp_all add: n_def r_def)
  have c: "0 \<le> c" "c \<le> 3" unfolding c_def using r by simp_all
  have rc: "r = 36524 * c + s" by (simp add: s_def)
  have "36524 * (r div 36524) \<le> r" "r < 36524 * (r div 36524) + 36524"
    using mult_div_mod_eq [of 36524 r] pos_mod_sign [of 36524 r] pos_mod_bound [of 36524 r] by linarith+
  then have s: "0 \<le> s" "s \<le> 36524" "c < 3 \<longrightarrow> s < 36524"
    using r rc unfolding c_def by (auto simp: min_def split: if_splits)
  have q: "0 \<le> q" "q \<le> 24" "0 \<le> t" "t < 1461" "s = 1461 * q + t"
    using s(1,2) unfolding q_def t_def by simp_all
  have e: "0 \<le> e" "e \<le> 3" unfolding e_def using q by simp_all
  have "365 * (t div 365) \<le> t" "t < 365 * (t div 365) + 365"
    using mult_div_mod_eq [of 365 t] pos_mod_sign [of 365 t] pos_mod_bound [of 365 t] by linarith+
  then have t: "365 * e \<le> t" "t < 365 * e + 366" "e < 3 \<longrightarrow> t < 365 * e + 365"
    using q(4) unfolding e_def by (auto simp: min_def split: if_splits)
  have divs: "(year - 1) div 4 = 100 * n + 25 * c + q" "(year - 1) div 100 = 4 * n + c"
      "(year - 1) div 400 = n"
    using c(1,2) q(1,2) e(1,2) unfolding y by simp_all
  show "year_start year + d = day"
    unfolding year_start_def Let_def divs d day rc q(5) using y by simp
  show "0 \<le> d" using t(1) d by simp
  have "year mod 4 = 0 \<longleftrightarrow> e = 3" "year mod 100 = 0 \<longleftrightarrow> 4 * q + e = 99"
    "year mod 400 = 0 \<longleftrightarrow> 100 * c + 4 * q + e = 399"
    using c(1,2) q(1,2) e(1,2) last_of_cycle [of "e + 1" 4 "100 * n + 25 * c + q"]
      last_of_cycle [of "4 * q + e + 1" 100 "4 * n + c"]
      last_of_cycle [of "100 * c + 4 * q + e + 1" 400 n]
    unfolding y by (simp_all add: algebra_simps)
  then have leap: "is_leap year \<longleftrightarrow> e = 3 \<and> (q \<noteq> 24 \<or> c = 3)"
    using c(1,2) q(1,2) e(1,2) unfolding is_leap_def by auto
  have "t < 1460" if "q = 24" "c < 3" using that s(3) q(5) by simp
  then show "d < (if is_leap year then 366 else 365)"
    using e t leap d c(2) by (cases "e = 3") auto
qed

lemma month_of_correct:
  assumes "month_of ls d = (m, r)" and "0 \<le> d" and "d < sum_list ls"
  shows "m < length ls" and "0 \<le> r" and "r < ls ! m" and "sum_list (take m ls) + r = d"
proof -
  have "m < length ls \<and> 0 \<le> r \<and> r < ls ! m \<and> sum_list (take m ls) + r = d"
    using assms
  proof (induction ls arbitrary: d m)
    case Nil
    then show ?case by simp
  next
    case (Cons l ls)
    show ?case
    proof (cases "d < l")
      case True
      then show ?thesis using Cons.prems by simp
    next
      case False
      then obtain k where "month_of ls (d - l) = (k, r)" "m = Suc k"
        using Cons.prems(1) by (cases "month_of ls (d - l)") auto
      then show ?thesis using Cons.IH [of "d - l" k] Cons.prems False by simp
    qed
  qed
  then show "m < length ls" "0 \<le> r" "r < ls ! m" "sum_list (take m ls) + r = d" by auto
qed

lemma month_lengths_sum: "sum_list (month_lengths leap) = (if leap then 366 else 365)"
  and month_lengths_length [simp]: "length (month_lengths leap) = 12"
  by (simp_all add: month_lengths_def)

section \<open>Digits\<close>

fun padded :: "nat \<Rightarrow> nat \<Rightarrow> string" where
  "padded 0 n = []"
| "padded (Suc w) n = padded w (n div 10) @ [hex_digit (n mod 10)]"

definition parse_uint :: "string \<Rightarrow> int \<Rightarrow> int \<Rightarrow> int option" where
  "parse_uint s lo hi =
     (if list_all is_digit s \<and> lo \<le> int (digits_val s) \<and> int (digits_val s) \<le> hi
      then Some (int (digits_val s)) else None)"

lemma padded_length [simp]: "length (padded w n) = w"
  by (induction w arbitrary: n) simp_all

lemma padded_digits [simp]: "list_all is_digit (padded w n)"
  by (induction w arbitrary: n) (simp_all add: hex_digit_decimal)

lemma digits_val_padded: "n < 10 ^ w \<Longrightarrow> digits_val (padded w n) = n"
proof (induction w arbitrary: n)
  case 0
  then show ?case by (simp add: digits_val_def)
next
  case (Suc w)
  then have "n div 10 < 10 ^ w" by (simp add: less_mult_imp_div_less mult.commute)
  then show ?case by (simp add: Suc.IH digits_val_snoc hex_digit_decimal)
qed

lemma parse_padded:
  "0 \<le> n \<Longrightarrow> n < 10 ^ w \<Longrightarrow> lo \<le> n \<Longrightarrow> n \<le> hi \<Longrightarrow> parse_uint (padded w (nat n)) lo hi = Some n"
  by (simp add: parse_uint_def digits_val_padded nat_less_iff)

section \<open>The text\<close>

text \<open>A fraction loses its trailing zeros, and is left out when it is zero.\<close>

definition fraction :: "nat \<Rightarrow> string" where
  "fraction n =
     (if n = 0 then [] else CHR ''.'' # rev (dropWhile (\<lambda>c. c = CHR ''0'') (rev (padded 9 n))))"

definition Format_RFC3339Nano :: "gotime \<Rightarrow> string option" where
  "Format_RFC3339Nano t =
     (let secs = t div Second;
          (year, yday) = year_of (secs div 86400);
          (month, mday) = month_of (month_lengths (is_leap year)) yday;
          sod = secs mod 86400
      in if year < 0 \<or> 9999 < year then None
         else Some (padded 4 (nat year) @ ''-'' @ padded 2 (month + 1) @ ''-'' @ padded 2 (nat (mday + 1)) @
           ''T'' @ padded 2 (nat (sod div 3600)) @ '':'' @ padded 2 (nat (sod div 60 mod 60)) @ '':'' @
           padded 2 (nat (sod mod 60)) @ fraction (nat (t mod Second)) @ ''Z''))"

text \<open>
  The reader, with the forms of the fast path of \<^verbatim>\<open>time.parseRFC3339\<close>: at most nine digits of a
  fraction count, and the zone is \<^verbatim>\<open>Z\<close> or an offset.
\<close>

definition parse_fraction :: "string \<Rightarrow> nat \<times> string" where
  "parse_fraction s =
     (case s of
        dot # d # rest \<Rightarrow>
          if dot = CHR ''.'' \<and> is_digit d
          then let ds = takeWhile is_digit (d # rest); used = take 9 ds
               in (digits_val used * 10 ^ (9 - length used), dropWhile is_digit (d # rest))
          else (0, s)
      | _ \<Rightarrow> (0, s))"

definition parse_zone :: "string \<Rightarrow> int option" where
  "parse_zone s =
     (if s = ''Z'' then Some 0
      else if length s \<noteq> 6 \<or> s ! 0 \<notin> set ''+-'' \<or> s ! 3 \<noteq> CHR '':'' then None
      else case (parse_uint (take 2 (drop 1 s)) 0 23, parse_uint (drop 4 s) 0 59) of
             (Some hr, Some mm) \<Rightarrow>
               Some ((if s ! 0 = CHR ''-'' then -1 else 1) * (hr * 60 + mm) * 60)
           | _ \<Rightarrow> None)"

definition Parse_RFC3339 :: "string \<Rightarrow> gotime option" where
  "Parse_RFC3339 s =
     (if length s < 19 \<or> s ! 4 \<noteq> CHR ''-'' \<or> s ! 7 \<noteq> CHR ''-'' \<or> s ! 10 \<noteq> CHR ''T'' \<or>
         s ! 13 \<noteq> CHR '':'' \<or> s ! 16 \<noteq> CHR '':'' then None
      else
        Option.bind (parse_uint (take 4 s) 0 9999) (\<lambda>year.
        Option.bind (parse_uint (take 2 (drop 5 s)) 1 12) (\<lambda>month.
        Option.bind (parse_uint (take 2 (drop 8 s)) 1
            (month_lengths (is_leap year) ! nat (month - 1))) (\<lambda>day.
        Option.bind (parse_uint (take 2 (drop 11 s)) 0 23) (\<lambda>hour.
        Option.bind (parse_uint (take 2 (drop 14 s)) 0 59) (\<lambda>minute.
        Option.bind (parse_uint (take 2 (drop 17 s)) 0 59) (\<lambda>sec.
        (let (nsec, zone) = parse_fraction (drop 19 s);
             days = year_start year +
               sum_list (take (nat (month - 1)) (month_lengths (is_leap year))) + day - 1
         in map_option (\<lambda>offset.
              (86400 * days + 3600 * hour + 60 * minute + sec - offset) * Second + int nsec)
              (parse_zone zone)))))))))"

section \<open>Round trip\<close>

lemma digits_val_zeros: "digits_val (s @ replicate k CHR ''0'') = digits_val s * 10 ^ k"
proof (induction k)
  case 0
  then show ?case by simp
next
  case (Suc k)
  have "s @ replicate (Suc k) CHR ''0'' = (s @ replicate k CHR ''0'') @ [CHR ''0'']"
    by (simp add: replicate_append_same [symmetric])
  then show ?case using Suc by (simp only: digits_val_snoc) (simp add: digit_val_def)
qed

lemma trailing_zeros:
  obtains k where "s = rev (dropWhile (\<lambda>c. c = CHR ''0'') (rev s)) @ replicate k CHR ''0''"
proof -
  let ?z = "takeWhile (\<lambda>c. c = CHR ''0'') (rev s)"
  have "?z = replicate (length ?z) CHR ''0''"
    by (rule replicate_eqI [symmetric, THEN sym]) (auto dest: set_takeWhileD)
  then have "rev ?z = replicate (length ?z) CHR ''0''" by (metis rev_replicate)
  moreover have "s = rev (dropWhile (\<lambda>c. c = CHR ''0'') (rev s)) @ rev ?z"
    by (metis rev_append rev_rev_ident takeWhile_dropWhile_id)
  ultimately show thesis using that by metis
qed

lemma parse_fraction_text:
  assumes "n < 10 ^ 9"
  shows "parse_fraction (fraction n @ ''Z'') = (n, ''Z'')"
proof (cases "n = 0")
  case True
  then show ?thesis by (simp add: fraction_def parse_fraction_def)
next
  case False
  define ds where "ds = rev (dropWhile (\<lambda>c. c = CHR ''0'') (rev (padded 9 n)))"
  obtain k where k: "padded 9 n = ds @ replicate k CHR ''0''"
    unfolding ds_def by (rule trailing_zeros)
  have val: "digits_val ds * 10 ^ k = n"
    using digits_val_padded [OF assms] by (simp add: k digits_val_zeros)
  then have "ds \<noteq> []" using False by (auto simp: digits_val_def)
  then obtain d ds' where ds: "ds = d # ds'" by (cases ds) auto
  have dig: "list_all is_digit ds" using padded_digits [of 9 n] by (simp add: k)
  have len: "length ds + k = 9" using padded_length [of 9 n] by (simp add: k)
  have z: "\<not> is_digit CHR ''Z''" by (simp add: is_digit_def)
  have "takeWhile is_digit (ds @ ''Z'') = ds" "dropWhile is_digit (ds @ ''Z'') = ''Z''"
    using dig z by (simp_all add: takeWhile_append2 dropWhile_append2 list_all_iff)
  moreover have "fraction n = CHR ''.'' # ds" using False by (simp add: fraction_def ds_def)
  moreover have "9 - length ds = k" "take 9 ds = ds" using len by simp_all
  moreover have "is_digit d" using dig ds by simp
  ultimately show ?thesis using val ds by (simp add: parse_fraction_def Let_def)
qed

lemma clock_split: "s = 3600 * (s div 3600) + 60 * (s div 60 mod 60) + s mod 60" for s :: int
proof -
  have sum: "60 * a + b = s \<Longrightarrow> 60 * c + d = a \<Longrightarrow> s = 3600 * c + 60 * d + b" for a b c d by simp
  have "s div 3600 = s div 60 div 60" using zdiv_zmult2_eq [of 60 s 60] by simp
  then show ?thesis
    using sum [OF mult_div_mod_eq [of 60 s] mult_div_mod_eq [of 60 "s div 60"]] by simp
qed

text \<open>Where the fields of the text are.\<close>

lemma rfc3339_fields:
  assumes "length yy = 4" and "length mo = 2" and "length dd = 2" and "length hh = 2" and "length mi = 2"
    and "length ss = 2"
    and s: "s = yy @ ''-'' @ mo @ ''-'' @ dd @ ''T'' @ hh @ '':'' @ mi @ '':'' @ ss @ rest"
  shows "\<not> (length s < 19 \<or> s ! 4 \<noteq> CHR ''-'' \<or> s ! 7 \<noteq> CHR ''-'' \<or> s ! 10 \<noteq> CHR ''T'' \<or>
      s ! 13 \<noteq> CHR '':'' \<or> s ! 16 \<noteq> CHR '':'')"
    and "take 4 s = yy" and "take 2 (drop 5 s) = mo" and "take 2 (drop 8 s) = dd"
    and "take 2 (drop 11 s) = hh" and "take 2 (drop 14 s) = mi" and "take 2 (drop 17 s) = ss"
    and "drop 19 s = rest"
proof -
  have two: "\<exists>a b. xs = [a, b]" if "length xs = 2" for xs :: string
    using that by (cases xs; cases "tl xs") auto
  have four: "\<exists>a b c d. xs = [a, b, c, d]" if "length xs = 4" for xs :: string
    using that two [of "drop 2 xs"] two [of "take 2 xs"] append_take_drop_id [of 2 xs]
    by (metis append_Cons append_Nil length_drop length_take min.absorb2 diff_numeral_special(11)
        numeral_Bit0 add_diff_cancel_right' le_add1)
  obtain y1 y2 y3 y4 m1 m2 d1 d2 h1 h2 i1 i2 s1 s2 where p: "yy = [y1, y2, y3, y4]" "mo = [m1, m2]"
    "dd = [d1, d2]" "hh = [h1, h2]" "mi = [i1, i2]" "ss = [s1, s2]"
    using four [OF assms(1)] two [OF assms(2)] two [OF assms(3)] two [OF assms(4)] two [OF assms(5)]
      two [OF assms(6)] by blast
  show "\<not> (length s < 19 \<or> s ! 4 \<noteq> CHR ''-'' \<or> s ! 7 \<noteq> CHR ''-'' \<or> s ! 10 \<noteq> CHR ''T'' \<or>
      s ! 13 \<noteq> CHR '':'' \<or> s ! 16 \<noteq> CHR '':'')"
    "take 4 s = yy" "take 2 (drop 5 s) = mo" "take 2 (drop 8 s) = dd" "take 2 (drop 11 s) = hh"
    "take 2 (drop 14 s) = mi" "take 2 (drop 17 s) = ss" "drop 19 s = rest"
    by (simp_all add: s p)
qed

lemma utc_parse_format:
  assumes "Format_RFC3339Nano t = Some s"
  shows "Parse_RFC3339 s = Some t"
proof -
  obtain year yday where y: "year_of (t div Second div 86400) = (year, yday)" by fastforce
  obtain month mday where m: "month_of (month_lengths (is_leap year)) yday = (month, mday)" by fastforce
  define sod where "sod = t div Second mod 86400"
  have year: "0 \<le> year" "year \<le> 9999"
    and s: "s = padded 4 (nat year) @ ''-'' @ padded 2 (month + 1) @ ''-'' @ padded 2 (nat (mday + 1)) @
      ''T'' @ padded 2 (nat (sod div 3600)) @ '':'' @ padded 2 (nat (sod div 60 mod 60)) @ '':'' @
      padded 2 (nat (sod mod 60)) @ fraction (nat (t mod Second)) @ ''Z''"
    using assms by (auto simp: Format_RFC3339Nano_def y m sod_def Let_def split: if_splits)
  note yd = year_of_correct [OF y]
  have "yday < sum_list (month_lengths (is_leap year))" using yd(3) by (simp add: month_lengths_sum)
  from month_of_correct [OF m yd(2) this]
  have month: "month < 12" "0 \<le> mday" "mday < month_lengths (is_leap year) ! month"
    "sum_list (take month (month_lengths (is_leap year))) + mday = yday" by simp_all
  have "list_all (\<lambda>l. l \<le> 31) (month_lengths leap)" for leap by (simp add: month_lengths_def)
  then have "month_lengths (is_leap year) ! month \<le> 31"
    using month(1) by (metis list_all_length month_lengths_length)
  then have p1: "parse_uint (padded 4 (nat year)) 0 9999 = Some year"
    and p2: "parse_uint (padded 2 (Suc month)) 1 12 = Some (int (Suc month))"
    and p3: "parse_uint (padded 2 (nat (mday + 1))) 1 (month_lengths (is_leap year) ! month) = Some (mday + 1)"
    using year month parse_padded [of "int (Suc month)" 2 1 12, unfolded nat_int]
    by (simp_all add: parse_padded)
  have sod: "0 \<le> sod" "sod < 86400" by (simp_all add: sod_def)
  then have p4: "parse_uint (padded 2 (nat (sod div 3600))) 0 23 = Some (sod div 3600)"
    and p5: "parse_uint (padded 2 (nat (sod div 60 mod 60))) 0 59 = Some (sod div 60 mod 60)"
    and p6: "parse_uint (padded 2 (nat (sod mod 60))) 0 59 = Some (sod mod 60)"
    by (simp_all add: parse_padded)
  have nsec: "0 \<le> t mod Second" "t mod Second < 10 ^ 9" by (simp_all add: Second_def Millisecond_def)
  then have f: "parse_fraction (fraction (nat (t mod Second)) @ ''Z'') = (nat (t mod Second), ''Z'')"
    by (intro parse_fraction_text) simp
  note fs = rfc3339_fields [OF padded_length padded_length padded_length padded_length padded_length
      padded_length s]
  note sod_split = clock_split [of sod]
  have "86400 * (t div Second div 86400) + sod = t div Second"
    unfolding sod_def by (rule mult_div_mod_eq)
  then have "86400 * (t div Second div 86400) + 3600 * (sod div 3600) +
      60 * (sod div 60 mod 60) + sod mod 60 = t div Second"
    using sod_split by simp
  moreover have "year_start year + sum_list (take month (month_lengths (is_leap year))) + mday =
      t div Second div 86400"
    using yd(1) month(4) by simp
  ultimately have "86400 * (year_start year + sum_list (take month (month_lengths (is_leap year))) +
      (mday + 1) - 1) + 3600 * (sod div 3600) + 60 * (sod div 60 mod 60) + sod mod 60 - 0 = t div Second"
    by simp
  then have "(86400 * (year_start year + sum_list (take month (month_lengths (is_leap year))) +
      (mday + 1) - 1) + 3600 * (sod div 3600) + 60 * (sod div 60 mod 60) + sod mod 60 - 0) * Second +
      int (nat (t mod Second)) = t"
    using nsec(1) by (simp only: div_mult_mod_eq int_nat_eq if_True)
  then show ?thesis
    unfolding Parse_RFC3339_def if_not_P [OF fs(1)] fs(2-8)
    by (simp add: p1 p2 p3 p4 p5 p6 f parse_zone_def)
qed

definition utc_text :: time_text where
  "utc_text = \<lparr>tt_Format = Format_RFC3339Nano, tt_Parse = Parse_RFC3339\<rparr>"

interpretation utc: time_texts utc_text
  by unfold_locales (simp add: utc_text_def utc_parse_format)

end
