(* ===== verification/Ref_Http.thy ===== *)
theory Ref_Http
  imports Client_Server Time_Text
begin

text \<open>
  A concrete router, parameter binding and parameter styling that behave as the interface locales
  of \<open>Http_Api\<close> and \<open>Client_Server\<close> say, at which the theorems about the server and its client
  are applied. Nothing in this theory models code of the
  repository.
\<close>

section \<open>The router\<close>

fun first_index :: "('a \<Rightarrow> bool) \<Rightarrow> 'a list \<Rightarrow> nat option" where
  "first_index P [] = None"
| "first_index P (x # xs) = (if P x then Some 0 else map_option Suc (first_index P xs))"

lemma first_index_None: "first_index P xs = None \<longleftrightarrow> (\<forall>x \<in> set xs. \<not> P x)"
  by (induction xs) auto

lemma first_index_Some: "first_index P xs = Some i \<Longrightarrow> i < length xs \<and> P (xs ! i)"
  by (induction xs arbitrary: i) (auto split: if_splits)

lemma first_index_unique:
  assumes "distinct xs" and "i < length xs" and "P (xs ! i)" and "\<And>x. x \<in> set xs \<Longrightarrow> P x \<Longrightarrow> x = xs ! i"
  shows "first_index P xs = Some i"
proof (cases "first_index P xs")
  case None
  then show ?thesis using assms(2,3) nth_mem [OF assms(2)] by (auto simp: first_index_None)
next
  case (Some j)
  then have j: "j < length xs" "P (xs ! j)" using first_index_Some [OF Some] by simp_all
  then have "xs ! j = xs ! i" using assms(4) nth_mem [OF j(1)] by blast
  then show ?thesis using Some j assms(1,2) by (simp add: nth_eq_iff_index_eq)
qed

definition pat_prefix :: "string \<Rightarrow> string" where
  "pat_prefix p = takeWhile (\<lambda>c. c \<noteq> CHR ''{'') p"

definition pat_name :: "string \<Rightarrow> string" where
  "pat_name p = takeWhile (\<lambda>c. c \<noteq> CHR ''}'') (drop (Suc (length (pat_prefix p))) p)"

definition pat_matches :: "string \<Rightarrow> string \<Rightarrow> bool" where
  "pat_matches p path \<longleftrightarrow> \<not> is_static p \<and> prefix (pat_prefix p) path \<and>
     path \<noteq> pat_prefix p \<and> CHR ''/'' \<notin> set (drop (length (pat_prefix p)) path)"

definition ref_find :: "(string \<times> string) list \<Rightarrow> string \<Rightarrow> string \<Rightarrow> chi_match" where
  "ref_find routes meth path =
     (case first_index (\<lambda>(m, p). m = meth \<and> is_static p \<and> p = path) routes of
        Some i \<Rightarrow> RouteFound i []
      | None \<Rightarrow>
     (case first_index (\<lambda>(m, p). m = meth \<and> pat_matches p path) routes of
        Some i \<Rightarrow> RouteFound i [(pat_name (snd (routes ! i)),
                                drop (length (pat_prefix (snd (routes ! i)))) path)]
      | None \<Rightarrow>
          if list_ex (\<lambda>(m, p). p = path \<or> pat_matches p path) routes then MethodNotAllowed
          else RouteNotFound))"

definition ref_chi :: chi_mux where
  "ref_chi =
     \<lparr>chi_find = ref_find,
      chi_NotFound = http_Error ''404 page not found'' 404,
      chi_MethodNotAllowed = WriteHeader 405\<rparr>"

lemma pat_parts:
  assumes "is_static pre" and "CHR ''}'' \<notin> set name"
  shows "pat_prefix (pre @ ''{'' @ name @ ''}'') = pre" and "pat_name (pre @ ''{'' @ name @ ''}'') = name"
    and "\<not> is_static (pre @ ''{'' @ name @ ''}'')"
proof -
  show p: "pat_prefix (pre @ ''{'' @ name @ ''}'') = pre"
    using assms(1) unfolding pat_prefix_def is_static_def by (subst takeWhile_append2) auto
  show "pat_name (pre @ ''{'' @ name @ ''}'') = name"
    using assms(2) unfolding pat_name_def p by (simp, subst takeWhile_append2) auto
  show "\<not> is_static (pre @ ''{'' @ name @ ''}'')" by (simp add: is_static_def)
qed

lemma ref_static:
  assumes "distinct routes" and "i < length routes" and "routes ! i = (meth, path)" and "is_static path"
  shows "ref_find routes meth path = RouteFound i []"
proof -
  have "first_index (\<lambda>(m, p). m = meth \<and> is_static p \<and> p = path) routes = Some i"
    using assms by (intro first_index_unique) auto
  then show ?thesis by (simp add: ref_find_def)
qed

lemma ref_param:
  assumes "distinct routes" and "i < length routes" and "routes ! i = (meth, pre @ ''{'' @ name @ ''}'')"
    and "is_static pre" and "CHR ''}'' \<notin> set name" and "seg \<noteq> []" and "CHR ''/'' \<notin> set seg"
    and others: "\<And>m p. (m, p) \<in> set routes \<Longrightarrow>
      if is_static p then p \<noteq> pre @ seg else p = pre @ ''{'' @ name @ ''}''"
  shows "ref_find routes meth (pre @ seg) = RouteFound i [(name, seg)]"
proof -
  note parts = pat_parts [OF assms(4,5)]
  have "first_index (\<lambda>(m, p). m = meth \<and> is_static p \<and> p = pre @ seg) routes = None"
    using others by (fastforce simp: first_index_None)
  moreover have "pat_matches (pre @ ''{'' @ name @ ''}'') (pre @ seg)"
    unfolding pat_matches_def parts(1) using parts(3) assms(6,7) by simp
  then have "first_index (\<lambda>(m, p). m = meth \<and> pat_matches p (pre @ seg)) routes = Some i"
    using assms(1-3) others by (intro first_index_unique) (force simp: pat_matches_def split: if_splits)+
  ultimately show ?thesis using assms(3) parts(1,2) by (simp add: ref_find_def)
qed

lemma http_Error_calls: "rw_calls rw (http_Error text code rw)"
  unfolding http_Error_def by (intro rw_calls.intros)

interpretation ref_chi: chi_router ref_chi
proof
  show "i < length routes \<and> fst (routes ! i) = meth"
    if "chi_find ref_chi routes meth path = RouteFound i params" for routes meth path i params
    using that by (auto simp: ref_chi_def ref_find_def split: option.splits if_splits dest!: first_index_Some)
  show "chi_find ref_chi routes meth path = RouteFound i []"
    if "distinct routes" "i < length routes" "routes ! i = (meth, path)" "is_static path" for routes meth path i
    using ref_static [OF that] by (simp add: ref_chi_def)
  show "rw_calls rw (chi_NotFound ref_chi rw)" "rw_calls rw (chi_MethodNotAllowed ref_chi rw)" for rw
    by (simp_all add: ref_chi_def http_Error_calls rw_none rw_status)
  show "\<exists>h. wr_sent (the_wire (chi_NotFound ref_chi rw)) = Some (404, h)"
    "\<exists>h. wr_sent (the_wire (chi_MethodNotAllowed ref_chi rw)) = Some (405, h)"
    if "wr_sent (the_wire rw) = None" for rw
    using that by (simp_all add: ref_chi_def http_Error_def wire_WriteHeader_def)
qed (unfold ref_chi_def chi_mux.select_convs, rule ref_param)

section \<open>The parameter binding\<close>

definition ref_binder :: param_binder where
  "ref_binder =
     \<lparr>bind_int32 = (\<lambda>k q.
        case filter (\<lambda>(k', _). k' = k) q of
          [] \<Rightarrow> Inr None
        | [(_, v)] \<Rightarrow>
            (case parse_int v of
               Some i \<Rightarrow> if - (2 ^ 31) \<le> i \<and> i < 2 ^ 31 then Inr (Some (of_int i))
                         else Inl (PlainError ''value out of range'')
             | None \<Rightarrow> Inl (PlainError ''invalid syntax''))
        | _ \<Rightarrow> Inl (PlainError ''multiple values'')),
      bind_string = (\<lambda>k q.
        case filter (\<lambda>(k', _). k' = k) q of
          [] \<Rightarrow> Inr None
        | [(_, v)] \<Rightarrow> Inr (Some v)
        | _ \<Rightarrow> Inl (PlainError ''multiple values'')),
      bind_path = (\<lambda>k v.
        if v = [] then Inl (PlainError ''parameter is empty'')
        else if CHR ''%'' \<in> set v then Inl (PlainError ''invalid URL escape'')
        else Inr v)\<rparr>"

lemma filter_absent: "k \<notin> fst ` set q \<Longrightarrow> filter (\<lambda>(k', _). k' = k) q = []"
  by (force simp: filter_empty_conv)

lemma sint32_range: "- (2 ^ 31) \<le> sint n \<and> sint n < 2 ^ 31" for n :: int32
  using sint_ge [of n] sint_lt [of n] by simp

interpretation ref_binder: param_binding ref_binder
proof
  show "bind_int32 ref_binder k q = Inr (Some n)"
    if "filter (\<lambda>(k', _). k' = k) q = [(k, show_int (sint n))]" for k q and n :: int32
    using that sint32_range [of n] by (simp add: ref_binder_def parse_show_int)
qed (simp_all add: ref_binder_def filter_absent)

interpretation ref_api: api_server ref_chi ref_binder ..

section \<open>The styles of parameters\<close>

definition ref_styler :: param_styler where
  "ref_styler =
     \<lparr>style_int32 = (\<lambda>k n. Inr (k @ ''='' @ QueryEscape (show_int (sint n)))),
      style_string = (\<lambda>k v. Inr (k @ ''='' @ QueryEscape v)),
      style_path = (\<lambda>k v. Inr (PathEscape v))\<rparr>"

interpretation ref_styler: param_styling ref_styler
  by unfold_locales (simp_all add: ref_styler_def)

interpretation ref_client: client_server ref_chi ref_binder ref_styler utc_text ..

end
