(* ===== verification/Monitor_Start.thy ===== *)
theory Monitor_Start
  imports Monitor_System K8s_Store
begin

text \<open>
  The start and the end of the monitor (\<^verbatim>\<open>Start\<close> in \<^verbatim>\<open>internal/monitoring/monitor.go\<close>): the two
  informer factories with what they select, the handlers registered with their informers, the
  error paths, and the order of the shutdown. What the informers answer is an input.
\<close>

section \<open>The informer factories\<close>

record factory_options =
  fo_Namespace :: string
  fo_ResyncPeriod :: duration
  fo_LabelSelector :: string
  fo_FieldSelector :: string

definition pvcFactory :: "'q klib \<Rightarrow> MonitorConfig \<Rightarrow> factory_options" where
  "pvcFactory L cfg =
     \<lparr>fo_Namespace = mc_Namespace cfg, fo_ResyncPeriod = mc_ResyncPeriod cfg,
      fo_LabelSelector = Selector L, fo_FieldSelector = ''''\<rparr>"

definition eventFactory :: "MonitorConfig \<Rightarrow> factory_options" where
  "eventFactory cfg =
     \<lparr>fo_Namespace = mc_Namespace cfg, fo_ResyncPeriod = mc_ResyncPeriod cfg,
      fo_LabelSelector = '''', fo_FieldSelector = ''involvedObject.kind=PersistentVolumeClaim''\<rparr>"

section \<open>The registered handlers\<close>

text \<open>
  A call of an informer: an object that is new, one that has changed or was delivered again, one
  that is gone. The event informer has no function for deletions.
\<close>

datatype 'q informer_call =
    OnAdd "'q informer_obj"
  | OnUpdate "'q informer_obj" "'q informer_obj"
  | OnDelete "'q informer_obj"

definition pvc_handlers ::
  "(string \<Rightarrow> StatusEvent \<Rightarrow> 'd \<Rightarrow> 'd) \<Rightarrow> 'q informer_call \<Rightarrow> StatusMonitor \<times> 'd \<Rightarrow> StatusMonitor \<times> 'd" where
  "pvc_handlers submit call =
     (case call of
        OnAdd obj \<Rightarrow> handlePVCEvent submit obj
      | OnUpdate _ newObj \<Rightarrow> handlePVCEvent submit newObj
      | OnDelete obj \<Rightarrow> handlePVCDelete submit obj)"

definition event_handlers ::
  "(string \<Rightarrow> string \<Rightarrow> 'e + 'q pvc) \<Rightarrow> (string \<Rightarrow> StatusEvent \<Rightarrow> 'd \<Rightarrow> 'd) \<Rightarrow> 'q informer_call \<Rightarrow>
     StatusMonitor \<times> 'd \<Rightarrow> StatusMonitor \<times> 'd" where
  "event_handlers pvcLister submit call =
     (case call of
        OnAdd obj \<Rightarrow> handleWarningEvent pvcLister submit obj
      | OnUpdate _ newObj \<Rightarrow> handleWarningEvent pvcLister submit newObj
      | OnDelete _ \<Rightarrow> (\<lambda>s. s))"

text \<open>Each call is one of the notifications of \<open>Monitor_System\<close>, or does nothing.\<close>

fun call_note :: "deliverer \<Rightarrow> 'q informer_call \<Rightarrow> 'q notification option" where
  "call_note PVCInformer (OnAdd obj) = Some (PVCChanged obj)"
| "call_note PVCInformer (OnUpdate _ newObj) = Some (PVCChanged newObj)"
| "call_note PVCInformer (OnDelete obj) = Some (PVCDeleted obj)"
| "call_note EventInformer (OnAdd obj) = Some (EventSeen obj)"
| "call_note EventInformer (OnUpdate _ newObj) = Some (EventSeen newObj)"
| "call_note EventInformer (OnDelete _) = None"

lemma handlers_notify:
  "pvc_handlers submit call s =
     submit_event submit (Option.bind (call_note PVCInformer call) (note_event (sm_cfg (fst s)) cache)) s"
  "event_handlers (lister cache) submit call s =
     submit_event submit (Option.bind (call_note EventInformer call) (note_event (sm_cfg (fst s)) cache)) s"
  by (cases call; simp add: pvc_handlers_def event_handlers_def handlers_submit_event submit_event_def)+

section \<open>Start\<close>

text \<open>
  What \<^verbatim>\<open>Start\<close> meets: the error of \<^verbatim>\<open>AddEventHandler\<close> of the informer of a factory, what
  \<^verbatim>\<open>WaitForCacheSync\<close> of a factory returns, and the error of the context after each wait.
\<close>

record start_env =
  se_AddEventHandler :: "factory_options \<Rightarrow> string option"
  se_WaitForCacheSync :: "factory_options \<Rightarrow> (string \<times> bool) list"
  se_ctx_Err :: "nat \<Rightarrow> string option"

datatype start_action =
    AddedHandler factory_options
  | StartedFactory factory_options
  | AwaitedCancel
  | StoppedDebouncer
  | ShutDownFactory factory_options

text \<open>The result and what was done, in order; deferred calls run last, in reverse order.\<close>

definition monitor_Start :: "'q klib \<Rightarrow> start_env \<Rightarrow> MonitorConfig \<Rightarrow> string option \<times> start_action list" where
  "monitor_Start L env cfg =
     (let pvcs = pvcFactory L cfg; events = eventFactory cfg in
      case se_AddEventHandler env pvcs of
        Some err \<Rightarrow> (Some (''adding PVC event handler: '' @ err), [])
      | None \<Rightarrow>
     (case se_AddEventHandler env events of
        Some err \<Rightarrow> (Some (''adding Warning event handler: '' @ err), [AddedHandler pvcs])
      | None \<Rightarrow>
     (let started = [AddedHandler pvcs, AddedHandler events, StartedFactory pvcs, StartedFactory events];
          deferred = [ShutDownFactory pvcs, ShutDownFactory events, StoppedDebouncer]
      in case waitForCacheSync (se_ctx_Err env) 0 [se_WaitForCacheSync env pvcs, se_WaitForCacheSync env events] of
           Some err \<Rightarrow> (Some err, started @ rev deferred)
         | None \<Rightarrow> (None, started @ [AwaitedCancel] @ rev deferred))))"

lemma sync_failed_None: "sync_failed synced = None \<longleftrightarrow> (\<forall>(typ, ok) \<in> set synced. ok)"
  by (induction synced rule: sync_failed.induct) auto

lemma waitForCacheSync_None:
  "waitForCacheSync ctx_err n fs = None \<longleftrightarrow>
     (\<forall>k < length fs. ctx_err (n + k) = None \<and> sync_failed (fs ! k) = None)"
proof (induction fs arbitrary: n)
  case Nil
  then show ?case by simp
next
  case (Cons synced fs)
  have "(\<forall>k < Suc (length fs). P k) \<longleftrightarrow> P 0 \<and> (\<forall>k < length fs. P (Suc k))" for P
    by (auto simp: less_Suc_eq_0_disj)
  then show ?case by (auto simp: Cons.IH split: option.splits)
qed

text \<open>
  \<^verbatim>\<open>Start\<close> gives an error with nothing started, or it has started both factories and ends, whatever
  the waits give, with the debouncer stopped before the factories are shut down.
\<close>

lemma monitor_Start_shape:
  assumes "monitor_Start L env cfg = (err, tr)" and "pvcs = pvcFactory L cfg" and "events = eventFactory cfg"
  shows "(err \<noteq> None \<and> tr \<in> {[], [AddedHandler pvcs]}) \<or>
    (\<exists>waited. tr = [AddedHandler pvcs, AddedHandler events, StartedFactory pvcs, StartedFactory events] @ waited @
       [StoppedDebouncer, ShutDownFactory events, ShutDownFactory pvcs] \<and>
     waited = (if err = None then [AwaitedCancel] else []))"
  using assms by (auto simp: monitor_Start_def Let_def split: option.splits)

lemma monitor_Start_ok:
  assumes "pvcs = pvcFactory L cfg" and "events = eventFactory cfg"
  shows "fst (monitor_Start L env cfg) = None \<longleftrightarrow>
    (\<forall>f \<in> {pvcs, events}. se_AddEventHandler env f = None \<and> (\<forall>(typ, ok) \<in> set (se_WaitForCacheSync env f). ok)) \<and>
    se_ctx_Err env 0 = None \<and> se_ctx_Err env 1 = None"
proof -
  have "waitForCacheSync (se_ctx_Err env) 0 [se_WaitForCacheSync env pvcs, se_WaitForCacheSync env events] = None \<longleftrightarrow>
      se_ctx_Err env 0 = None \<and> se_ctx_Err env 1 = None \<and>
      (\<forall>f \<in> {pvcs, events}. \<forall>(typ, ok) \<in> set (se_WaitForCacheSync env f). ok)"
    by (auto simp: waitForCacheSync_None All_less_Suc sync_failed_None simp del: waitForCacheSync.simps)
  then show ?thesis
    by (auto simp: monitor_Start_def Let_def assms simp del: waitForCacheSync.simps split: option.splits)
qed

text \<open>The monitor watches the objects the store lists: same namespace, same labels.\<close>

lemma watched_is_listed:
  "fo_Namespace (pvcFactory L (monitorCfg cfg)) = kc_Namespace (k8sCfg cfg)"
  "fo_LabelSelector (pvcFactory L (monitorCfg cfg)) = Selector L"
  by (simp_all add: pvcFactory_def monitorCfg_def k8sCfg_def)

end
