(* ===== verification/Api_Spec.thy ===== *)
theory Api_Spec
  imports Registration
begin

text \<open>
  The OpenAPI document embedded in the program (\<^verbatim>\<open>api/v1alpha1/spec.gen.go\<close>): how it is decoded,
  cached and loaded, and what becomes of references out of it. The texts of the document, the two
  decoders and the loader of \<^verbatim>\<open>kin-openapi\<close> are parameters.
\<close>

section \<open>path.Clean\<close>

text \<open>
  The elements of a path, with what was kept so far in reverse: empty and \<^verbatim>\<open>.\<close> elements go, \<^verbatim>\<open>..\<close>
  takes back an element, is kept at the front of a relative path, and goes at a root.
\<close>

fun clean_step :: "bool \<Rightarrow> string \<Rightarrow> string list \<Rightarrow> string list" where
  "clean_step rooted e out =
     (if e = '''' \<or> e = ''.'' then out
      else if e = ''..'' then
        (case out of
           x # rest \<Rightarrow> if x \<noteq> ''..'' then rest else e # out
         | [] \<Rightarrow> if rooted then [] else [e])
      else e # out)"

fun join_slash :: "string list \<Rightarrow> string" where
  "join_slash [] = ''''"
| "join_slash [x] = x"
| "join_slash (x # xs) = x @ ''/'' @ join_slash xs"

definition path_Clean :: "string \<Rightarrow> string" where
  "path_Clean p =
     (let rooted = prefix ''/'' p;
          kept = rev (fold (clean_step rooted) (splits CHR ''/'' p) []);
          joined = (if rooted then ''/'' else '''') @ join_slash kept
      in if joined = '''' then ''.'' else joined)"

lemma path_Clean_examples:
  "path_Clean '''' = ''.''" "path_Clean ''/'' = ''/''" "path_Clean ''a/../..'' = ''..''"
  "path_Clean ''/../x//./y/'' = ''/x/y''" "path_Clean ''x/y/../z'' = ''x/z''"
  by code_simp+

text \<open>A cleaned path is never empty.\<close>

lemma path_Clean_nonempty: "path_Clean p \<noteq> []"
  by (simp add: path_Clean_def Let_def)

section \<open>Decoding\<close>

text \<open>
  \<open>sl_base64\<close> is \<^verbatim>\<open>base64.StdEncoding.DecodeString\<close>, \<open>sl_gzip_open\<close> and \<open>sl_gzip_read\<close> are
  \<^verbatim>\<open>gzip.NewReader\<close> and the read to the end of its result, \<open>sl_load\<close> is \<^verbatim>\<open>LoadFromData\<close> of a loader
  with external references allowed, whose \<^verbatim>\<open>ReadFromURIFunc\<close> is its first argument. A result that
  fails is the error; bytes are strings.
\<close>

record ('z, 'doc) spec_lib =
  sl_base64 :: "string \<Rightarrow> string + string"
  sl_gzip_open :: "string \<Rightarrow> string + 'z"
  sl_gzip_read :: "'z \<Rightarrow> string + string"
  sl_load :: "(url \<Rightarrow> string + string) \<Rightarrow> string \<Rightarrow> string + 'doc"

definition decodeSpec :: "('z, 'doc) spec_lib \<Rightarrow> string list \<Rightarrow> string + string" where
  "decodeSpec lib swaggerSpec =
     (case sl_base64 lib (concat swaggerSpec) of
        Inl err \<Rightarrow> Inl (''error base64 decoding spec: '' @ err)
      | Inr zipped \<Rightarrow>
          (case sl_gzip_open lib zipped of
             Inl err \<Rightarrow> Inl (''error decompressing spec: '' @ err)
           | Inr zr \<Rightarrow>
               (case sl_gzip_read lib zr of
                  Inl err \<Rightarrow> Inl (''error decompressing spec: '' @ err)
                | Inr buf \<Rightarrow> Inr buf)))"

text \<open>The closure keeps the result of the one decoding, the error included.\<close>

definition decodeSpecCached :: "('z, 'doc) spec_lib \<Rightarrow> string list \<Rightarrow> unit \<Rightarrow> string + string" where
  "decodeSpecCached lib swaggerSpec = (let cached = decodeSpec lib swaggerSpec in (\<lambda>_. cached))"

definition PathToRawSpec ::
  "(unit \<Rightarrow> string + string) \<Rightarrow> string \<Rightarrow> string \<rightharpoonup> (unit \<Rightarrow> string + string)" where
  "PathToRawSpec rawSpec pathToFile =
     (if length pathToFile > 0 then [pathToFile \<mapsto> rawSpec] else Map.empty)"

text \<open>The loader's function for references out of the document.\<close>

definition ReadFromURI :: "(string \<rightharpoonup> (unit \<Rightarrow> string + string)) \<Rightarrow> url \<Rightarrow> string + string" where
  "ReadFromURI resolvePath0 u =
     (let pathToFile = path_Clean (url_String u) in
      case resolvePath0 pathToFile of
        None \<Rightarrow> Inl (''path not found: '' @ pathToFile)
      | Some getSpec \<Rightarrow> getSpec ())"

definition GetSwagger :: "('z, 'doc) spec_lib \<Rightarrow> string list \<Rightarrow> string + 'doc" where
  "GetSwagger lib swaggerSpec =
     (let rawSpec = decodeSpecCached lib swaggerSpec; resolvePath0 = PathToRawSpec rawSpec '''' in
      case rawSpec () of
        Inl err \<Rightarrow> Inl err
      | Inr specData \<Rightarrow> sl_load lib (ReadFromURI resolvePath0) specData)"

text \<open>
  The document cannot refer to anything outside: whatever a reference is, reading it fails. A
  registered file, were there one, would be found under its cleaned name only.
\<close>

lemma no_external_reference:
  "ReadFromURI (PathToRawSpec rawSpec '''') u = Inl (''path not found: '' @ path_Clean (url_String u))"
  by (simp add: ReadFromURI_def PathToRawSpec_def Let_def)

lemma registered_reference:
  assumes "f \<noteq> []"
  shows "ReadFromURI (PathToRawSpec rawSpec f) u =
    (if path_Clean (url_String u) = f then rawSpec ()
     else Inl (''path not found: '' @ path_Clean (url_String u)))"
  using assms by (simp add: ReadFromURI_def PathToRawSpec_def Let_def)

lemma GetSwagger_cases:
  "GetSwagger lib swaggerSpec =
     (case decodeSpec lib swaggerSpec of
        Inl err \<Rightarrow> Inl err
      | Inr data \<Rightarrow> sl_load lib (\<lambda>u. Inl (''path not found: '' @ path_Clean (url_String u))) data)"
proof -
  have "ReadFromURI (PathToRawSpec (decodeSpecCached lib swaggerSpec) []) =
      (\<lambda>u. Inl (''path not found: '' @ path_Clean (url_String u)))"
    by (rule ext) (rule no_external_reference)
  moreover have "decodeSpecCached lib swaggerSpec () = decodeSpec lib swaggerSpec"
    by (simp add: decodeSpecCached_def)
  ultimately show ?thesis unfolding GetSwagger_def Let_def by (simp only:)
qed

section \<open>The path of the POST operation\<close>

text \<open>
  \<^verbatim>\<open>PostPath\<close> and the package variable \<^verbatim>\<open>endpointSuffix\<close> on the embedded document; \<open>InMatchingOrder\<close>
  gives the paths of a document with whether they have a POST operation.
\<close>

definition spec_PostPath ::
  "('z, 'doc) spec_lib \<Rightarrow> ('doc \<Rightarrow> (string \<times> bool) list) \<Rightarrow> string list \<Rightarrow> string + string" where
  "spec_PostPath lib InMatchingOrder swaggerSpec =
     PostPath (map_sum (\<lambda>err. err) InMatchingOrder (GetSwagger lib swaggerSpec))"

definition endpointSuffix ::
  "('z, 'doc) spec_lib \<Rightarrow> ('doc \<Rightarrow> (string \<times> bool) list) \<Rightarrow> string list \<Rightarrow> string + string" where
  "endpointSuffix lib InMatchingOrder swaggerSpec =
     mustPostPath (map_sum (\<lambda>err. err) InMatchingOrder (GetSwagger lib swaggerSpec))"

lemma endpointSuffix_loaded:
  assumes "GetSwagger lib swaggerSpec = Inr doc"
    and "set (InMatchingOrder doc) = set openapi_paths"
  shows "spec_PostPath lib InMatchingOrder swaggerSpec = Inr volumesBasePath"
    and "endpointSuffix lib InMatchingOrder swaggerSpec = Inr volumesBasePath"
  using PostPath_openapi [OF assms(2)] assms(1)
  by (simp_all add: spec_PostPath_def endpointSuffix_def mustPostPath_def)

end
