(* ===== verification/Process.thy ===== *)
theory Process
  imports Client_Server Monitor_Start Api_Spec
begin

text \<open>
  The life of the process (\<^verbatim>\<open>cmd/k8s-storage-service-provider/main.go\<close>) with the construction of
  the Kubernetes client (\<^verbatim>\<open>internal/kubernetes/client.go\<close>): the order of the start-up, its error
  paths with their deferred calls, what the readiness callback starts, and the end.
\<close>

section \<open>The Kubernetes client\<close>

text \<open>The functions of \<^verbatim>\<open>client-go\<close> that make a configuration \<open>'c\<close> and a client \<open>'k\<close> of it.\<close>

record ('c, 'k) kube_config_lib =
  kl_BuildConfigFromFlags :: "string \<Rightarrow> string \<Rightarrow> string + 'c"
  kl_InClusterConfig :: "string + 'c"
  kl_NewForConfig :: "'c \<Rightarrow> string + 'k"

definition K8s_NewClient :: "('c, 'k) kube_config_lib \<Rightarrow> string \<Rightarrow> string + 'k" where
  "K8s_NewClient lib kubeconfig =
     (case (if kubeconfig \<noteq> '''' then kl_BuildConfigFromFlags lib '''' kubeconfig
            else kl_InClusterConfig lib) of
        Inl err \<Rightarrow> Inl (''building kubernetes config: '' @ err)
      | Inr restCfg \<Rightarrow>
          (case kl_NewForConfig lib restCfg of
             Inl err \<Rightarrow> Inl (''creating kubernetes client: '' @ err)
           | Inr client \<Rightarrow> Inr client))"

section \<open>What main assembles\<close>

definition version :: string where
  "version = ''0.0.1-dev''"

text \<open>The handler behind the server: health and volume handlers on one store.\<close>

definition apiHandler ::
  "'q klib \<Rightarrow> ('w, 'e, 'q) kube \<Rightarrow> Config \<Rightarrow> gotime \<Rightarrow> ('w, 'e) CompositeHandler" where
  "apiHandler L k8sClient cfg now =
     (let store = K8sVolumeStore L k8sClient (k8sCfg cfg) in
      \<lparr>ch_health = \<lparr>hh_checker = Some (repo_checker store), hh_startTime = now, hh_version = version\<rparr>,
       ch_volume = store\<rparr>)"

text \<open>
  The goroutines of the readiness callback: the registration, and how many monitors were started.
\<close>

record background =
  bg_registration :: reg_state
  bg_monitors :: nat

definition bg_init :: background where
  "bg_init = \<lparr>bg_registration = reg_init, bg_monitors = 0\<rparr>"

definition onReady :: "background \<Rightarrow> background" where
  "onReady b = b\<lparr>bg_registration := Registrar_Start (bg_registration b), bg_monitors := Suc (bg_monitors b)\<rparr>"

section \<open>The run of the process\<close>

text \<open>
  What the process meets: the parser of the environment, the environment, the result of
  \<^verbatim>\<open>net.Listen\<close> (an error, or the address of the listener), the constructors of the libraries, and
  what happens to the server.
\<close>

record ('c, 'k) process_env =
  pe_Parse :: "environment \<Rightarrow> string + Config"
  pe_environ :: environment
  pe_Listen :: "string \<Rightarrow> string + string"
  pe_dcm_client :: "string \<Rightarrow> duration \<Rightarrow> string option"
  pe_nats_Connect :: "string \<Rightarrow> nats_options \<Rightarrow> string option"
  pe_kube :: "('c, 'k) kube_config_lib"
  pe_server :: run_env

datatype resource = Listener | SignalContext | NATSConnection

datatype process_event = Opened resource | Closed resource | ServerEvent server_event

type_synonym process_result = "string option \<times> process_event list"

text \<open>
  A resource whose release is deferred: it is open while the rest of the function runs and closed
  when that returns, whatever it returns, after all that was deferred later.
\<close>

definition deferring :: "resource \<Rightarrow> process_result option \<Rightarrow> process_result option" where
  "deferring r rest = map_option (\<lambda>(err, tr). (err, Opened r # tr @ [Closed r])) rest"

definition process_run :: "nat \<Rightarrow> ('c, 'k) process_env \<Rightarrow> process_result option" where
  "process_run fuel env =
     (case Load (pe_Parse env) (pe_environ env) of
        Inl err \<Rightarrow> Some (Some (''initializing: '' @ err), [])
      | Inr cfg \<Rightarrow>
     (case pe_Listen env (sc_Address (cf_Server cfg)) of
        Inl err \<Rightarrow> Some (Some (''listening on '' @ sc_Address (cf_Server cfg) @ '': '' @ err), [])
      | Inr addr \<Rightarrow> deferring Listener (deferring SignalContext
     (case NewRegistrar (pe_dcm_client env) cfg [] of
        Inl err \<Rightarrow> Some (Some (''failed to create registrar: '' @ err), [])
      | Inr registrar \<Rightarrow>
     (case NewNATSPublisher (pe_nats_Connect env) (nats_URL (cf_NATS cfg)) (pr_Name (cf_Provider cfg)) of
        Inl err \<Rightarrow> Some (Some (''creating NATS publisher: '' @ err), [])
      | Inr publisher \<Rightarrow> deferring NATSConnection
     (case K8s_NewClient (pe_kube env) (ku_Kubeconfig (cf_Kubernetes cfg)) of
        Inl err \<Rightarrow> Some (Some (''creating kubernetes client: '' @ err), [])
      | Inr k8sClient \<Rightarrow>
          map_option (\<lambda>(err, tr). (err, map ServerEvent tr))
            (Run fuel (WithOnReady Completed \<lparr>srv_cfg = cf_Server cfg, srv_onReady = None\<rparr>)
               (pe_server env) addr)))))))"

text \<open>\<^verbatim>\<open>main\<close>: the exit code.\<close>

definition process_main :: "nat \<Rightarrow> ('c, 'k) process_env \<Rightarrow> int option" where
  "process_main fuel env =
     map_option (\<lambda>(err, tr). case err of Some _ \<Rightarrow> 1 | None \<Rightarrow> 0) (process_run fuel env)"

text \<open>The calls of the readiness callback in a trace.\<close>

fun event_effect :: "process_event \<Rightarrow> background \<Rightarrow> background" where
  "event_effect (ServerEvent CalledOnReady) b = onReady b"
| "event_effect _ b = b"

definition started :: "process_event list \<Rightarrow> background" where
  "started tr = fold event_effect tr bg_init"

section \<open>Order and end\<close>

lemma deferring_Some:
  "deferring r rest = Some (err, tr) \<longleftrightarrow> (\<exists>inner. rest = Some (err, inner) \<and> tr = Opened r # inner @ [Closed r])"
  by (auto simp: deferring_def)

lemma Run_shape:
  assumes "Run fuel srv env addr = Some (err, tr)"
  shows "\<exists>rest. tr = Serving # rest \<and> length (filter ((=) CalledOnReady) rest) \<le> 1"
  using assms
  by (auto simp: Run_def Let_def split: option.splits ready_result.splits)

text \<open>
  Everything up to the server opens resources only; the trace is the resources opened, the server
  with all of them open, and the same resources closed in the reverse order.
\<close>

definition resources :: "resource list" where
  "resources = [Listener, SignalContext, NATSConnection]"

lemma process_run_nested:
  assumes "process_run fuel env = Some (err, tr)"
  shows "\<exists>k server. k \<le> length resources \<and>
    tr = map Opened (take k resources) @ map ServerEvent server @ map Closed (rev (take k resources)) \<and>
    (server \<noteq> [] \<longrightarrow> k = length resources) \<and> (server = [] \<longrightarrow> err \<noteq> None) \<and>
    length (filter ((=) CalledOnReady) server) \<le> 1"
proof -
  let ?shape = "\<lambda>k server. k \<le> length resources \<and>
    tr = map Opened (take k resources) @ map ServerEvent server @ map Closed (rev (take k resources)) \<and>
    (server \<noteq> [] \<longrightarrow> k = length resources) \<and> (server = [] \<longrightarrow> err \<noteq> None) \<and>
    length (filter ((=) CalledOnReady) server) \<le> 1"
  consider "err \<noteq> None" "tr = []"
    | "err \<noteq> None" "tr = [Opened Listener, Opened SignalContext, Closed SignalContext, Closed Listener]"
    | "err \<noteq> None" "tr = map Opened resources @ map Closed (rev resources)"
    | srv addr server where "Run fuel srv (pe_server env) addr = Some (err, server)"
        "tr = map Opened resources @ map ServerEvent server @ map Closed (rev resources)"
    using assms
    by (auto simp: process_run_def deferring_Some resources_def split: sum.splits)
  then show ?thesis
  proof cases
    case 1
    then have "?shape 0 []" by simp
    then show ?thesis by blast
  next
    case 2
    then have "?shape 2 []" by (simp add: resources_def)
    then show ?thesis by blast
  next
    case 3
    then have "?shape 3 []" by (simp add: resources_def)
    then show ?thesis by blast
  next
    case 4
    from Run_shape [OF 4(1)] 4(2) have "?shape 3 server" by (auto simp: resources_def)
    then show ?thesis by blast
  qed
qed

text \<open>All steps of the start-up succeed.\<close>

definition boots :: "('c, 'k) process_env \<Rightarrow> Config \<Rightarrow> string \<Rightarrow> bool" where
  "boots env cfg addr \<longleftrightarrow>
     Load (pe_Parse env) (pe_environ env) = Inr cfg \<and>
     pe_Listen env (sc_Address (cf_Server cfg)) = Inr addr \<and>
     \<not> isl (NewRegistrar (pe_dcm_client env) cfg []) \<and>
     \<not> isl (NewNATSPublisher (pe_nats_Connect env) (nats_URL (cf_NATS cfg)) (pr_Name (cf_Provider cfg))) \<and>
     \<not> isl (K8s_NewClient (pe_kube env) (ku_Kubeconfig (cf_Kubernetes cfg)))"

lemma process_run_boots:
  assumes "boots env cfg addr"
  shows "process_run fuel env =
    map_option (\<lambda>(err, server).
        (err, map Opened resources @ map ServerEvent server @ map Closed (rev resources)))
      (Run fuel (WithOnReady Completed \<lparr>srv_cfg = cf_Server cfg, srv_onReady = None\<rparr>) (pe_server env) addr)"
  using assms
  by (cases "Run fuel (WithOnReady Completed \<lparr>srv_cfg = cf_Server cfg, srv_onReady = None\<rparr>) (pe_server env) addr")
    (auto simp: boots_def process_run_def deferring_def resources_def isl_def split: sum.splits)

lemma process_run_fails:
  assumes "\<nexists>cfg addr. boots env cfg addr"
  shows "\<exists>err tr. process_run fuel env = Some (Some err, tr) \<and> started tr = bg_init"
  using assms
  by (auto simp: boots_def process_run_def deferring_def started_def split: sum.splits)

text \<open>
  The process returns when the wait for readiness does: with an error and nothing started when a
  step of the start-up fails, else with the result of the server; the callback has started the
  registration and one monitor exactly when the server became ready.
\<close>

lemma process_run_result:
  assumes "boots env cfg addr" and "probe_ends (pe_server env) n" and "n < fuel"
  shows "\<exists>err tr. process_run fuel env = Some (err, tr) \<and>
    (err = None \<longleftrightarrow> re_select (pe_server env) \<in> {None, Some None} \<and> re_shutdown (pe_server env) = None) \<and>
    started tr = (if ready_by (pe_server env) addr fuel then onReady bg_init else bg_init)"
  unfolding process_run_boots [OF assms(1)] Run_trace [OF assms(2,3)]
  by (auto simp: started_def resources_def WithOnReady_def split: option.splits)

lemma boots_unique: "boots env cfg addr \<Longrightarrow> boots env cfg' addr' \<Longrightarrow> cfg' = cfg \<and> addr' = addr"
  by (auto simp: boots_def)

lemma exit_code: "process_run fuel env = Some (err, tr) \<Longrightarrow> process_main fuel env = Some (if err = None then 0 else 1)"
  by (cases err) (simp_all add: process_main_def)

lemma process_returns:
  assumes "probe_ends (pe_server env) n" and "n < fuel"
  shows "\<exists>err tr. process_run fuel env = Some (err, tr) \<and>
    process_main fuel env = Some (if err = None then 0 else 1) \<and>
    (err = None \<longleftrightarrow> (\<exists>cfg addr. boots env cfg addr) \<and>
       re_select (pe_server env) \<in> {None, Some None} \<and> re_shutdown (pe_server env) = None) \<and>
    started tr = (if \<exists>cfg addr. boots env cfg addr \<and> ready_by (pe_server env) addr fuel
                  then onReady bg_init else bg_init)"
proof (cases "\<exists>cfg addr. boots env cfg addr")
  case True
  then obtain cfg addr where b: "boots env cfg addr" by blast
  then have "(\<exists>cfg addr. boots env cfg addr \<and> ready_by (pe_server env) addr fuel) \<longleftrightarrow> ready_by (pe_server env) addr fuel"
    using boots_unique by blast
  moreover obtain err tr where r: "process_run fuel env = Some (err, tr)"
    and "err = None \<longleftrightarrow> re_select (pe_server env) \<in> {None, Some None} \<and> re_shutdown (pe_server env) = None"
    and "started tr = (if ready_by (pe_server env) addr fuel then onReady bg_init else bg_init)"
    using process_run_result [OF b assms] by blast
  ultimately show ?thesis using True exit_code [OF r] by (intro exI [of _ err] exI [of _ tr]) simp
next
  case False
  with process_run_fails [OF False, of fuel] show ?thesis by (auto simp: exit_code)
qed

section \<open>The assembled service\<close>

text \<open>
  The router the server gets: validation when the document loads and \<open>NewRouter\<close> of
  \<^verbatim>\<open>legacyrouter\<close> accepts it, and the guards for empty ids when it has a POST path.
\<close>

definition provider_router ::
  "('z, 'doc) spec_lib \<Rightarrow> string list \<Rightarrow> ('doc \<Rightarrow> string + openapi) \<Rightarrow> openapi option" where
  "provider_router lib swaggerSpec legacy_NewRouter =
     (case GetSwagger lib swaggerSpec of
        Inl _ \<Rightarrow> None
      | Inr spec \<Rightarrow> (case legacy_NewRouter spec of Inl _ \<Rightarrow> None | Inr sr \<Rightarrow> Some sr))"

text \<open>The request of a readiness probe.\<close>

definition probe_request :: http_request where
  "probe_request = \<lparr>rq_Method = ''GET'', rq_Path = ''/api/v1alpha1/volumes/health'', rq_Query = [],
     rq_URI = ''/api/v1alpha1/volumes/health'', rq_Body = None, rq_URLParams = [], rq_Deadline = None\<rparr>"

lemma probe_received:
  assumes "valid_host addr"
  shows "\<exists>r. http_NewRequest ''GET'' (probe_url addr) None = Inr r \<and> received r = Some probe_request"
proof -
  have t: "path_tail ''/health''" using op_tail_ok [of undefined ReqGetHealth] by simp
  have "valid_scheme ''http''" by code_simp
  note url = parse_absolute [OF this assms api_path_plain(4) [OF t], of "[]"]
  have "probe_url addr = ''http'' @ ''://'' @ addr @ (CHR ''/'' # api_path ''/health'') @ with_query []"
    by (simp add: probe_url_def api_path_def with_query_def)
  with url have "http_NewRequest ''GET'' (probe_url addr) None = Inr (api_request ''http'' addr ''GET'' ''/health'' [] None)"
    by (simp add: http_NewRequest_def api_request_def) (simp add: absolute_url_def)
  moreover have "received (api_request ''http'' addr ''GET'' ''/health'' [] None) = Some probe_request"
    using received_api [OF t, where scheme = "''http''" and host = addr and meth = "''GET''" and vs = "[]" and b = None and hdr = Map.empty]
    by (simp add: api_request_def probe_request_def Values_Encode_def with_query_def api_path_def)
  ultimately show ?thesis by blast
qed

context api_server
begin

text \<open>A probe that reaches the server finds it ready, whether the cluster is healthy or not.\<close>

lemma probe_answered:
  assumes "usual_path postPath" and "passes specRouter probe_request"
  shows "\<exists>w s' hdr. provider_serve C lib B T now cfg specRouter postPath h probe_request s = (Completed, w, s') \<and>
    wr_sent w = Some (200, hdr) \<and> ss_world s' = ss_world s"
proof -
  have a: "accepts postPath T (composite_ssi h now) probe_request ReqGetHealth"
    by (rule routed_health [OF assms(1)]) (simp_all add: probe_request_def)
  obtain hl where g: "composite_handle h now ReqGetHealth (ss_world s) = (Inr (RespGetHealth (GetHealth200 hl)), ss_world s)"
    by (simp add: composite_handle_def GetHealth_def Let_def)
  from provider_delivers [OF assms(2) a g] show ?thesis
    by (fastforce simp: encodable_def delivered_def answered_def)
qed

lemma probe_succeeds:
  assumes "valid_host addr" and "usual_path postPath" and "passes specRouter probe_request"
  shows "\<exists>r rsp s'. http_NewRequest ''GET'' (probe_url addr) None = Inr r \<and>
    connection st (provider_serve C lib B T now cfg specRouter postPath h) r s = (Inr rsp, s') \<and>
    hr_StatusCode rsp = 200 \<and> ss_world s' = ss_world s"
proof -
  obtain r where "http_NewRequest ''GET'' (probe_url addr) None = Inr r" "received r = Some probe_request"
    using probe_received [OF assms(1)] by blast
  with probe_answered [OF assms(2,3), where T = T and now = now and h = h and lib = lib and cfg = cfg and s = s]
  show ?thesis by (auto simp: connection_def response_of_def)
qed

end

end
