(* ===== verification/Shutdown.thy ===== *)
theory Shutdown
  imports Monitor_Start
begin

text \<open>
  The end of the process, with the main goroutine and the monitor running at the same time: after
  the server has returned, \<^verbatim>\<open>run\<close> of \<^verbatim>\<open>main.go\<close> closes the connection to NATS, ends the context,
  closes the listener and the process exits, while the monitor, which the context stops, flushes
  its pending events.
\<close>

section \<open>State and steps\<close>

text \<open>
  Where the main goroutine is: in \<^verbatim>\<open>srv.Run\<close>, before \<^verbatim>\<open>publisher.Close\<close>, before \<^verbatim>\<open>stop\<close>, before
  \<^verbatim>\<open>ln.Close\<close> with the return of \<^verbatim>\<open>main\<close>, or gone.
\<close>

datatype main_pc = InServer | AtPublisherClose | AtSignalStop | AtReturn | Exited

record 'q process_sys =
  pr_mon :: "'q mon_sys"
  pr_cancelled :: bool
  pr_main :: main_pc

text \<open>The state right after the readiness callback, which has started the monitor.\<close>

definition process_init :: "MonitorConfig \<Rightarrow> gotime \<Rightarrow> 'q process_sys" where
  "process_init cfg now = \<lparr>pr_mon = mon_init cfg now, pr_cancelled = False, pr_main = InServer\<rparr>"

datatype 'q process_label =
    MonitorStep "'q mon_label"
  | SignalReceived
  | MainStep

text \<open>
  The monitor stops its debouncer when the context is cancelled, and NATS accepts an event while
  the connection is open. A signal cancels the context. The server returns when the context is
  cancelled or serving fails.
\<close>

definition connected :: "'q process_sys \<Rightarrow> bool" where
  "connected s \<longleftrightarrow> pr_main s \<in> {InServer, AtPublisherClose}"

fun monitor_may :: "'q process_sys \<Rightarrow> 'q mon_label \<Rightarrow> bool" where
  "monitor_may s (Internal (Stops _)) = pr_cancelled s"
| "monitor_may s (Send _) = connected s"
| "monitor_may s SendFlush = connected s"
| "monitor_may s _ = True"

fun process_enabled :: "'q process_sys \<Rightarrow> 'q process_label \<Rightarrow> bool" where
  "process_enabled s (MonitorStep l) \<longleftrightarrow> pr_main s \<noteq> Exited \<and> mon_enabled (pr_mon s) l \<and> monitor_may s l"
| "process_enabled s SignalReceived \<longleftrightarrow> pr_main s \<noteq> Exited \<and> \<not> pr_cancelled s"
| "process_enabled s MainStep \<longleftrightarrow> pr_main s \<noteq> Exited"

fun main_next :: "main_pc \<Rightarrow> main_pc" where
  "main_next InServer = AtPublisherClose"
| "main_next AtPublisherClose = AtSignalStop"
| "main_next AtSignalStop = AtReturn"
| "main_next _ = Exited"

fun process_perform :: "'q process_sys \<Rightarrow> 'q process_label \<Rightarrow> 'q process_sys" where
  "process_perform s (MonitorStep l) = s\<lparr>pr_mon := mon_perform (pr_mon s) l\<rparr>"
| "process_perform s SignalReceived = s\<lparr>pr_cancelled := True\<rparr>"
| "process_perform s MainStep =
     s\<lparr>pr_main := main_next (pr_main s), pr_cancelled := pr_cancelled s \<or> pr_main s = AtSignalStop\<rparr>"

inductive process_reachable :: "MonitorConfig \<Rightarrow> gotime \<Rightarrow> 'q process_sys \<Rightarrow> bool" for cfg start where
  init: "process_reachable cfg start (process_init cfg start)"
| step: "process_reachable cfg start s \<Longrightarrow> process_enabled s l \<Longrightarrow>
     process_reachable cfg start (process_perform s l)"

fun process_steps :: "'q process_sys \<Rightarrow> 'q process_label list \<Rightarrow> 'q process_sys option" where
  "process_steps s [] = Some s"
| "process_steps s (l # ls) =
     (if process_enabled s l then process_steps (process_perform s l) ls else None)"

lemma process_steps_reachable:
  "process_reachable cfg start s \<Longrightarrow> process_steps s ls = Some t \<Longrightarrow> process_reachable cfg start t"
  by (induction ls arbitrary: s) (auto intro: process_reachable.step split: if_splits)

text \<open>The monitor in the process runs as \<open>Monitor_System\<close> says: its invariants hold here too.\<close>

lemma process_monitor:
  "process_reachable cfg start s \<Longrightarrow> mon_reachable cfg start (pr_mon s)"
proof (induction rule: process_reachable.induct)
  case init
  then show ?case by (simp add: process_init_def mon_reachable.init)
next
  case (step s l)
  then show ?case by (cases l) (auto intro: mon_reachable.step)
qed

text \<open>
  If \<^verbatim>\<open>Stop\<close> gets to return, every accepted event was published or superseded, as far as the calls of
  \<^verbatim>\<open>publishFn\<close> go; but after \<^verbatim>\<open>publisher.Close\<close> none of them reaches the bus.
\<close>

lemma process_stopped:
  assumes "process_reachable cfg start s" and "sy_stop (ms_d (pr_mon s)) = Returned"
  shows "sy_accepted (ms_d (pr_mon s)) = mset (sy_out (ms_d (pr_mon s))) + sy_superseded (ms_d (pr_mon s))"
  using stop_complete [OF mon_deb_reachable [OF process_monitor [OF assms(1)]] assms(2)] by simp

lemma closed_silent:
  assumes "process_enabled s l" and "\<not> connected s"
  shows "ms_bus (pr_mon (process_perform s l)) = ms_bus (pr_mon s)" and "\<not> connected (process_perform s l)"
proof -
  have quiet: "ms_bus (mon_perform (pr_mon s) k) = ms_bus (pr_mon s)" if "monitor_may s k" for k
    using that assms(2) by (cases k) (auto split: option.splits prod.splits)
  show "ms_bus (pr_mon (process_perform s l)) = ms_bus (pr_mon s)"
    using assms(1) quiet by (cases l) simp_all
  show "\<not> connected (process_perform s l)"
    using assms by (cases l; cases "pr_main s") (auto simp: connected_def)
qed

section \<open>An event that is not published\<close>

text \<open>
  A volume becomes RUNNING, the process gets its signal, the server has no request to wait for,
  and the process exits before the monitor gets to flush.
\<close>

definition lost_run :: "unit process_label list" where
  "lost_run =
     map MonitorStep
       [Cache ''default'' ''vol'' (Some (sample_bound False)),
        Notify (PVCChanged (ObjPVC (sample_bound False))), Enqueue PVCInformer] @
     [SignalReceived, MainStep, MainStep, MainStep, MainStep]"

text \<open>The same, with the monitor's flush begun and the connection closed before it sends.\<close>

definition closed_run :: "unit process_label list" where
  "closed_run =
     map MonitorStep
       [Cache ''default'' ''vol'' (Some (sample_bound False)),
        Notify (PVCChanged (ObjPVC (sample_bound False))), Enqueue PVCInformer] @
     [SignalReceived, MonitorStep (Internal (Stops [''vol''])), MainStep, MainStep,
      MonitorStep FinishFlush, MonitorStep (Internal Waits), MainStep, MainStep]"

definition lost_event :: StatusEvent where
  "lost_event = \<lparr>ev_InstanceID = ''vol'', ev_Status = RUNNING,
     ev_Message = snd (MapPVCToStatus (Some (sample_bound False)))\<rparr>"

lemma lost_run_result:
  "case process_steps (process_init sample_cfg 0) lost_run of
     None \<Rightarrow> False
   | Some s \<Rightarrow> pr_main s = Exited \<and> ms_bus (pr_mon s) = [] \<and> sy_stop (ms_d (pr_mon s)) = Running \<and>
       map (is_pending \<circ> snd) (db_instances (sy_d (ms_d (pr_mon s)))) = [lost_event]"
  by code_simp

lemma closed_run_result:
  "case process_steps (process_init sample_cfg 0) closed_run of
     None \<Rightarrow> False
   | Some s \<Rightarrow> pr_main s = Exited \<and> ms_bus (pr_mon s) = [] \<and> sy_stop (ms_d (pr_mon s)) = Returned \<and>
       sy_out (ms_d (pr_mon s)) = [lost_event]"
  by code_simp

lemma process_steps_witness:
  assumes "case process_steps (process_init cfg start) ls of None \<Rightarrow> False | Some s \<Rightarrow> P s"
  shows "\<exists>s. process_reachable cfg start s \<and> P s"
  using assms process_steps_reachable [OF process_reachable.init, of cfg start ls] by (auto split: option.splits)

end
