(* ===== verification/Samples.thy ===== *)
theory Samples
  imports Ref_Cluster Concurrent Monitor_System Ref_Http Process Shutdown
begin

text \<open>
  Concrete inputs at which the properties of the root theory are applied: requests for the
  sample cluster of \<^verbatim>\<open>Ref_Cluster\<close>, with the values the model computes for them. Nothing in this
  theory models code of the repository.
\<close>

definition ref_body :: Volume where
  "ref_body = \<lparr>vol_CreateTime = None, vol_Id = None, vol_Path = None, vol_Spec = ref_spec,
               vol_Status = None, vol_UpdateTime = None\<rparr>"

definition ref_req :: CreateVolumeRequestObject where
  "ref_req = \<lparr>cvr_Params = \<lparr>cp_Id = None\<rparr>, cvr_Body = Some ref_body\<rparr>"

definition ref_repo :: "(ref_world, ref_err) VolumeRepository" where
  "ref_repo = K8sVolumeStore ref_lib ref_kube ref_cfg"

definition ref_volume :: Volume where
  "ref_volume = volumeFromPVC ref_lib (the (ref_objs ref_one ''default'' ''data'')) ''data''"

lemma ref_create_eval:
  "case CreateVolume (K8sVolumeStore ref_lib ref_kube ref_cfg) ref_req ref_empty of
     (Inr (CreateVolume201 v), w') \<Rightarrow> v = ref_volume \<and> w' = ref_one
   | _ \<Rightarrow> False"
  by code_simp

lemma ref_create:
  "CreateVolume (K8sVolumeStore ref_lib ref_kube ref_cfg) ref_req ref_empty =
     (Inr (CreateVolume201 ref_volume), ref_one)"
  using ref_create_eval by (auto split: prod.splits sum.splits CreateVolumeResponse.splits)

lemma ref_request [simp]:
  "cvr_Body ref_req = Some ref_body" "request_id ref_req ref_body = ''data''" "vol_Spec ref_body = ref_spec"
  by (simp_all add: ref_req_def ref_body_def request_id_def ref_spec_def)

lemma ref_up [simp]: "rf_up ref_empty" "rf_up ref_one"
  by code_simp+

lemma ref_stored: "ref_objs ref_one ''default'' ''data'' \<noteq> None"
  by code_simp

lemma ref_acceptable: "acceptable ''data'' ref_spec"
proof -
  have "aep122 ''data''" by code_simp
  moreover have "\<not> ReservedLabelKeys ''team''" by code_simp
  ultimately show ?thesis by (auto simp: acceptable_def ref_spec_def split: if_splits)
qed

lemma ref_buildable: "buildable ref_lib ref_cfg ref_spec"
  by (simp add: buildable_def ref_lib_def ref_spec_def ref_cfg_def wanted_mode_def k8s_hints_def
      supported_mode_iff VolumeMode_Valid_def consts_def)

lemma ref_resolved [simp]:
  "resolveStorageClass ref_spec (kc_DefaultStorageClass ref_cfg) = ''fast''"
  "wanted_mode ref_spec ref_cfg = ''ReadWriteOnce''"
  "spec_label ref_spec ''team'' = Some ''a''"
  "ReservedLabelKeys ''team'' = False"
  by code_simp+

lemma ref_one_class [simp]: "''fast'' \<in> set (rf_classes ref_one)" "kc_Namespace ref_cfg = ''default''"
  by code_simp+

lemma ref_K8s_create: "K8s_Create ref_lib ref_kube ref_cfg ref_spec ''data'' ref_empty = (Inr ref_volume, ref_one)"
proof -
  have "case K8s_Create ref_lib ref_kube ref_cfg ref_spec ''data'' ref_empty of
      (Inr v, w') \<Rightarrow> v = ref_volume \<and> w' = ref_one | _ \<Rightarrow> False" by code_simp
  then show ?thesis by (auto split: prod.splits sum.splits)
qed

lemma ref_vols: "k8s_vols ref_lib ref_cfg ref_objs ref_one ''data'' \<noteq> None"
  by code_simp

text \<open>A cluster where someone else has put a PVC under the name.\<close>

definition ref_foreign :: ref_world where
  "ref_foreign = ref_one\<lparr>rf_objs :=
     map (\<lambda>(k, p). (k, p\<lparr>pvc_Labels := Some [(''app'', ''other'')]\<rparr>)) (rf_objs ref_one)\<rparr>"

lemma ref_listed:
  "v \<in> set vs \<longleftrightarrow> (\<exists>i. k8s_vols ref_lib ref_cfg ref_objs ref_one i = Some v) \<Longrightarrow> v = ref_volume \<Longrightarrow>
   ref_volume \<in> set vs"
proof -
  have "k8s_vols ref_lib ref_cfg ref_objs ref_one ''data'' = Some ref_volume" by code_simp
  moreover assume "v \<in> set vs \<longleftrightarrow> (\<exists>i. k8s_vols ref_lib ref_cfg ref_objs ref_one i = Some v)" "v = ref_volume"
  ultimately show "ref_volume \<in> set vs" by blast
qed

definition ref_config :: Config where
  "ref_config = projr (Load ref_Parse ref_env)"

lemma ref_loaded: "Load ref_Parse ref_env = Inr ref_config"
proof -
  have "case Load ref_Parse ref_env of Inl _ \<Rightarrow> False | Inr _ \<Rightarrow> True" by code_simp
  then show ?thesis by (auto simp: ref_config_def split: sum.splits)
qed

section \<open>Requests to the server\<close>

definition ref_handler :: "(ref_world, ref_err) CompositeHandler" where
  "ref_handler = \<lparr>ch_health = \<lparr>hh_checker = None, hh_startTime = 0, hh_version = ''dev''\<rparr>,
                  ch_volume = ref_repo\<rparr>"

definition ref_post :: http_request where
  "ref_post = \<lparr>rq_Method = ''POST'', rq_Path = ''/api/v1alpha1/volumes'', rq_Query = [],
     rq_URI = ''/api/v1alpha1/volumes'', rq_Body = Marshal_Volume utc_text ref_body,
     rq_URLParams = [], rq_Deadline = None\<rparr>"

definition ref_get :: http_request where
  "ref_get = \<lparr>rq_Method = ''GET'', rq_Path = ''/api/v1alpha1/volumes/data'', rq_Query = [],
     rq_URI = ''/api/v1alpha1/volumes/data'', rq_Body = None, rq_URLParams = [], rq_Deadline = None\<rparr>"

definition ref_state :: "ref_world \<Rightarrow> ref_world server_state" where
  "ref_state w = \<lparr>ss_world = w, ss_access_log = []\<rparr>"

abbreviation ref_serve where
  "ref_serve \<equiv> provider_serve ref_chi (\<lambda>_. '''') ref_binder utc_text 0 (cf_Server ref_config) None
     (Inr volumesBasePath) ref_handler"

lemma ref_canonical: "canonical_volume ref_body"
  by (simp add: canonical_volume_def ref_body_def ref_spec_def sorted_keys_def canonical_hints_def)

lemma ref_post_body:
  "Option.bind (rq_Body ref_post) (\<lambda>j. Unmarshal_Volume utc_text j zero_volume) = Some ref_body"
proof -
  have "Marshal_Volume utc_text ref_body \<noteq> None" by code_simp
  then obtain j where "Marshal_Volume utc_text ref_body = Some j" by auto
  then show ?thesis using utc.Volume_roundtrip [OF ref_canonical] by (simp add: ref_post_def)
qed

lemma ref_usual [simp]: "usual_path (Inr volumesBasePath)"
  by (simp add: usual_path_def)

lemma ref_posted:
  obtains w s doc where "ref_serve ref_post (ref_state ref_empty) = (Completed, w, s)"
    and "answered 201 ''application/json'' doc w" and "ss_world s = ref_one"
proof -
  let ?req = "\<lparr>cvr_Params = \<lparr>cp_Id = None\<rparr>, cvr_Body = Some ref_body\<rparr>"
  have r: "ref_api.accepts (Inr volumesBasePath) utc_text (composite_ssi ref_handler 0) ref_post (ReqCreateVolume ?req)"
    by (rule ref_api.routed_create [OF ref_usual _ _ _ ref_post_body])
      (simp_all add: ref_post_def query_is_def)
  have h: "composite_handle ref_handler 0 (ReqCreateVolume ?req) (ss_world (ref_state ref_empty)) =
      (Inr (RespCreateVolume (CreateVolume201 ref_volume)), ref_one)"
    using ref_create by (simp add: composite_handle_def ref_handler_def ref_repo_def ref_state_def ref_req_def)
  have enc: "encodable utc_text (RespCreateVolume (CreateVolume201 ref_volume))" by code_simp
  have "passes None ref_post" by (simp add: passes_def)
  from ref_api.provider_delivers [OF this r h, where cfg = "cf_Server ref_config" and lib = "\<lambda>_. ''''"]
  show thesis using that enc by (auto simp: delivered_def)
qed

section \<open>Calls of the client\<close>

abbreviation ref_caller :: "ref_world server_state ClientInterface" where
  "ref_caller \<equiv> api_client ref_styler utc_text ''http'' ''localhost'' (connection (\<lambda>_. '''') ref_serve)"

lemma ref_origin [simp]: "valid_scheme ''http''" "valid_host ''localhost''"
  by code_simp+

lemma ref_composite:
  "composite_handle ref_handler now (ReqCreateVolume ref_req) (ss_world (ref_state ref_empty)) =
     (Inr (RespCreateVolume (CreateVolume201 ref_volume)), ref_one)"
  using ref_create by (simp add: composite_handle_def ref_handler_def ref_repo_def ref_state_def)

lemma ref_addressable: "addressable utc_text (ReqCreateVolume ref_req)"
proof -
  have "Marshal_Volume utc_text ref_body \<noteq> None" by code_simp
  then show ?thesis by (simp add: ref_req_def ref_canonical)
qed

lemma ref_stored_canonical: "canonical_volume ref_volume"
proof -
  have "case spec_ProviderHints (vol_Spec ref_volume) of None \<Rightarrow> False | Some h \<Rightarrow> ph_AdditionalProperties h = None"
    and "md_Labels (spec_Metadata (vol_Spec ref_volume)) = Some [(''team'', ''a'')]" by code_simp+
  then show ?thesis by (simp add: canonical_volume_def sorted_keys_def canonical_hints_def split: option.splits)
qed

lemma ref_called:
  obtains r1 s1 where "CreateVolumeWithResponse utc_text ref_caller (Some (cvr_Params ref_req)) ref_body []
      (ref_state ref_empty) = (Inr r1, s1)"
    and "ccr_JSON201 r1 = Some ref_volume"
proof -
  have "passes None (op_request utc_text (ReqCreateVolume ref_req))" by (simp add: passes_def)
  moreover have "encodable utc_text (RespCreateVolume (CreateVolume201 ref_volume))" by code_simp
  ultimately obtain res s1 where c: "client_do utc_text ref_caller (ReqCreateVolume ref_req)
      (ref_state ref_empty) = (Inr res, s1)" "seen (RespCreateVolume (CreateVolume201 ref_volume)) res"
    using ref_client.client_served [OF ref_usual ref_origin ref_addressable _ ref_composite, where st = "\<lambda>_. ''''"
        and now = 0 and cfg = "cf_Server ref_config" and lib = "\<lambda>_. ''''" and specRouter = None] ref_stored_canonical
    by auto
  then obtain r1 where "res = SawCreate r1" "ccr_JSON201 r1 = Some ref_volume" by (cases res) auto
  with c(1) show thesis using that
    by (cases "CreateVolumeWithResponse utc_text ref_caller (Some (cvr_Params ref_req)) ref_body []
          (ref_state ref_empty)")
      (auto simp: client_do_def map_sum_Inr)
qed

section \<open>The registrar\<close>

lemma ref_registrar:
  "NewRegistrar (\<lambda>_ _. None) ref_config [] =
     Inr \<lparr>rg_cfg = ref_config, rg_initialBackoff = 1 * Second, rg_maxBackoff = 60 * Second\<rparr>"
proof -
  have "case url_Parse (dcm_RegistrationURL (cf_DCM ref_config)) of
      None \<Rightarrow> False | Some u \<Rightarrow> u_Scheme u \<noteq> [] \<and> u_Host u \<noteq> []" by code_simp
  then show ?thesis by (auto simp: NewRegistrar_def Let_def split: option.splits)
qed

lemma ref_probe_url: "probe_url_ok ''localhost:8080''"
  unfolding probe_url_ok_def by code_simp

section \<open>A process\<close>

definition ref_run_env :: run_env where
  "ref_run_env = \<lparr>re_probe = (\<lambda>k. if k < 2 then Inl ''refused'' else Inr 200),
     re_wake = (\<lambda>_. TickerFired), re_select = None, re_shutdown = None\<rparr>"

definition ref_process :: "(unit, unit) process_env" where
  "ref_process =
     \<lparr>pe_Parse = ref_Parse, pe_environ = ref_env, pe_Listen = (\<lambda>_. Inr ''localhost:8080''),
      pe_dcm_client = (\<lambda>_ _. None), pe_nats_Connect = (\<lambda>_ _. None),
      pe_kube = \<lparr>kl_BuildConfigFromFlags = (\<lambda>_ _. Inl ''no file''), kl_InClusterConfig = Inr (),
                 kl_NewForConfig = (\<lambda>_. Inr ())\<rparr>,
      pe_server = ref_run_env\<rparr>"

lemma ref_probes: "probe_ends ref_run_env 2" "ready_by ref_run_env ''localhost:8080'' 3"
  unfolding ready_by_def by (auto simp: ref_run_env_def probe_ends_def ref_probe_url intro!: exI [of _ 2])

lemma ref_kubeconfig: "ku_Kubeconfig (cf_Kubernetes ref_config) = ''''"
  by code_simp

lemma ref_boots: "boots ref_process ref_config ''localhost:8080''"
  by (simp add: boots_def ref_process_def ref_loaded ref_registrar NewNATSPublisher_def K8s_NewClient_def
      ref_kubeconfig)

lemma ref_process_env [simp]: "pe_server ref_process = ref_run_env"
  by (simp add: ref_process_def)

definition ref_start_env :: start_env where
  "ref_start_env = \<lparr>se_AddEventHandler = (\<lambda>_. None), se_WaitForCacheSync = (\<lambda>_. [(''cache'', True)]),
     se_ctx_Err = (\<lambda>_. None)\<rparr>"

section \<open>The embedded document\<close>

definition ref_spec_lib :: "(string, (string \<times> bool) list) spec_lib" where
  "ref_spec_lib = \<lparr>sl_base64 = Inr, sl_gzip_open = Inr, sl_gzip_read = Inr,
     sl_load = (\<lambda>read data. if data = ''openapi'' then Inr openapi_paths else Inl ''invalid document'')\<rparr>"

lemma ref_swagger: "GetSwagger ref_spec_lib [''open'', ''api''] = Inr openapi_paths"
  by (simp add: GetSwagger_cases decodeSpec_def ref_spec_lib_def)

section \<open>Two creations at the same time\<close>

text \<open>Both check the storage class before either of them calls \<^verbatim>\<open>Create\<close>.\<close>

definition ref_race :: "ref_world conc_label list" where
  "ref_race = [Spawn (OpCreate ref_spec ''data''), Spawn (OpCreate ref_spec ''data''),
     RunThread 0, RunThread 1, RunThread 1, RunThread 0]"

definition ref_race_end :: "(ref_world, ref_err) conc" where
  "ref_race_end =
     the (conc_run ref_lib ref_kube ref_cfg \<lparr>cc_world = ref_empty, cc_threads = []\<rparr> ref_race)"

lemma ref_race_runs:
  "case conc_run ref_lib ref_kube ref_cfg \<lparr>cc_world = ref_empty, cc_threads = []\<rparr> ref_race of
     None \<Rightarrow> False
   | Some s \<Rightarrow> winners ''data'' (cc_threads s) = 1 \<and>
       map th_op (cc_threads s) = [OpCreate ref_spec ''data'', OpCreate ref_spec ''data''] \<and>
       map th_pc (cc_threads s) =
         [Ended (Created (Inl (ConflictError (''volume '' @ go_quote ''data'' @ '' already exists'')))),
          Ended (Created (Inr ref_volume))]"
  by code_simp

lemma ref_race_reachable:
  "conc_reachable ref_lib ref_kube ref_cfg ref_objs rf_up ref_race_end"
proof -
  have "conc_reachable ref_lib ref_kube ref_cfg ref_objs rf_up \<lparr>cc_world = ref_empty, cc_threads = []\<rparr>"
    by (rule conc_reachable.start) simp
  moreover obtain s where "conc_run ref_lib ref_kube ref_cfg \<lparr>cc_world = ref_empty, cc_threads = []\<rparr> ref_race = Some s"
    using ref_race_runs by (auto split: option.splits)
  ultimately show ?thesis unfolding ref_race_end_def by (simp add: conc_run_reachable)
qed

lemma ref_race_result:
  "winners ''data'' (cc_threads ref_race_end) = 1"
  "map th_op (cc_threads ref_race_end) = [OpCreate ref_spec ''data'', OpCreate ref_spec ''data'']"
  "map th_pc (cc_threads ref_race_end) =
     [Ended (Created (Inl (ConflictError (''volume '' @ go_quote ''data'' @ '' already exists'')))),
      Ended (Created (Inr ref_volume))]"
  using ref_race_runs unfolding ref_race_end_def by (auto split: option.splits)

end
