(* ===== verification/Spec2Isabelle.thy ===== *)
theory Spec2Isabelle
  imports Samples
begin

text \<open>
  The Kubernetes storage service provider of the DCM project: an HTTP service that creates,
  reads, lists and deletes volumes as PersistentVolumeClaims (PVCs) of one namespace, and that
  reports status changes of these PVCs as CloudEvents on NATS; with the generated client of its API.

  \<^bold>\<open>The program and how its parts interact.\<close> \<^verbatim>\<open>cmd/.../main.go\<close> loads the configuration, builds the
  Kubernetes store, joins the health and the volume handlers in a composite handler behind the
  generated HTTP server, registers the provider with DCM once the server is ready, and runs the
  status monitor beside it. A request passes the middlewares and the validation of
  \<^verbatim>\<open>internal/apiserver\<close> and the routes, parameter binding and JSON decoding of the generated
  \<^verbatim>\<open>internal/api/server\<close>, and reaches a handler (\<^verbatim>\<open>internal/handlers\<close>), which validates it, calls the
  store through the interface of \<^verbatim>\<open>internal/store\<close> and maps the store's typed errors to RFC 9457 documents. The store
  (\<^verbatim>\<open>internal/kubernetes\<close>) converts between volumes and PVCs and calls the API server. The monitor
  (\<^verbatim>\<open>internal/monitoring\<close>) gets notifications from two informers, computes a status event with the
  store's status function, drops repetitions, hands the event to a debouncer, whose timers publish
  it with retries. The generated \<^verbatim>\<open>pkg/client\<close> is the other side of the API: it builds the requests
  and reads the answers.

  \<^bold>\<open>Theories and the code they model.\<close>
  \<^item> \<open>Prelude\<close>: Go's basic types and the parts of its standard library the code calls; generic lemmas;
    the collections \<open>consts_def\<close> and \<open>op_defs\<close>.
  \<^item> \<open>Net_Url\<close>: \<^verbatim>\<open>net/url\<close> as the code uses it: escapes, the parser, references, queries, and their
    round trips on the URLs that occur.
  \<^item> \<open>Api_Types\<close>: \<^verbatim>\<open>api/v1alpha1/types.gen.go\<close>, its structs as records, its enumerations as strings
    with the constants and \<^verbatim>\<open>Valid\<close> functions of the source.
  \<^item> \<open>Json_Codec\<close>: the JSON form of these types, as \<^verbatim>\<open>encoding/json\<close> and the methods of \<^verbatim>\<open>ProviderHints\<close>
    write and read it, with the round trips; the texts of instants are the locale \<open>time_texts\<close>, which
    \<open>Time_Text\<close> interprets at RFC 3339 in UTC.
  \<^item> \<open>Store_Errors\<close>: \<^verbatim>\<open>internal/store\<close>, the typed errors as a datatype and the interface
    \<^verbatim>\<open>VolumeRepository\<close> as a record of functions; its contract is the locale \<open>volume_repository\<close>.
  \<^item> \<open>Kube_Types\<close>: the PVC as the code reads and writes it; the third-party functions the code
    calls, as the parameters \<open>klib\<close> (labels and quantities) and \<open>kube\<close> (the client), with their
    documented behaviour as the locales \<open>apimachinery\<close>, \<open>kube_api\<close> and \<open>quiet_kube_api\<close> (the API server
    answers and nobody else touches the objects).
  \<^item> \<open>Dcm_Labels\<close>: \<^verbatim>\<open>internal/dcm/labels.go\<close>, \<^verbatim>\<open>internal/kubernetes/labels.go\<close>,
    \<^verbatim>\<open>internal/monitoring/indexer.go\<close>.
  \<^item> \<open>Convert\<close>: \<^verbatim>\<open>internal/kubernetes/convert.go\<close>, the status of a PVC, \<^verbatim>\<open>volumeFromPVC\<close> and
    \<^verbatim>\<open>buildPVC\<close> with the resolution of modes and storage class.
  \<^item> \<open>K8s_Store\<close>: \<^verbatim>\<open>store*.go\<close> of \<^verbatim>\<open>internal/kubernetes\<close>. An operation \<open>K8s_Create\<close>, \<open>K8s_Get\<close>,
    \<open>K8s_List\<close>, \<open>K8s_Delete\<close> takes the state of the cluster and returns the result with the state
    after the client calls it makes. In \<open>k8s_store\<close> the store is shown to implement the contract
    \<open>volume_repository\<close> (a sublocale): \<open>k8s_vols\<close> abstracts the objects of the cluster to a map from
    ids to volumes, and each operation is the map operation of its name.
  \<^item> \<open>Paging\<close>: \<^verbatim>\<open>store_list.go\<close> against the API server's chunked lists (\<open>kube_paging\<close>), with the loop
    a client runs over \<^verbatim>\<open>next_page_token\<close>.
  \<^item> \<open>Concurrent\<close>: the operations of \<open>K8s_Store\<close> cut at their calls of the API server, the pieces of any
    number of them interleaved with other clients.
  \<^item> \<open>Ref_Cluster\<close>: a concrete API server and library, at which these locales are interpreted.
  \<^item> \<open>Volume_Handler\<close>, \<open>Health_Handler\<close>: \<^verbatim>\<open>internal/handlers/{volume,health,composite}\<close>, with the
    regular expression of the id as a value and its matcher. A handler returns \<open>error + response\<close>;
    the \<open>response\<close> types have one constructor for each status the code answers with.
  \<^item> \<open>Http\<close>: what the server uses of \<^verbatim>\<open>net/http\<close>: requests, response writers with the one status line
    that is sent, handlers that return or panic.
  \<^item> \<open>Server_Gen\<close>: \<^verbatim>\<open>internal/api/server/server.gen.go\<close>, from the routes over the parameter binding to
    the strict handler and the writers of its responses.
  \<^item> \<open>Http_Server\<close>: \<^verbatim>\<open>internal/apiserver/server.go\<close> and \<^verbatim>\<open>internal/httperror\<close>: the error handlers with
    the scrubbing of errors, the middlewares, the assembly \<open>New\<close>, the wait for readiness and \<open>Run\<close>.
  \<^item> \<open>Http_Api\<close>, \<open>Http_Service\<close>: the assembled server, without and with the handlers on the store. The
    router \<^verbatim>\<open>chi\<close> and the parameter binding of \<^verbatim>\<open>oapi-codegen/runtime\<close> are the locales \<open>chi_router\<close> and
    \<open>param_binding\<close>, joined in \<open>api_server\<close>.
  \<^item> \<open>Client_Gen\<close>: \<^verbatim>\<open>pkg/client/client.gen.go\<close>: options, request builders, editors, the calls and the
    readers of the answers; the parameter styles are the locale \<open>param_styling\<close>.
  \<^item> \<open>Client_Server\<close>: the client against the server over a connection (locale \<open>client_server\<close>): the
    request of each operation is the one the server routes to its handler, and the answer is read back.
  \<^item> \<open>Ref_Http\<close>: a router, a binding and styles at which these locales are interpreted.
  \<^item> \<open>Service\<close>: the handlers on top of the store, in terms of the objects of the cluster.
  \<^item> \<open>Config\<close>: \<^verbatim>\<open>internal/config/config.go\<close>, with the struct tags as the table \<open>env_tags\<close> and the
    parser of them a parameter (\<open>env_parser\<close>, interpreted at \<open>ref_Parse\<close>).
  \<^item> \<open>Registration\<close>: \<^verbatim>\<open>internal/registration\<close> and \<^verbatim>\<open>api/v1alpha1/paths.go\<close>. The answers of DCM are a
    function of the number of the attempt and the payload, the cancellation of the waits one of the
    number.
  \<^item> \<open>Api_Spec\<close>: \<^verbatim>\<open>api/v1alpha1/spec.gen.go\<close>, the decoding and loading of the embedded document; no
    reference out of it is resolved.
  \<^item> \<open>Publisher\<close>: \<^verbatim>\<open>publisher.go\<close> and \<^verbatim>\<open>event.go\<close> of \<^verbatim>\<open>internal/monitoring\<close>; the CloudEvents SDK is
    the parameter \<open>ce_sdk\<close> under the locale \<open>cloudevents_sdk\<close>, interpreted at \<open>ref_sdk\<close>.
  \<^item> \<open>Debouncer\<close>: \<^verbatim>\<open>debouncer.go\<close>. The state under \<^verbatim>\<open>d.mu\<close> is the record \<open>Debouncer\<close>; the sections
    under the lock are functions (\<open>Submit\<close>, \<open>callback_section\<close>, \<open>Stop_section\<close>), as is what a goroutine
    does after its call of \<^verbatim>\<open>publishFn\<close> (\<open>callback_done\<close>). \<open>perform\<close> gives the effect of a step and
    \<open>enabled\<close> when it can be taken; \<open>deb_step\<close> interleaves clients, clock, timers, goroutines and
    \<^verbatim>\<open>Stop\<close>. The traces \<open>sy_accepted\<close>, \<open>sy_superseded\<close> and \<open>sy_last\<close> are history for the statements.
  \<^item> \<open>Monitor\<close>: \<^verbatim>\<open>monitor.go\<close>, \<^verbatim>\<open>k8s_events.go\<close>, \<^verbatim>\<open>config.go\<close>. \<open>submit_section\<close> is the part of
    \<^verbatim>\<open>submitIfChanged\<close> under \<^verbatim>\<open>m.mu\<close>, \<open>publish_attempts\<close> the retry loop. The client side of the debouncer
    is proved in the locale \<open>event_queue\<close>, interpreted on \<open>Submit\<close>.
  \<^item> \<open>Monitor_System\<close>: what runs at the same time in \<^verbatim>\<open>Start\<close>, interleaved at the granularity of the
    two locks, over the debouncer's own step relation.
  \<^item> \<open>Monitor_Start\<close>: \<^verbatim>\<open>Start\<close> of \<^verbatim>\<open>monitor.go\<close> from the informer factories to the shutdown.
  \<^item> \<open>Process\<close>: \<^verbatim>\<open>cmd/.../main.go\<close> and \<^verbatim>\<open>internal/kubernetes/client.go\<close>: the start-up with its deferred
    calls, the readiness callback, the exit code. \<open>Shutdown\<close>: the end of the process, interleaved with
    the monitor.
  \<^item> \<open>Samples\<close>: concrete inputs for the theorems below.

  \<^bold>\<open>What the lemmas show.\<close> Requests: each handler and store operation on every branch; from that what a
  caller of the handlers, of the server and of the client sees of a creation, deletion and listing
  on the cluster, and what holds of creations that run at the same time (C1 to C12, C16 to C19). The server: that
  every request is answered, with what, its readiness and how a run ends (C13 to C15, C20 to C21). The process, the configuration and the registration: what a configuration that loads
  guarantees, the order and the end of the process, the endpoint, the exact end of the retry loop
  (C22 to C27). Status events: the invariant \<open>deb_inv\<close> of the debouncer over all interleavings, with what
  it gives for liveness, the window and \<^verbatim>\<open>Stop\<close>; a refinement to a coalescing queue; the monitor's
  invariant \<open>sends_inv\<close>; its start and shutdown (C28 to C40). Some theorems show runs of the model in which
  the program does not do what its comments or specification promise. The theorems about the store
  and the server are about every cluster, library and router that satisfy the interface locales, as
  named hypotheses; their witnesses use the reference instances.

  \<^bold>\<open>Bounds and fuel.\<close> Integers: \<^verbatim>\<open>int32\<close> page sizes and statuses and \<^verbatim>\<open>uint64\<close> versions are words;
  \<^verbatim>\<open>time.Duration\<close> and \<^verbatim>\<open>time.Time\<close> are integers of nanoseconds, with the wrap-around at 64 bits (\<open>wrap64\<close>)
  where the code multiplies: the doubling of both backoffs and the debounce interval. The loops that
  may run for ever take fuel, and \<open>None\<close> is its end: \<open>run n\<close> looks at the first \<open>n\<close> attempts of the
  registration, and C26 says when some fuel gives a result, C27 which; \<open>waitForReady\<close>, \<open>Run\<close> and
  \<open>process_run\<close> look at as many probes, and any fuel above the number of a probe that ends the wait
  is enough (C20, C22). The publication loop is total (its measure is the number of attempts
  left). The client's loop over pages takes fuel as well, and C18 shows that one more than the
  number of objects is enough.

  \<^bold>\<open>Not modelled.\<close> Logging, but for the request log; contexts except for their cancellation and deadline
  where the code looks at them; the bytes of a JSON text (a document is a value), of the compressed
  OpenAPI document and of TCP connections (the server's accept loop is the list of its requests); the
  texts of errors of libraries, which are parameters; the escapes of non-ASCII bytes in \<^verbatim>\<open>%q\<close>; the
  rounding of \<^verbatim>\<open>float64\<close> in the uptime; the machinery of the informers (their calls are arbitrary
  inputs of the handlers); the Go memory model below the locks. \<^verbatim>\<open>internal/util\<close> and \<^verbatim>\<open>tools.go\<close> have
  no behaviour of their own, and \<^verbatim>\<open>internal/store/health.go\<close> is the field of \<open>VolumeRepository\<close> that
  \<open>repo_checker\<close> reads.
\<close>

section \<open>Requests\<close>

text \<open>
  C9. Every POST either reaches the store, once, with the id of the query (else the name of the
  body) written into the specification, or is answered 400 with the cluster untouched; it
  reaches the store exactly when the service type is storage, the capacity is set, the id has
  the AEP-122 form and is not the reserved one, and no reserved label is set.
\<close>
theorem create_checked:
  "case cvr_Body req of
     None \<Rightarrow>
       CreateVolume R req w = (Inr (newCreateError400 ''request body is required'' volumesBasePath), w)
   | Some body \<Rightarrow>
       (let i = request_id req body in
        if acceptable i (vol_Spec body) then
          CreateVolume R req w =
            (case repo_Create R (set_name i (vol_Spec body)) i w of
               (Inl err, w') \<Rightarrow> (Inr (mapCreateError err volumesBasePath), w')
             | (Inr v, w') \<Rightarrow> (Inr (CreateVolume201 v), w'))
        else \<exists>detail. CreateVolume R req w = (Inr (newCreateError400 detail volumesBasePath), w))"
  by (auto simp: CreateVolume_no_body CreateVolume_accepted Let_def split: option.splits
      intro: CreateVolume_rejected)

text \<open>
  C17. The id check, a run of the regular expression of the source, accepts exactly the strings
  of 1 to 63 characters among lower-case letters, digits and hyphens that begin and end with no
  hyphen, except the reserved id health.
\<close>
theorem volume_id_pattern:
  "validateVolumeID i = None \<longleftrightarrow>
     i \<noteq> ''health'' \<and> 1 \<le> length i \<and> length i \<le> 63 \<and>
     set i \<subseteq> set ''abcdefghijklmnopqrstuvwxyz0123456789-'' \<and> hd i \<noteq> CHR ''-'' \<and> last i \<noteq> CHR ''-''"
proof -
  have sets: "set ''abcdefghijklmnopqrstuvwxyz0123456789-'' = insert CHR ''-'' (set alnum)"
    and hyphen: "CHR ''-'' \<notin> set alnum" by code_simp+
  show ?thesis
  proof (cases "i = []")
    case True
    then show ?thesis by (simp add: validateVolumeID_None aep122_def)
  next
    case False
    have "hd i \<in> insert CHR ''-'' (set alnum) \<and> last i \<in> insert CHR ''-'' (set alnum)"
      if "set i \<subseteq> insert CHR ''-'' (set alnum)"
      using that False by (meson hd_in_set last_in_set subsetD)
    moreover have "1 \<le> length i" using False by (simp add: Suc_le_eq)
    ultimately show ?thesis
      using False hyphen unfolding validateVolumeID_None aep122_def sets by auto
  qed
qed

text \<open>
  C12. Every handler answers (none returns a Go error), and every answer is either a success
  status or a problem document whose status field is the status of the response, whose type
  goes with that status in the error table, and which says nothing about the cause when it is
  an internal error.
\<close>
theorem responses_wellformed:
  "\<exists>resp. fst (composite_handle h now req w) = Inr resp \<and> problem_ok resp"
proof (cases req)
  case ReqGetHealth
  then show ?thesis by (simp add: composite_handle_def GetHealth_def problem_ok_def Let_def)
next
  case (ReqListVolumes params)
  then show ?thesis using ListVolumes_ok [of "ch_volume h" params w] by (auto simp: composite_handle_def)
next
  case (ReqCreateVolume r)
  then show ?thesis using CreateVolume_ok [of "ch_volume h" r w]
    by (auto simp: composite_handle_def split: prod.splits)
next
  case (ReqGetVolume i)
  then show ?thesis using GetVolume_ok [of "ch_volume h" i w] by (auto simp: composite_handle_def)
next
  case (ReqDeleteVolume i)
  then show ?thesis using DeleteVolume_ok [of "ch_volume h" i w]
    by (auto simp: composite_handle_def split: prod.splits)
qed

section \<open>Volumes\<close>

text \<open>
  C1. A POST that answers 201 has created the volume under the id of the request: a GET of that
  id right after it returns the very volume, and the answers for all other ids are what they
  were. (The cluster answers and nobody else touches it in between.)
\<close>
theorem created_volume_readable:
  assumes "k8s_store K objs classes up L" and "up w"
    and "CreateVolume (K8sVolumeStore L K cfg) req w = (Inr (CreateVolume201 v), w')"
    and "cvr_Body req = Some body"
  shows "GetVolume (K8sVolumeStore L K cfg) (request_id req body) w' = Inr (GetVolume200 v) \<and>
    vol_Id v = Some (request_id req body) \<and>
    (\<forall>j. j \<noteq> request_id req body \<longrightarrow>
       GetVolume (K8sVolumeStore L K cfg) j w' = GetVolume (K8sVolumeStore L K cfg) j w)"
  using volume_repository.handler_create_get [OF k8s_store.repository [OF assms(1)] assms(2-4)] by blast

theorem created_volume_readable_witness:
  "GetVolume (K8sVolumeStore ref_lib ref_kube ref_cfg) ''data'' ref_one = Inr (GetVolume200 ref_volume)"
  using created_volume_readable [OF ref.k8s_store_axioms _ ref_create, of ref_body] by simp

text \<open>
  C8. An acceptable POST is refused in this order and without any change to the cluster: 422
  when the resolved storage class does not exist, 400 when the capacity does not parse or a
  mode is unsupported, 409 when a PVC of that name exists, managed or not.
\<close>
theorem create_refused:
  assumes "k8s_store K objs classes up L" and "up w" and "cvr_Body req = Some body"
    and "acceptable (request_id req body) (vol_Spec body)"
    and "resolveStorageClass (vol_Spec body) (kc_DefaultStorageClass cfg) = c"
  shows "if c \<noteq> '''' \<and> c \<notin> classes w then
      CreateVolume (K8sVolumeStore L K cfg) req w =
        (Inr (CreateVolume422 (problem FAILEDPRECONDITION ''Failed precondition'' 422
           (''StorageClass '' @ go_quote c @ '' does not exist'') volumesBasePath)), w)
    else if \<not> buildable L cfg (vol_Spec body) then
      \<exists>detail. CreateVolume (K8sVolumeStore L K cfg) req w =
        (Inr (newCreateError400 detail volumesBasePath), w)
    else objs w (kc_Namespace cfg) (request_id req body) = None \<or>
      CreateVolume (K8sVolumeStore L K cfg) req w =
        (Inr (CreateVolume409 (problem ALREADYEXISTS ''Already exists'' 409
           (''volume '' @ go_quote (request_id req body) @ '' already exists'') volumesBasePath)), w)"
  using k8s_store.handler_missing_class [OF assms(1-5)]
    k8s_store.handler_not_buildable [OF assms(1-4)] k8s_store.handler_conflict [OF assms(1-4)] assms(5)
  by (cases "objs w (kc_Namespace cfg) (request_id req body)") auto

theorem create_refused_witness:
  "CreateVolume (K8sVolumeStore ref_lib ref_kube ref_cfg) ref_req ref_one =
    (Inr (CreateVolume409 (problem ALREADYEXISTS ''Already exists'' 409
       (''volume '' @ go_quote ''data'' @ '' already exists'') volumesBasePath)), ref_one)"
  using create_refused [OF ref.k8s_store_axioms ref_up(2) ref_request(1), of ref_cfg "''fast''"]
    ref_acceptable ref_buildable ref_stored
  by (simp add: ref_one_class)

text \<open>
  C7. A successful creation turns the specification into a managed PVC, under a name that was
  free, and the volume it reports carries the specification back: name and path, the canonical
  capacity, the access mode with its defaults, the storage class and volume mode asked for, and
  exactly the labels of the user outside the reserved keys.
\<close>
theorem create_reports_request:
  assumes "k8s_store K objs classes up L" and "up w"
    and "K8s_Create L K cfg spec i w = (Inr v, w')"
  shows "md_Name (spec_Metadata (vol_Spec v)) = i \<and> vol_Path v = Some (''volumes/'' @ i) \<and>
      isDCMManagedPVC (objs w' (kc_Namespace cfg) i) i \<and> objs w (kc_Namespace cfg) i = None \<and>
      (\<exists>q. ParseQuantity L (spec_Capacity spec) = Inr q \<and>
        spec_Capacity (vol_Spec v) = Quantity_String L q) \<and>
      Option.bind (k8s_hints (vol_Spec v)) kh_AccessMode = Some (wanted_mode spec cfg) \<and>
      (resolveStorageClass spec (kc_DefaultStorageClass cfg) \<noteq> '''' \<longrightarrow>
        Option.bind (k8s_hints (vol_Spec v)) kh_StorageClass =
          Some (resolveStorageClass spec (kc_DefaultStorageClass cfg))) \<and>
      (\<forall>vm. Option.bind (k8s_hints spec) kh_VolumeMode = Some vm \<longrightarrow>
        Option.bind (k8s_hints (vol_Spec v)) kh_VolumeMode = Some vm) \<and>
      (\<forall>k. spec_label (vol_Spec v) k = (if ReservedLabelKeys k then None else spec_label spec k))"
  using k8s_store.create_echo [OF assms] k8s_store.create_sound [OF assms] k8s_store.create_named [OF assms]
  by blast

theorem create_reports_request_witness:
  "spec_label (vol_Spec ref_volume) ''team'' = Some ''a'' \<and>
   Option.bind (k8s_hints (vol_Spec ref_volume)) kh_StorageClass = Some ''fast'' \<and>
   Option.bind (k8s_hints (vol_Spec ref_volume)) kh_AccessMode = Some ''ReadWriteOnce''"
  using create_reports_request [OF ref.k8s_store_axioms ref_up(1) ref_K8s_create] ref_resolved by simp

text \<open>
  C10. A DELETE of an id that names no managed volume answers 404 and changes nothing.
  Otherwise it answers 204, after which the volume is gone or reported as DELETING, and the
  answers for all other ids are what they were.
\<close>
theorem delete_volume:
  assumes "k8s_store K objs classes up L" and "up w"
  shows "if k8s_vols L cfg objs w i = None then
      DeleteVolume (K8sVolumeStore L K cfg) i w =
        (Inr (DeleteVolume404 (problem NOTFOUND ''Not found'' 404
           (''volume '' @ go_quote i @ '' not found'') (volumesBasePath @ ''/'' @ i))), w)
    else \<exists>w'. DeleteVolume (K8sVolumeStore L K cfg) i w = (Inr DeleteVolume204, w') \<and>
      ((\<exists>e. GetVolume (K8sVolumeStore L K cfg) i w' = Inr (GetVolume404 e)) \<or>
       (\<exists>v. GetVolume (K8sVolumeStore L K cfg) i w' = Inr (GetVolume200 v) \<and>
          vol_Status v = Some DELETING)) \<and>
      (\<forall>j. j \<noteq> i \<longrightarrow> GetVolume (K8sVolumeStore L K cfg) j w' = GetVolume (K8sVolumeStore L K cfg) j w)"
  using volume_repository.handler_delete [OF k8s_store.repository [OF assms(1)] assms(2)] by auto

theorem delete_volume_witness:
  "\<exists>w'. DeleteVolume (K8sVolumeStore ref_lib ref_kube ref_cfg) ''data'' ref_one = (Inr DeleteVolume204, w')"
  using delete_volume [OF ref.k8s_store_axioms ref_up(2), of ref_cfg "''data''"] ref_vols by auto

text \<open>
  C11. Whatever the API server answers, the provider shows and deletes managed volumes alone: a
  GET 200 shows the PVC of that name in the configured namespace, labelled as managed with that
  id; a DELETE that changes anything has seen such a PVC; every listed volume comes from a PVC
  whose labels carry its own name as the id.
\<close>
theorem managed_only:
  "(GetVolume (K8sVolumeStore L K cfg) i w = Inr (GetVolume200 v) \<longrightarrow>
     (\<exists>p. PVC_Get K (kc_Namespace cfg) i w = Inr p \<and> isDCMManagedPVC (Some p) i \<and>
        v = volumeFromPVC L p i)) \<and>
   (snd (DeleteVolume (K8sVolumeStore L K cfg) i w) \<noteq> w \<longrightarrow>
     (\<exists>p. PVC_Get K (kc_Namespace cfg) i w = Inr p \<and> isDCMManagedPVC (Some p) i)) \<and>
   (ListVolumes (K8sVolumeStore L K cfg) params w = Inr (ListVolumes200 page) \<longrightarrow>
     (\<exists>vs. vl_Volumes page = Some vs \<and>
       (\<forall>u \<in> set vs. \<exists>p. isDCMManagedPVC (Some p) (pvc_Name p) \<and> u = volumeFromPVC L p (pvc_Name p))))"
  by (intro conjI impI GetVolume_managed DeleteVolume_managed ListVolumes_managed)

theorem managed_only_witness:
  "\<exists>p. PVC_Get ref_kube ''default'' ''data'' ref_one = Inr p \<and> isDCMManagedPVC (Some p) ''data''"
proof -
  have "rf_objs (snd (DeleteVolume (K8sVolumeStore ref_lib ref_kube ref_cfg) ''data'' ref_one)) = []"
    "rf_objs ref_one \<noteq> []" by code_simp+
  then have "snd (DeleteVolume (K8sVolumeStore ref_lib ref_kube ref_cfg) ''data'' ref_one) \<noteq> ref_one" by auto
  then show ?thesis
    using managed_only [of ref_lib ref_kube ref_cfg "''data''" ref_one] by (auto simp: ref_cfg_def)
qed

text \<open>
  The check that the PVC is managed and the deletion are two calls, and the deletion names the PVC
  only: when the managed volume is replaced in between by a PVC of somebody else, that one is
  deleted and the request succeeds.
\<close>

theorem delete_race:
  "fst (K8s_Delete (ref_kube\<lparr>Interleave := \<lambda>_. ref_foreign\<rparr>) ref_cfg ''data'' ref_one) = None \<and>
   (\<exists>p. PVC_Get ref_kube ''default'' ''data'' ref_foreign = Inr p \<and>
      \<not> isDCMManagedPVC (Some p) ''data'') \<and>
   rf_objs (snd (K8s_Delete (ref_kube\<lparr>Interleave := \<lambda>_. ref_foreign\<rparr>) ref_cfg ''data'' ref_one)) = []"
proof (intro conjI)
  have "case PVC_Get ref_kube ''default'' ''data'' ref_foreign of
      Inr p \<Rightarrow> \<not> isDCMManagedPVC (Some p) ''data'' | Inl _ \<Rightarrow> False" by code_simp
  then show "\<exists>p. PVC_Get ref_kube ''default'' ''data'' ref_foreign = Inr p \<and>
      \<not> isDCMManagedPVC (Some p) ''data''" by (auto split: sum.splits)
qed code_simp+



text \<open>
  C19. A list request with a valid token answers 200 with at most the requested number of
  volumes: 50 when no positive size is asked for and never more than 1000.
\<close>
theorem list_page_bound:
  assumes "kube_paging K objs classes up L raw cursor" and "up w"
    and "lp_PageToken params = tok" and "cursor w (case tok of Some t \<Rightarrow> t | None \<Rightarrow> '''') = Some pos"
  shows "\<exists>page vs. ListVolumes (K8sVolumeStore L K cfg) params w = Inr (ListVolumes200 page) \<and>
    vl_Volumes page = Some vs \<and>
    int (length vs) \<le> (case lp_MaxPageSize params of None \<Rightarrow> 50
       | Some n \<Rightarrow> if sint n \<le> 0 then 50 else min 1000 (sint n))"
  by (rule kube_paging.handler_page [OF assms])

theorem list_page_bound_witness:
  "\<exists>page vs. ListVolumes (K8sVolumeStore ref_lib ref_kube ref_cfg)
       \<lparr>lp_MaxPageSize = Some 7, lp_PageToken = None\<rparr> ref_one = Inr (ListVolumes200 page) \<and>
     vl_Volumes page = Some vs \<and> int (length vs) \<le> 7"
  using list_page_bound [OF ref.kube_paging_axioms ref_up(2),
      of "\<lparr>lp_MaxPageSize = Some 7, lp_PageToken = None\<rparr>" None 0 ref_cfg]
  by (simp add: ref_cursor_def)

text \<open>
  How an error of the API server during a list is answered: a status error with code 400 is the
  400 of the client, with its message unless it concerns the continue token or is empty, and
  everything else is an internal error.
\<close>

theorem list_error_answers:
  assumes "PVC_List K (kc_Namespace cfg) \<lparr>lo_LabelSelector = Selector L,
      lo_Limit = sint (normalizePageSize (case lp_MaxPageSize params of Some n \<Rightarrow> n | None \<Rightarrow> 0)),
      lo_Continue = (case lp_PageToken params of Some t \<Rightarrow> t | None \<Rightarrow> '''')\<rparr> w = Inl err"
  shows "ListVolumes (K8sVolumeStore L K cfg) params w =
    Inr (case AsAPIStatus K err of
           Some (code, msg) \<Rightarrow>
             if code = 400 then
               ListVolumes400 (problem INVALIDARGUMENT ''Invalid argument'' 400
                 (if sublist ''continue'' (to_lower msg) \<or> sublist ''page_token'' (to_lower msg) \<or>
                     sublist ''page token'' (to_lower msg) then ''invalid page_token''
                  else if msg = '''' then ''invalid argument'' else msg) volumesBasePath)
             else ListVolumes500 (problem INTERNAL InternalTitle 500 InternalDetail volumesBasePath)
         | None \<Rightarrow> ListVolumes500 (problem INTERNAL InternalTitle 500 InternalDetail volumesBasePath))"
  using assms
  by (auto simp: ListVolumes_def K8s_List_def Let_def mapListError_def mapListVolumesError_def
      contains_sublist split: option.splits)

theorem list_error_answers_witness:
  "ListVolumes (K8sVolumeStore ref_lib ref_kube ref_cfg)
     \<lparr>lp_MaxPageSize = None, lp_PageToken = Some ''?''\<rparr> ref_one =
   Inr (ListVolumes400 (problem INVALIDARGUMENT ''Invalid argument'' 400 ''invalid page_token'' volumesBasePath))"
proof -
  have l: "PVC_List ref_kube (kc_Namespace ref_cfg) \<lparr>lo_LabelSelector = Selector ref_lib,
      lo_Limit = sint (normalizePageSize (case None of Some n \<Rightarrow> n | None \<Rightarrow> 0)), lo_Continue = ''?''\<rparr> ref_one =
    Inl (RefStatus 400 ''invalid continue token'')"
    by (simp add: ref_kube_def ref_cursor_def)
  have "contains (to_lower ''invalid continue token'') ''continue''" by code_simp
  then show ?thesis
    using list_error_answers [where params = "\<lparr>lp_MaxPageSize = None, lp_PageToken = Some ''?''\<rparr>"
        and K = ref_kube and cfg = ref_cfg and L = ref_lib and w = ref_one
        and err = "RefStatus 400 ''invalid continue token''"] l
    by (simp add: contains_sublist ref_kube_def)
qed

text \<open>
  The reported status of a PVC follows the status table: DELETED without an object, DELETING with a
  deletion timestamp, FAILED when lost, RUNNING when bound with no active resize condition, else
  PROVISIONING.
\<close>

theorem status_table:
  "fst (MapPVCToStatus pvc) =
     (case pvc of
        None \<Rightarrow> DELETED
      | Some p \<Rightarrow>
          if pvc_DeletionTimestamp p \<noteq> None then DELETING
          else if pvc_Phase p = ClaimLost then FAILED
          else if pvc_Phase p = ClaimBound \<and>
              \<not> (\<exists>c \<in> set (pvc_Conditions p). cond_Status c = ConditionTrue \<and>
                   cond_Type c \<in> {PVC_Resizing, PVC_FSResizePending}) then RUNNING
          else PROVISIONING)"
  by (cases pvc) (simp add: MapPVCToStatus_def, simp add: MapPVCToStatus_fst active_resize_def)

text \<open>
  The update time of a volume is the latest transition time of the conditions of its PVC that is
  set, and the creation time when there is none.
\<close>
theorem update_time:
  "vol_UpdateTime (volumeFromPVC L p i) =
     (let ts = set (map cond_LastTransitionTime (pvc_Conditions p)) - {0} in
      Some (if ts = {} then pvc_CreationTimestamp p else Max ts))"
  by (simp add: volumeFromPVC_def latestPVCConditionTime_def later_foldl_None Let_def)

text \<open>
  The health endpoint always answers 200, reports healthy exactly when the API server reports its
  version, and an uptime in whole seconds that is never negative.
\<close>

theorem health_answer:
  "\<exists>hl. fst (composite_handle \<lparr>ch_health = \<lparr>hh_checker = Some (repo_checker (K8sVolumeStore L K cfg)),
        hh_startTime = t0, hh_version = ver\<rparr>, ch_volume = K8sVolumeStore L K cfg\<rparr> now ReqGetHealth w) =
      Inr (RespGetHealth (GetHealth200 hl)) \<and>
    (hl_Status hl = ''healthy'' \<longleftrightarrow> ServerVersion K w = None) \<and>
    hl_Status hl \<in> {''healthy'', ''unhealthy''} \<and> hl_Version hl = Some ver \<and>
    hl_Uptime hl = Some (if now < t0 then 0 else (now - t0) div Second)"
  by (auto simp: composite_handle_def GetHealth_def repo_checker_def CheckHealth_def Let_def
      whole_seconds_def Second_def Millisecond_def sgn_if max_def split: option.splits)

section \<open>Configuration and registration\<close>

text \<open>
  C24. A configuration that loads has all four required variables set and not empty, and its
  default access mode is one the store supports, so that a specification that names no mode
  never fails on it.
\<close>
theorem config_loaded:
  assumes "env_parser Parse" and "Load Parse env = Inr cfg"
  shows "(\<forall>name \<in> {''SP_NAME'', ''SP_ENDPOINT'', ''DCM_REGISTRATION_URL'', ''SP_NATS_URL''}.
      \<exists>v. env name = Some v \<and> v \<noteq> '''') \<and>
    pr_Name (cf_Provider cfg) \<noteq> '''' \<and> nats_URL (cf_NATS cfg) \<noteq> '''' \<and>
    (\<forall>s. Option.bind (k8s_hints s) kh_AccessMode = None \<longrightarrow>
       supported_mode (wanted_mode s (k8sCfg cfg)))"
  using env_parser.loaded_names [OF assms] loaded_modes [OF assms(2)] by blast

theorem config_loaded_witness:
  "\<exists>cfg. Load ref_Parse ref_env = Inr cfg \<and> pr_Name (cf_Provider cfg) \<noteq> ''''"
  using config_loaded [OF ref_env.env_parser_axioms] ref_loaded by blast

text \<open>
  C25. When the embedded OpenAPI document loads, and in whatever order its paths are walked,
  the package variable is initialised and the registration announces the endpoint of the
  provider with the path of the one POST operation, which is the base path of the volumes the
  handlers use; with the name of the provider, and metadata exactly when a region or a zone is
  configured.
\<close>
theorem registered_endpoint:
  assumes "GetSwagger lib swaggerSpec = Inr doc" and "set (InMatchingOrder doc) = set openapi_paths"
  shows "\<exists>path. endpointSuffix lib InMatchingOrder swaggerSpec = Inr path \<and>
    pv_Endpoint (BuildPayload path cfg) = pr_Endpoint (cf_Provider cfg) @ volumesBasePath \<and>
    pv_Name (BuildPayload path cfg) = pr_Name (cf_Provider cfg) \<and>
    pv_ServiceType (BuildPayload path cfg) = Storage \<and>
    (pv_Metadata (BuildPayload path cfg) = None \<longleftrightarrow>
       pr_Region (cf_Provider cfg) = [] \<and> pr_Zone (cf_Provider cfg) = [])"
  using endpointSuffix_loaded(2) [where InMatchingOrder = InMatchingOrder, OF assms] by (simp add: BuildPayload_def Let_def Storage_def serviceType_def)

theorem registered_endpoint_witness:
  "\<exists>path. endpointSuffix ref_spec_lib rev [''open'', ''api''] = Inr path \<and>
     pv_Endpoint (BuildPayload path ref_config) = pr_Endpoint (cf_Provider ref_config) @ volumesBasePath"
  using registered_endpoint [where InMatchingOrder = rev and cfg = ref_config, OF ref_swagger] by auto

text \<open>
  C26. The registration loop returns exactly when some attempt gets a decisive answer (2xx 200
  or 201, or a 4xx) or the context is cancelled during a wait; otherwise it retries for ever.
\<close>
theorem registration_ends:
  "(\<exists>fuel. run fuel path r answers cancelled \<noteq> None) \<longleftrightarrow>
     (\<exists>n. \<not> retries (answers n (BuildPayload path (rg_cfg r))) \<or> cancelled n)"
  by (rule run_ends_iff [OF HOL.refl])

theorem registration_ends_witness:
  "(\<exists>fuel. run fuel volumesBasePath \<lparr>rg_cfg = ref_config, rg_initialBackoff = Second, rg_maxBackoff = 60 * Second\<rparr>
      (\<lambda>n p. if n < 7 then Inr (503, '''') else Inr (201, '''')) (\<lambda>_. False) \<noteq> None) \<and>
   \<not> (\<exists>fuel. run fuel volumesBasePath \<lparr>rg_cfg = ref_config, rg_initialBackoff = Second, rg_maxBackoff = 60 * Second\<rparr>
      (\<lambda>_ _. Inl ''connection refused'') (\<lambda>_. False) \<noteq> None)"
  unfolding registration_ends by (auto simp: retries_def intro!: exI [of _ 7])

text \<open>
  C27. With the default options, the loop stops at the first decisive answer or cancelled wait:
  registered on 200 or 201, given up on 4xx, cancelled otherwise; and the waits before it are
  1, 2, 4 ... seconds, capped at 60.
\<close>
theorem registration_run:
  assumes "NewRegistrar new_client cfg [] = Inr r" and "p = BuildPayload path cfg"
    and "\<forall>k < n. retries (answers k p) \<and> \<not> cancelled k" and "\<not> retries (answers n p) \<or> cancelled n"
    and "n < fuel"
  shows "run fuel path r answers cancelled =
    Some (case answers n p of
            Inl _ \<Rightarrow> Cancelled
          | Inr (sc, _) \<Rightarrow> if sc \<in> {200, 201} then Registered
              else if 400 \<le> sc \<and> sc < 500 then GaveUp else Cancelled,
          map (\<lambda>k. min (Second * 2 ^ k) (60 * Second)) [0 ..< (if retries (answers n p) then Suc n else n)])"
  using default_run [where p = p and answers = answers and n = n and cancelled = cancelled and fuel = fuel, OF assms]
  by (simp add: end_at_def)

theorem registration_run_witness:
  "run 9 volumesBasePath \<lparr>rg_cfg = ref_config, rg_initialBackoff = 1 * Second, rg_maxBackoff = 60 * Second\<rparr>
     (\<lambda>n p. if n < 7 then Inr (503, '''') else Inr (201, '''')) (\<lambda>_. False) =
   Some (Registered, map (\<lambda>s. s * Second) [1, 2, 4, 8, 16, 32, 60])"
proof -
  have "NewRegistrar (\<lambda>_ _. None) ref_config [] =
      Inr \<lparr>rg_cfg = ref_config, rg_initialBackoff = 1 * Second, rg_maxBackoff = 60 * Second\<rparr>"
    by (rule ref_registrar)
  from registration_run [OF this HOL.refl, of 7 "\<lambda>n p. if n < 7 then Inr (503, []) else Inr (201, [])" volumesBasePath
      "\<lambda>_. False" 9]
  show ?thesis by (simp add: retries_def Second_def Millisecond_def upt_conv_Cons)
qed

text \<open>
  However often the registrar is started, at most one registration goroutine exists and the done
  channel is closed at most once.
\<close>
theorem done_once:
  assumes "reg_reachable s"
  shows "rs_running s + rs_closed s \<le> 1"
  using reg_reachable_inv [OF assms] by (simp add: reg_inv_def split: if_splits)

theorem done_once_witness:
  "rs_running (Registrar_Start (Registrar_Start reg_init)) \<le> 1"
proof -
  have "reg_reachable (Registrar_Start (Registrar_Start reg_init))"
    by (intro reg_reachable.step [OF reg_reachable.step [OF reg_reachable.init reg_step.start] reg_step.start])
  from done_once [OF this] show ?thesis by simp
qed

section \<open>Events and the debouncer\<close>

text \<open>
  C28. A publication that reports success has sent NATS, on the subject dcm.storage, bytes that
  a consumer reads as a CloudEvent 1.0 with the given id, the source of the provider, type
  dcm.status.storage, subject dcm.storage and JSON content, whose data are the instance id,
  status and message of the event.
\<close>
theorem event_format:
  assumes "cloudevents_sdk S" and "NewNATSPublisher conn url provider = Inr p"
    and "NATS_Publish S send uuid now ctx_Err p event = None"
  shows "\<exists>bytes c. send ''dcm.storage'' bytes = None \<and> ce_Unmarshal S bytes = Some c \<and>
    map (ce_attribute S c) [''specversion'', ''id'', ''source'', ''type'', ''subject'', ''datacontenttype''] =
      [Some ''1.0'', Some uuid, Some (''dcm/providers/'' @ provider), Some ''dcm.status.storage'',
       Some ''dcm.storage'', Some ''application/json''] \<and>
    ce_data S c = Some \<lparr>sd_ID = ev_InstanceID event, sd_Status = ev_Status event,
                         sd_Message = ev_Message event\<rparr>"
  by (rule cloudevents_sdk.NATS_Publish_sent [OF assms])

theorem event_format_witness:
  "\<exists>bytes c. ce_Unmarshal ref_sdk bytes = Some c \<and>
     ce_attribute ref_sdk c ''source'' = Some ''dcm/providers/sp'' \<and>
     ce_data ref_sdk c = Some \<lparr>sd_ID = ''vol'', sd_Status = RUNNING, sd_Message = ''one''\<rparr>"
proof -
  have n: "NewNATSPublisher (\<lambda>_ _. None) ''nats://bus'' ''sp'' =
      Inr \<lparr>np_providerName = ''sp'', np_subject = ''dcm.storage''\<rparr>"
    by (simp add: NewNATSPublisher_def)
  have p: "NATS_Publish ref_sdk (\<lambda>_ _. None) ''u'' 5 (None, None)
      \<lparr>np_providerName = ''sp'', np_subject = ''dcm.storage''\<rparr> (sample_event ''one'') = None"
    by (simp add: NATS_Publish_def NewStatusCloudEvent_def Let_def ref_sdk_def)
  show ?thesis
    using event_format [OF ref_ce.cloudevents_sdk_axioms n p] by (auto simp: sample_event_def)
qed

text \<open>
  C29. In every interleaving, each accepted submission is in exactly one place: pending, being
  published, waiting for its flush, published, or superseded by a later one of the pending
  instance; and the wait group counts exactly the publications that are due.
\<close>
theorem debouncer_accounts:
  assumes "deb_reachable interval start s"
  shows "sy_accepted s = pendings (db_instances (sy_d s)) + in_flight (db_timers (sy_d s)) +
      mset (flushing (sy_stop s)) + mset (sy_out s) + sy_superseded s \<and>
    db_wg (sy_d s) = size (in_flight (db_timers (sy_d s))) + length (flushing (sy_stop s))"
  using deb_reachable_inv [OF assms] by (simp add: deb_inv_def accounted_def)

theorem debouncer_accounts_witness:
  "\<exists>s. perform_all (deb_init 100 0) stale_run = Some s \<and>
     sy_accepted s = mset (sy_out s) + sy_superseded s + pendings (db_instances (sy_d s)) +
       in_flight (db_timers (sy_d s)) + mset (flushing (sy_stop s))"
  using debouncer_accounts [OF perform_all_reachable [OF deb_reachable.init]] stale_run_result
  by (auto simp: ac_simps split: option.splits)

text \<open>
  C30. A pending event is never lost: it is the last one submitted for its instance, and a
  timer of the instance, due one interval after that submission, is armed or has fired and will
  publish it when its callback gets the lock.
\<close>
theorem debouncer_live:
  assumes "deb_reachable interval start s" and "deb_pending (sy_d s) i = Some e"
  shows "\<exists>t \<tau>. t < length (db_timers (sy_d s)) \<and> tm_instance (db_timers (sy_d s) ! t) = i \<and>
      tm_phase (db_timers (sy_d s) ! t) \<in> {Armed, Fired} \<and>
      sy_last s i = Some (\<tau>, e) \<and> tm_due (db_timers (sy_d s) ! t) = \<tau> + interval \<and>
      tm_phase (db_timers (callback_section t (sy_d s)) ! t) = Publishing e"
  by (rule pending_is_live [OF assms])

theorem debouncer_live_witness:
  "\<exists>s e t. perform_all (deb_init 100 0) (take 1 stale_run) = Some s \<and>
     deb_pending (sy_d s) ''vol'' = Some e \<and>
     tm_phase (db_timers (callback_section t (sy_d s)) ! t) = Publishing e"
proof -
  obtain s e where s: "perform_all (deb_init 100 0) (take 1 stale_run) = Some s"
    "deb_pending (sy_d s) ''vol'' = Some e"
    by (auto simp: stale_run_def sys_submit_def deb_init_def NewDebouncer_def deb_pending_Submit)
  from debouncer_live [OF perform_all_reachable [OF deb_reachable.init s(1)] s(2)] s show ?thesis by blast
qed

text \<open>
  C31. If no client submits for an instance while a callback of that instance has fired and
  waits for the lock, an event is published only when it is the last one submitted for its
  instance and one interval has passed since.
\<close>
theorem debouncer_window:
  assumes "prompt_reachable interval start s" and "enabled s (Locks t)"
    and "tm_phase (db_timers (sy_d (perform s (Locks t))) ! t) = Publishing e"
  shows "\<exists>\<tau>. sy_last s (tm_instance (db_timers (sy_d s) ! t)) = Some (\<tau>, e) \<and> \<tau> + interval \<le> sy_now s"
  using prompt_window [OF assms(1,2)] assms(3) by simp

theorem debouncer_window_witness:
  "\<exists>s \<tau> e. perform_all (deb_init 100 0) window_run = Some s \<and>
     sy_last s ''vol'' = Some (\<tau>, e) \<and> \<tau> + 100 \<le> sy_now s"
proof -
  obtain s e where s: "prompt_reachable 100 0 s" "perform_all (deb_init 100 0) window_run = Some s"
    "enabled s (Locks 1)" "tm_phase (db_timers (sy_d (perform s (Locks 1))) ! 1) = Publishing e"
    "tm_instance (db_timers (sy_d s) ! 1) = ''vol''"
    using window_run_result by blast
  from debouncer_window [OF s(1,3,4)] s(2,5) show ?thesis by auto
qed

text \<open>
  C32. When Stop has returned, every accepted submission has been published or superseded,
  nothing is pending, the wait group is at zero, and no step after that publishes anything.
\<close>
theorem debouncer_stop:
  assumes "deb_reachable interval start s" and "sy_stop s = Returned" and "deb_steps s t"
  shows "sy_accepted s = mset (sy_out s) + sy_superseded s \<and>
    db_wg (sy_d s) = 0 \<and> db_instances (sy_d s) = [] \<and>
    sy_out t = sy_out s \<and> sy_accepted t = mset (sy_out t) + sy_superseded t"
  using stop_complete [OF assms(1,2)] stopped_silent [OF assms(3,1,2)] stop_complete [of interval start t]
  by simp

theorem debouncer_stop_witness:
  "\<exists>s. perform_all (deb_init 100 0) stop_run = Some s \<and> sy_accepted s = mset (sy_out s) + sy_superseded s"
proof -
  obtain s where s: "perform_all (deb_init 100 0) stop_run = Some s" "sy_stop s = Returned"
    using stop_run_result by (auto split: option.splits)
  from debouncer_stop [OF perform_all_reachable [OF deb_reachable.init s(1)] s(2) deb_steps.refl] s
  show ?thesis by blast
qed

text \<open>
  C33. Stop never blocks for ever: from every reachable state in which it flushes, as many
  returns of publishFn as the wait group counts and one more step let it return, with nothing
  lost.
\<close>
theorem debouncer_stop_returns:
  assumes "deb_reachable interval start s" and "sy_stop s = Flushing es"
  shows "\<exists>ls t. perform_all s ls = Some t \<and> length ls = Suc (db_wg (sy_d s)) \<and> sy_stop t = Returned \<and>
    sy_accepted t = mset (sy_out t) + sy_superseded t"
proof -
  obtain ls t where r: "perform_all s ls = Some t" "length ls = Suc (db_wg (sy_d s))" "sy_stop t = Returned"
    using stop_returns [OF deb_reachable_inv [OF assms(1)] assms(2)] by blast
  with stop_complete(3) [OF perform_all_reachable [OF assms(1) r(1)] r(3)] show ?thesis by blast
qed

theorem debouncer_stop_returns_witness:
  "\<exists>s ls t. perform_all (deb_init 100 0) (take 3 stop_run) = Some s \<and>
     perform_all s ls = Some t \<and> sy_stop t = Returned"
proof -
  obtain s es where s: "perform_all (deb_init 100 0) (take 3 stop_run) = Some s" "sy_stop s = Flushing es"
    using stop_run_flushing by (auto split: option.splits stop_pc.splits)
  from debouncer_stop_returns [OF perform_all_reachable [OF deb_reachable.init s(1)] s(2)] s
  show ?thesis by blast
qed

text \<open>
  C34. Every step of the debouncer, with its timers, versions and wait group, is a step of a
  plain coalescing queue (submit replaces the pending event of its instance, take moves it to
  the publications, close takes everything) or is invisible.
\<close>
theorem debouncer_refines:
  assumes "deb_reachable interval start s" and "deb_step s l t"
  shows "queue_of t = queue_of s \<or> queue_step (queue_of s) (queue_of t)"
  by (rule queue_simulation [OF assms(2) deb_reachable_inv [OF assms(1)]])

theorem debouncer_refines_witness:
  "queue_of (perform (deb_init 100 0) (hd stale_run)) = queue_of (deb_init 100 0) \<or>
   queue_step (queue_of (deb_init 100 0)) (queue_of (perform (deb_init 100 0) (hd stale_run)))"
  by (rule debouncer_refines [OF deb_reachable.init deb_step.intros]) (simp add: stale_run_def)

text \<open>
  The version check does not stop every stale callback: in a reachable run with an interval of 100,
  a callback delayed across a publication of its instance finds version 1 again in the new state and
  publishes the new event at the very instant it is submitted.
\<close>

theorem debouncer_stale:
  "\<exists>s. deb_reachable 100 0 s \<and> map ev_Message (sy_out s) = [''two'', ''three''] \<and>
     sy_last s ''vol'' = Some (200, sample_event ''three'') \<and> sy_now s = 200"
  using stale_run_result perform_all_reachable [OF deb_reachable.init]
  by (fastforce split: option.splits)

section \<open>The monitor\<close>

text \<open>
  A status event is queued, and becomes the pending event of its instance and the last submitted one,
  unless it repeats the last published status and message or reports provisioning after a failure
  was the last submitted; then nothing changes.
\<close>

theorem submit_if_changed:
  "submitIfChanged (Submit now) e (m, d) =
     (if (\<exists>p. sm_lastPublished m (ev_InstanceID e) = Some p \<and> ev_Status p = ev_Status e \<and>
            ev_Message p = ev_Message e) \<or>
         (\<exists>l. sm_lastSubmitted m (ev_InstanceID e) = Some l \<and> ev_Status l = FAILED \<and>
            ev_Status e = PROVISIONING)
      then (m, d)
      else (m\<lparr>sm_lastSubmitted := (sm_lastSubmitted m)(ev_InstanceID e \<mapsto> e)\<rparr>, Submit now (ev_InstanceID e) e d)) \<and>
   deb_pending (Submit now (ev_InstanceID e) e d) =
     (if db_stopped d then deb_pending d else (deb_pending d)(ev_InstanceID e \<mapsto> e))"
  unfolding repeats_def [symmetric] latched_def [symmetric]
  by (simp add: submitIfChanged_def submit_section_cases deb_pending_Submit)




text \<open>
  A status that returns to the last published one within a debounce window is dropped, and the
  intermediate one is published: the run ends with PROVISIONING as the last event on the bus while
  the volume is RUNNING and nothing is pending.
\<close>

theorem stale_status:
  "\<exists>s. mon_reachable sample_cfg 0 (s :: unit mon_sys) \<and> map ev_Status (ms_bus s) = [RUNNING, PROVISIONING] \<and>
     fst (MapPVCToStatus (ms_cache s ''default'' ''vol'')) = RUNNING \<and>
     db_instances (sy_d (ms_d s)) = [] \<and> ms_slot s PVCInformer = None \<and> ms_slot s EventInformer = None"
  by (rule mon_run_witness [OF back_run_result])

text \<open>
  A terminal Warning Event is reported whatever the state of the volume: a volume that is bound,
  and published as RUNNING, is published as FAILED when an old event of it is delivered again.
\<close>

theorem old_warning:
  "\<exists>s. mon_reachable sample_cfg 0 (s :: unit mon_sys) \<and> map ev_Status (ms_bus s) = [RUNNING, FAILED] \<and>
     fst (MapPVCToStatus (ms_cache s ''default'' ''vol'')) = RUNNING \<and>
     db_instances (sy_d (ms_d s)) = [] \<and> ms_slot s PVCInformer = None \<and> ms_slot s EventInformer = None"
  by (rule mon_run_witness [OF old_warning_run_result])





section \<open>The HTTP server\<close>

text \<open>
  C2. Over HTTP: when a POST of a volume to the assembled server, through its middlewares,
  validation, generated router, JSON codec, handlers and store, is answered 201 with a JSON
  document, a GET of the id of that volume right after it is answered 200 with the very same
  document and changes nothing. (The router and the parameter binding behave as documented, the
  validation passes both requests, the cluster answers and nobody else touches it.)
\<close>
theorem http_created_readable:
  assumes "api_server C B" and "k8s_store K objs classes up L" and "up (ss_world s)" and "usual_path postPath"
    and "h = \<lparr>ch_health = hh, ch_volume = K8sVolumeStore L K kcfg\<rparr>"
    and "passes specRouter r" and "rq_Method r = ''POST''" and "rq_Path r = ''/api/v1alpha1/volumes''"
    and "query_is ''id'' (rq_Query r) i"
    and "Option.bind (rq_Body r) (\<lambda>j. Unmarshal_Volume T j zero_volume) = Some body"
    and "provider_serve C lib B T now cfg specRouter postPath h r s = (Completed, w1, s1)"
    and "answered 201 ctype doc w1"
    and "name = request_id \<lparr>cvr_Params = \<lparr>cp_Id = i\<rparr>, cvr_Body = Some body\<rparr> body"
    and "passes specRouter g" and "rq_Method g = ''GET''" and "rq_Path g = ''/api/v1alpha1/volumes/'' @ name"
  shows "\<exists>w2 s2. provider_serve C lib B T now cfg specRouter postPath h g s1 = (Completed, w2, s2) \<and>
    answered 200 ''application/json'' doc w2 \<and> ss_world s2 = ss_world s1"
  using api_server.provider_create_get [OF assms] .

theorem http_created_readable_witness:
  "\<exists>w s doc w' s'. ref_serve ref_post (ref_state ref_empty) = (Completed, w, s) \<and>
     answered 201 ''application/json'' doc w \<and>
     ref_serve ref_get s = (Completed, w', s') \<and> answered 200 ''application/json'' doc w'"
proof -
  obtain w s doc where p: "ref_serve ref_post (ref_state ref_empty) = (Completed, w, s)"
    and a: "answered 201 ''application/json'' doc w" and "ss_world s = ref_one"
    by (rule ref_posted)
  have "\<exists>w' s'. ref_serve ref_get s = (Completed, w', s') \<and> answered 200 ''application/json'' doc w' \<and>
      ss_world s' = ss_world s"
    by (rule http_created_readable [OF ref_api.api_server_axioms ref.k8s_store_axioms _ ref_usual _ _ _ _ _
          ref_post_body p a HOL.refl, where i = None])
      (simp_all add: ref_state_def ref_handler_def ref_repo_def passes_def query_is_def ref_post_def ref_get_def
        ref_body_def ref_spec_def request_id_def)
  with p a show ?thesis by blast
qed

text \<open>
  C13. The assembled server answers every request whatever its method, path, query and body,
  and whether the handler returns a response, returns an error or panics: with a success
  document (200 or 201, JSON; or 204 without a body), with a problem document whose status
  field is the status of the response and which tells nothing of the cause of an internal
  error, or with the 404 or 405 of the router.
\<close>
theorem server_answers:
  assumes "chi_router C" and "well_behaved ssi" and "fresh rw"
  shows "\<exists>rw' s'. Router_ServeHTTP C (api_router lib B T now cfg specRouter postPath ssi) rw r s =
      (Completed, rw', s') \<and>
    (problem_answer (the_wire rw') \<or> success_answer (the_wire rw') \<or> default_answer (the_wire rw'))"
  using chi_router.api_answers [OF assms] unfolding api_answer_def by blast

theorem server_answers_witness:
  "\<exists>rw' s'. Router_ServeHTTP ref_chi (api_router (\<lambda>_. '''') ref_binder utc_text 0 (cf_Server ref_config) None
      (Inr volumesBasePath) (\<lambda>req w. (StrictPanic (OtherPanic ''nil map''), w)))
      (Wire fresh_wire) ref_get (ref_state ref_empty) = (Completed, rw', s') \<and>
    (problem_answer (the_wire rw') \<or> success_answer (the_wire rw') \<or> default_answer (the_wire rw'))"
  by (rule server_answers [OF ref_chi.chi_router_axioms]) (simp_all add: well_behaved_def)

text \<open>
  C14. A panic of a handler is contained by the recovery middleware: before the status line is
  sent it becomes an internal-error document, after it the connection is left as it is, and
  only http.ErrAbortHandler is passed on.
\<close>
theorem panics_contained:
  assumes "uses_writer h" and "fresh rw"
    and "h (statusRecordingResponseWriter rw False 200) r s = (Panicked p, sw, s')"
  shows "\<exists>rw'. recoveryMiddleware h rw r s =
      (if p = ErrAbortHandler then Panicked ErrAbortHandler else Completed, rw', s') \<and>
    (if p \<noteq> ErrAbortHandler \<and> wr_sent (the_wire sw) = None
     then answered 500 ''application/problem+json''
       (Marshal_Error (problem_doc 500 INTERNAL InternalTitle InternalDetail (Some (rq_URI r)))) (the_wire rw')
     else the_wire rw' = the_wire sw)"
  using recovery_panics [OF assms] by blast

theorem panics_contained_witness:
  "\<exists>rw'. recoveryMiddleware (\<lambda>rw r s. (Panicked (OtherPanic ''nil map''), rw, s)) (Wire fresh_wire) ref_get
      (ref_state ref_empty) = (Completed, rw', ref_state ref_empty) \<and>
    answered 500 ''application/problem+json''
      (Marshal_Error (problem_doc 500 INTERNAL InternalTitle InternalDetail (Some (rq_URI ref_get)))) (the_wire rw')"
proof -
  have "uses_writer (\<lambda>rw r s :: ref_world server_state. (Panicked (OtherPanic ''nil map''), rw, s))"
    by (simp add: uses_writer_def rw_none)
  from panics_contained [OF this fresh_fresh_wire HOL.refl, of ref_get "ref_state ref_empty"]
  show ?thesis by (simp add: fresh_wire_def)
qed





text \<open>
  C16. The JSON document of a volume decodes to that volume: times, labels and the union of
  provider hints with its additional members included, for a volume whose maps are as a decoder
  leaves them (keys sorted and distinct, no additional member named kubernetes, no empty map of
  additional members).
\<close>
theorem volume_json_roundtrip:
  assumes "time_texts T" and "canonical_volume v" and "Marshal_Volume T v = Some j"
  shows "Unmarshal_Volume T j zero_volume = Some v"
  by (rule time_texts.Volume_roundtrip [OF assms])

theorem volume_json_roundtrip_witness:
  "\<exists>j. Marshal_Volume utc_text ref_body = Some j \<and> Unmarshal_Volume utc_text j zero_volume = Some ref_body"
proof -
  have "Marshal_Volume utc_text ref_body \<noteq> None" by code_simp
  then show ?thesis using volume_json_roundtrip [OF utc.time_texts_axioms ref_canonical] by auto
qed

section \<open>The client\<close>

text \<open>
  C3. The whole chain from the generated client to the handlers: for every operation the API
  can be asked for, the client method builds the request, the server receives, validates,
  routes and decodes it, the handler runs once on the very arguments, and the caller gets its
  answer back: the status code, and the value in the field of that status with every other
  field nil. (Router, parameter binding, parameter styles and time texts behave as documented,
  the validation passes the request.)
\<close>
theorem client_sees_answer:
  assumes "client_server C B S T" and "usual_path postPath" and "valid_scheme scheme" and "valid_host host"
    and "ci = api_client S T scheme host (connection st (provider_serve C lib B T now cfg specRouter postPath h))"
    and "addressable T req" and "passes specRouter (op_request T req)"
    and "composite_handle h now req (ss_world s) = (Inr resp, w')"
    and "encodable T resp" and "canonical_response resp"
  shows "\<exists>res s'. client_do T ci req s = (Inr res, s') \<and> ss_world s' = w' \<and> seen resp res"
  unfolding assms(5) by (rule client_server.client_served [OF assms(1-4,6-10)])

theorem client_sees_answer_witness:
  "\<exists>res s'. client_do utc_text ref_caller (ReqCreateVolume ref_req) (ref_state ref_empty) = (Inr res, s') \<and>
     ss_world s' = ref_one \<and> seen (RespCreateVolume (CreateVolume201 ref_volume)) res"
proof -
  have "passes None (op_request utc_text (ReqCreateVolume ref_req))" by (simp add: passes_def)
  moreover have "encodable utc_text (RespCreateVolume (CreateVolume201 ref_volume))" by code_simp
  moreover have "canonical_response (RespCreateVolume (CreateVolume201 ref_volume))"
    by (simp add: ref_stored_canonical)
  ultimately show ?thesis
    by (rule client_sees_answer [OF ref_client.client_server_axioms ref_usual ref_origin HOL.refl ref_addressable
          _ ref_composite])
qed

text \<open>
  C4. From client to cluster: when CreateVolumeWithResponse of the generated client reports a
  created volume (JSON201), GetVolumeWithResponse of its id right after it reports the very
  same volume (JSON200), and changes nothing.
\<close>
theorem client_reads_created:
  assumes "client_server C B S T" and "k8s_store K objs classes up L" and "up (ss_world s)"
    and "usual_path postPath" and "h = \<lparr>ch_health = hh, ch_volume = K8sVolumeStore L K kcfg\<rparr>"
    and "valid_scheme scheme" and "valid_host host"
    and "ci = api_client S T scheme host (connection st (provider_serve C lib B T now cfg specRouter postPath h))"
    and "canonical_volume body" and "req = \<lparr>cvr_Params = params, cvr_Body = Some body\<rparr>"
    and "passes specRouter (op_request T (ReqCreateVolume req))"
    and "CreateVolumeWithResponse T ci (Some params) body [] s = (Inr r1, s1)" and "ccr_JSON201 r1 = Some v"
    and "name = request_id req body" and "passes specRouter (op_request T (ReqGetVolume name))"
  shows "\<exists>r2 s2. GetVolumeWithResponse T ci name [] s1 = (Inr r2, s2) \<and> cgr_JSON200 r2 = Some v \<and>
    ss_world s2 = ss_world s1"
  by (rule client_server.client_create_get [OF assms])

theorem client_reads_created_witness:
  "\<exists>r1 s1 r2 s2. CreateVolumeWithResponse utc_text ref_caller (Some (cvr_Params ref_req)) ref_body []
       (ref_state ref_empty) = (Inr r1, s1) \<and>
     GetVolumeWithResponse utc_text ref_caller ''data'' [] s1 = (Inr r2, s2) \<and> cgr_JSON200 r2 = Some ref_volume"
proof -
  obtain r1 s1 where c: "CreateVolumeWithResponse utc_text ref_caller (Some (cvr_Params ref_req)) ref_body []
      (ref_state ref_empty) = (Inr r1, s1)" "ccr_JSON201 r1 = Some ref_volume"
    by (rule ref_called)
  have r: "ref_req = \<lparr>cvr_Params = cvr_Params ref_req, cvr_Body = Some ref_body\<rparr>" by (simp add: ref_req_def)
  have h: "ref_handler = \<lparr>ch_health = ch_health ref_handler, ch_volume = K8sVolumeStore ref_lib ref_kube ref_cfg\<rparr>"
    by (simp add: ref_handler_def ref_repo_def)
  have "\<exists>r2 s2. GetVolumeWithResponse utc_text ref_caller ''data'' [] s1 = (Inr r2, s2) \<and>
      cgr_JSON200 r2 = Some ref_volume \<and> ss_world s2 = ss_world s1"
    by (rule client_reads_created [OF ref_client.client_server_axioms ref.k8s_store_axioms _ ref_usual h ref_origin
          HOL.refl ref_canonical r _ c]) (simp_all add: ref_state_def passes_def)
  with c show ?thesis by blast
qed

section \<open>The life of the process\<close>







text \<open>
  C37. The start of the monitor returns no error exactly when both handlers were added, both
  caches synced and the context was alive so far. With an error of the first two steps nothing
  has been started; after that, on every path, the debouncer is stopped before the factories
  are shut down, each once. It watches the namespace and the labels the store lists.
\<close>
theorem monitor_start:
  assumes "monitor_Start L env (monitorCfg cfg) = (err, tr)"
    and "pvcs = pvcFactory L (monitorCfg cfg)" and "events = eventFactory (monitorCfg cfg)"
  shows "(err = None \<longleftrightarrow>
      (\<forall>f \<in> {pvcs, events}. se_AddEventHandler env f = None \<and> (\<forall>(typ, ok) \<in> set (se_WaitForCacheSync env f). ok)) \<and>
      se_ctx_Err env 0 = None \<and> se_ctx_Err env 1 = None) \<and>
    (err \<noteq> None \<and> tr \<in> {[], [AddedHandler pvcs]} \<or>
     (\<exists>waited. tr = [AddedHandler pvcs, AddedHandler events, StartedFactory pvcs, StartedFactory events] @ waited @
        [StoppedDebouncer, ShutDownFactory events, ShutDownFactory pvcs] \<and>
      waited = (if err = None then [AwaitedCancel] else []))) \<and>
    fo_Namespace pvcs = kc_Namespace (k8sCfg cfg) \<and> fo_LabelSelector pvcs = Selector L"
  using monitor_Start_ok [OF assms(2,3), of env] monitor_Start_shape [OF assms] assms(1)
    watched_is_listed [of L cfg] assms(2) by simp

theorem monitor_start_witness:
  "fst (monitor_Start ref_lib ref_start_env (monitorCfg ref_config)) = None"
proof -
  obtain err tr where "monitor_Start ref_lib ref_start_env (monitorCfg ref_config) = (err, tr)"
    by (cases "monitor_Start ref_lib ref_start_env (monitorCfg ref_config)")
  with monitor_start [OF this HOL.refl HOL.refl] show ?thesis by (simp add: ref_start_env_def)
qed


section \<open>Requests at the same time\<close>

text \<open>
  C5. Requests run at the same time and the store takes no locks: in every interleaving of any
  number of creations, reads and listings, deletions of other ids, other clients and
  controllers, at most one creation of an id succeeds as long as nobody has asked for its
  deletion; once one has, the volume can be read under its id, and no other creation of it can
  succeed. (The API server is reachable and behaves as documented, and the others delete no
  object of the namespace and keep their labels.)
\<close>
theorem one_creation:
  assumes "store_api K objs classes up L" and "conc_reachable L K cfg objs up s"
    and "\<forall>t \<in> set (cc_threads s). th_op t \<noteq> OpDelete i"
  shows "winners i (cc_threads s) \<le> 1 \<and>
    (winners i (cc_threads s) = 1 \<longrightarrow>
       (\<exists>v. K8s_Get L K cfg i (cc_world s) = Inr v \<and> vol_Id v = Some i) \<and>
       \<not> reports_created (fst (create_section L K cfg spec i (cc_world s))))"
  using store_api.one_winner [OF assms] by blast

theorem one_creation_witness:
  "conc_reachable ref_lib ref_kube ref_cfg ref_objs rf_up ref_race_end \<and>
   winners ''data'' (cc_threads ref_race_end) = 1 \<and>
   (\<exists>v. K8s_Get ref_lib ref_kube ref_cfg ''data'' (cc_world ref_race_end) = Inr v \<and> vol_Id v = Some ''data'')"
proof -
  have "\<forall>op \<in> set (map th_op (cc_threads ref_race_end)). op \<noteq> OpDelete ''data''"
    unfolding ref_race_result(2) by simp
  then have "\<forall>t \<in> set (cc_threads ref_race_end). th_op t \<noteq> OpDelete ''data''" by simp
  from one_creation [OF ref.store_api_axioms ref_race_reachable this] ref_race_reachable ref_race_result(1)
  show ?thesis by blast
qed


end
